theory Spec2Isabelle
  imports Complex_Main
begin

section \<open>Data model\<close>

text \<open>
  The authentication route \<^verbatim>\<open>apps/web/app/api/auth/[...nextauth]/route.ts\<close> works on seven
  tables of the relational store through the Prisma client. A row is a record with the
  fields the route reads or writes. A table that the route appends to is a list in insertion
  order; the route never deletes a row. The key of a one-time-code row is its position in
  the list, so these keys are unique by construction; a user row carries its key. The two
  tables the route only reads (tenants, plans) are maps from their key. A JavaScript
  \<^verbatim>\<open>Date\<close> is its number of milliseconds since the epoch.
\<close>

type_synonym time = int

datatype otp_type = EMAIL | SMS

record plan_row =
  maxDevices :: int

record tenant_row =
  tenant_planId :: "string option"

record user_row =
  user_id :: string
  user_email :: "string option"
  user_name :: "string option"
  user_image :: "string option"
  user_role :: string
  user_tenantId :: "string option"
  user_phone :: "string option"
  user_emailVerified :: "time option"
  user_phoneVerified :: "time option"

record otp_row =
  otp_email :: "string option"
  otp_phone :: "string option"
  otp_code :: string
  otp_kind :: otp_type
  otp_expiresAt :: time
  otp_verified :: bool

record device_session =
  ds_userId :: string
  ds_fingerprint :: string
  ds_deviceType :: string
  ds_userAgent :: string
  ds_ipAddress :: string
  ds_active :: bool
  ds_lastSeen :: time

record pending_device_session =
  pds_userId :: string
  pds_fingerprint :: string
  pds_deviceType :: string
  pds_userAgent :: string
  pds_ipAddress :: string

datatype audit_metadata =
    SignInMetadata "string option" "bool option" time
  | SignOutMetadata time

record audit_log =
  al_userId :: string
  al_tenantId :: "string option"
  al_action :: string
  al_metadata :: audit_metadata

record db =
  users :: "user_row list"
  tenants :: "string \<rightharpoonup> tenant_row"
  plans :: "string \<rightharpoonup> plan_row"
  otpVerifications :: "otp_row list"
  deviceSessions :: "device_session list"
  pendingDeviceSessions :: "pending_device_session list"
  auditLogs :: "audit_log list"

text \<open>
  The result of \<^verbatim>\<open>include: { tenant: { include: { plan: true } } }\<close>: the user row with its
  tenant, if it has one, and the tenant's plan, if it has one.
\<close>

record tenant_with_plan =
  twp_tenant :: tenant_row
  twp_plan :: "plan_row option"

record user_with_tenant =
  uwt_user :: user_row
  uwt_tenant :: "tenant_with_plan option"

section \<open>JavaScript numbers\<close>

text \<open>
  A JavaScript number is an IEEE 754 double. The numbers the route computes with are finite
  and not negative, and every such double is a whole multiple of $2^{-1074}$: the double $x$
  is the natural number $x \cdot 2^{1074}$ here. An operation computes the exact result and
  rounds it to the nearest double, ties to the even significand: 53 significant bits, and no
  bit below $2^{-1074}$. Results of $2^{1024}$ and more (\<^verbatim>\<open>Infinity\<close>) are not modelled;
  the route computes nothing above $10^6$ with these operations. \<^verbatim>\<open>Math.random()\<close> returns
  a double that is at least 0 and less than 1: a number \<open>r\<close> with \<open>is_double r\<close> and
  \<open>r < 2 ^ 1074\<close>.
\<close>

type_synonym double = nat

fun bit_length :: "nat \<Rightarrow> nat" where
  "bit_length n = (if n = 0 then 0 else Suc (bit_length (n div 2)))"

text \<open>\<open>n / 2 ^ k\<close> rounded to the nearest natural number, a tie to the even one.\<close>

definition round_nearest_even :: "nat \<Rightarrow> nat \<Rightarrow> nat" where
  "round_nearest_even n k =
     (let q = n div 2 ^ k; r = n mod 2 ^ k in
      if 2 * r < 2 ^ k then q
      else if 2 ^ k < 2 * r then q + 1
      else if even q then q else q + 1)"

text \<open>The double nearest to the exact value $n \cdot 2^{-1074 - j}$.\<close>

definition to_double :: "nat \<Rightarrow> nat \<Rightarrow> double" where
  "to_double n j =
     (let k = max (bit_length n - 53) j in round_nearest_even n k * 2 ^ (k - j))"

definition is_double :: "nat \<Rightarrow> bool" where
  "is_double a = (to_double a 0 = a)"

text \<open>An integer literal, \<^verbatim>\<open>a * b\<close>, \<^verbatim>\<open>a + b\<close> and \<^verbatim>\<open>Math.floor(a)\<close>.\<close>

definition js_number :: "nat \<Rightarrow> double" where
  "js_number c = c * 2 ^ 1074"

definition js_times :: "double \<Rightarrow> double \<Rightarrow> double" where
  "js_times a b = to_double (a * b) 1074"

definition js_plus :: "double \<Rightarrow> double \<Rightarrow> double" where
  "js_plus a b = to_double (a + b) 0"

definition Math_floor :: "double \<Rightarrow> nat" where
  "Math_floor a = a div 2 ^ 1074"

text \<open>\<^verbatim>\<open>toString()\<close> of a whole number below $10^{21}$: its decimal digits.\<close>

definition digit_char :: "nat \<Rightarrow> char" where
  "digit_char i = ''0123456789'' ! i"

fun toString :: "nat \<Rightarrow> string" where
  "toString n = (if n < 10 then [digit_char n] else toString (n div 10) @ [digit_char (n mod 10)])"

section \<open>The environment of one call\<close>

text \<open>
  Everything a handler reads from outside the store: which calls of the external layer throw
  during this execution, the clock (the value of the k-th \<^verbatim>\<open>new Date()\<close> or
  \<^verbatim>\<open>Date.now()\<close> of the call), the hex string \<^verbatim>\<open>randomBytes(16).toString('hex')\<close>,
  the draw of \<^verbatim>\<open>Math.random()\<close> (a double) and the key the store gives a user row it
  creates.
  Every handler makes each kind of external call at most once, so one flag per kind of call
  describes every way the calls of one execution can fail.
\<close>

datatype db_op =
    OTP_findFirst | OTP_update | OTP_create
  | User_findUnique | User_create
  | DeviceSession_count | DeviceSession_create | DeviceSession_updateMany
  | PendingDeviceSession_create
  | AuditLog_create
  | Twilio_messages_create

datatype error =
    Thrown db_op
  | ValidationError
  | UniqueConstraintViolation
  | RecordNotFound

record env =
  faults :: "db_op \<Rightarrow> bool"
  clock :: "nat \<Rightarrow> time"
  randomBytes_hex :: string
  math_random :: double
  cuid :: string

definition no_faults :: "db_op \<Rightarrow> bool" where
  "no_faults = (\<lambda>_. False)"

section \<open>The data layer\<close>

text \<open>
  Modelled from the spec: the package \<^verbatim>\<open>@hospity/db\<close> (the Prisma schema and client) is
  not among the sources. The tables are those of the specification's data model, and each
  query the route makes is one function here, with the meaning the route relies on: \<^verbatim>\<open>findFirst\<close> returns the first row that satisfies the filter,
  \<^verbatim>\<open>findUnique\<close> the row with the given unique field, \<^verbatim>\<open>count\<close> the number of rows
  that satisfy the filter, \<^verbatim>\<open>create\<close> appends a row, \<^verbatim>\<open>update\<close> changes the row with
  the given key, \<^verbatim>\<open>updateMany\<close> every row that satisfies the filter. A call throws when
  the environment says so (\<open>Inl\<close>), and otherwise returns its result with the new store.
\<close>

fun first_index :: "('a \<Rightarrow> bool) \<Rightarrow> 'a list \<Rightarrow> nat option" where
  "first_index P [] = None"
| "first_index P (x # xs) = (if P x then Some 0 else map_option Suc (first_index P xs))"

definition oTPVerification_findFirst ::
  "env \<Rightarrow> (otp_row \<Rightarrow> bool) \<Rightarrow> db \<Rightarrow> error + nat option" where
  "oTPVerification_findFirst e P d =
     (if faults e OTP_findFirst then Inl (Thrown OTP_findFirst)
      else Inr (first_index P (otpVerifications d)))"

definition oTPVerification_update_verified :: "env \<Rightarrow> nat \<Rightarrow> db \<Rightarrow> error + db" where
  "oTPVerification_update_verified e i d =
     (if faults e OTP_update then Inl (Thrown OTP_update)
      else if i < length (otpVerifications d)
      then Inr (d\<lparr>otpVerifications :=
                  (otpVerifications d)[i := (otpVerifications d ! i)\<lparr>otp_verified := True\<rparr>]\<rparr>)
      else Inl RecordNotFound)"

definition oTPVerification_create :: "env \<Rightarrow> otp_row \<Rightarrow> db \<Rightarrow> error + db" where
  "oTPVerification_create e r d =
     (if faults e OTP_create then Inl (Thrown OTP_create)
      else Inr (d\<lparr>otpVerifications := otpVerifications d @ [r]\<rparr>))"

definition include_tenant_plan :: "db \<Rightarrow> user_row \<Rightarrow> user_with_tenant" where
  "include_tenant_plan d u =
     \<lparr>uwt_user = u,
      uwt_tenant =
        (case user_tenantId u of
           None \<Rightarrow> None
         | Some t \<Rightarrow>
             (case tenants d t of
                None \<Rightarrow> None
              | Some tr \<Rightarrow>
                  Some \<lparr>twp_tenant = tr,
                        twp_plan = (case tenant_planId tr of
                                      None \<Rightarrow> None
                                    | Some p \<Rightarrow> plans d p)\<rparr>))\<rparr>"

text \<open>
  \<^verbatim>\<open>findUnique\<close> needs a value for its unique field: with \<^verbatim>\<open>null\<close> or
  \<^verbatim>\<open>undefined\<close> the client rejects the query.
\<close>

definition user_findUnique_email ::
  "env \<Rightarrow> string option \<Rightarrow> db \<Rightarrow> error + user_row option" where
  "user_findUnique_email e email d =
     (if faults e User_findUnique then Inl (Thrown User_findUnique)
      else (case email of
              None \<Rightarrow> Inl ValidationError
            | Some a \<Rightarrow> Inr (find (\<lambda>u. user_email u = Some a) (users d))))"

definition user_findUnique_phone ::
  "env \<Rightarrow> string option \<Rightarrow> db \<Rightarrow> error + user_row option" where
  "user_findUnique_phone e phone d =
     (if faults e User_findUnique then Inl (Thrown User_findUnique)
      else (case phone of
              None \<Rightarrow> Inl ValidationError
            | Some a \<Rightarrow> Inr (find (\<lambda>u. user_phone u = Some a) (users d))))"

text \<open>
  \<^verbatim>\<open>user.create\<close>: the store fills the key, and refuses a row whose key, email or
  phone another row already has (all three are unique).
\<close>

definition user_create :: "env \<Rightarrow> user_row \<Rightarrow> db \<Rightarrow> error + user_row \<times> db" where
  "user_create e data d =
     (let u = data\<lparr>user_id := cuid e\<rparr> in
      if faults e User_create then Inl (Thrown User_create)
      else if (\<exists>v \<in> set (users d).
                 user_id v = user_id u
               \<or> (user_email u \<noteq> None \<and> user_email v = user_email u)
               \<or> (user_phone u \<noteq> None \<and> user_phone v = user_phone u))
      then Inl UniqueConstraintViolation
      else Inr (u, d\<lparr>users := users d @ [u]\<rparr>))"

definition deviceSession_count ::
  "env \<Rightarrow> (device_session \<Rightarrow> bool) \<Rightarrow> db \<Rightarrow> error + int" where
  "deviceSession_count e P d =
     (if faults e DeviceSession_count then Inl (Thrown DeviceSession_count)
      else Inr (int (length (filter P (deviceSessions d)))))"

definition deviceSession_create :: "env \<Rightarrow> device_session \<Rightarrow> db \<Rightarrow> error + db" where
  "deviceSession_create e r d =
     (if faults e DeviceSession_create then Inl (Thrown DeviceSession_create)
      else Inr (d\<lparr>deviceSessions := deviceSessions d @ [r]\<rparr>))"

definition deviceSession_updateMany ::
  "env \<Rightarrow> (device_session \<Rightarrow> bool) \<Rightarrow> (device_session \<Rightarrow> device_session) \<Rightarrow> db
     \<Rightarrow> error + db" where
  "deviceSession_updateMany e P upd d =
     (if faults e DeviceSession_updateMany then Inl (Thrown DeviceSession_updateMany)
      else Inr (d\<lparr>deviceSessions :=
                  map (\<lambda>r. if P r then upd r else r) (deviceSessions d)\<rparr>))"

definition pendingDeviceSession_create ::
  "env \<Rightarrow> pending_device_session \<Rightarrow> db \<Rightarrow> error + db" where
  "pendingDeviceSession_create e r d =
     (if faults e PendingDeviceSession_create then Inl (Thrown PendingDeviceSession_create)
      else Inr (d\<lparr>pendingDeviceSessions := pendingDeviceSessions d @ [r]\<rparr>))"

definition auditLog_create :: "env \<Rightarrow> audit_log \<Rightarrow> db \<Rightarrow> error + db" where
  "auditLog_create e r d =
     (if faults e AuditLog_create then Inl (Thrown AuditLog_create)
      else Inr (d\<lparr>auditLogs := auditLogs d @ [r]\<rparr>))"

section \<open>The sign-in callback\<close>

text \<open>
  \<^verbatim>\<open>callbacks.signIn({ user, account, profile })\<close> returns \<^verbatim>\<open>true\<close> (the sign-in goes
  on), \<^verbatim>\<open>false\<close> (it is denied) or a path to redirect to. Its whole body is inside
  \<^verbatim>\<open>try { ... } catch (error) { console.error(...); return false }\<close>.
\<close>

datatype signIn_result = Allow | Deny | Redirect string

record signIn_user =
  su_email :: "string option"

record account =
  provider :: string

text \<open>\<^verbatim>\<open>existingUser.tenant?.plan?.maxDevices || 1\<close>: 1 replaces a missing value and 0.\<close>

definition maxDevices_or_1 :: "user_with_tenant \<Rightarrow> int" where
  "maxDevices_or_1 existingUser =
     (case uwt_tenant existingUser of
        None \<Rightarrow> 1
      | Some t \<Rightarrow>
          (case twp_plan t of
             None \<Rightarrow> 1
           | Some p \<Rightarrow> if maxDevices p = 0 then 1 else maxDevices p))"

definition signIn :: "env \<Rightarrow> signIn_user \<Rightarrow> account option \<Rightarrow> db \<Rightarrow> signIn_result \<times> db" where
  "signIn e user acc d =
     (let deviceFingerprint = randomBytes_hex e in
      if (case acc of None \<Rightarrow> False | Some a \<Rightarrow> provider a = ''google'') then
        (case user_findUnique_email e (su_email user) d of
           Inl err \<Rightarrow> (Deny, d)
         | Inr None \<Rightarrow> (Allow, d)
         | Inr (Some u) \<Rightarrow>
             (let existingUser = include_tenant_plan d u in
              case deviceSession_count e
                     (\<lambda>s. ds_userId s = user_id (uwt_user existingUser) \<and> ds_active s) d of
                Inl err \<Rightarrow> (Deny, d)
              | Inr activeDevices \<Rightarrow>
                  (let maxDevices = maxDevices_or_1 existingUser in
                   if activeDevices \<ge> maxDevices then
                     (case pendingDeviceSession_create e
                             \<lparr>pds_userId = user_id (uwt_user existingUser),
                              pds_fingerprint = deviceFingerprint,
                              pds_deviceType = ''WEB'',
                              pds_userAgent = ''Unknown'',
                              pds_ipAddress = ''0.0.0.0''\<rparr> d of
                        Inl err \<Rightarrow> (Deny, d)
                      | Inr d' \<Rightarrow> (Redirect ''/auth/device-limit-exceeded'', d'))
                   else
                     (case deviceSession_create e
                             \<lparr>ds_userId = user_id (uwt_user existingUser),
                              ds_fingerprint = deviceFingerprint,
                              ds_deviceType = ''WEB'',
                              ds_userAgent = ''Unknown'',
                              ds_ipAddress = ''0.0.0.0'',
                              ds_active = True,
                              ds_lastSeen = clock e 0\<rparr> d of
                        Inl err \<Rightarrow> (Deny, d)
                      | Inr d' \<Rightarrow> (Allow, d')))))
      else (Allow, d))"

text \<open>The number of active device sessions of a user, as the callback counts it.\<close>

definition activeDevices :: "db \<Rightarrow> string \<Rightarrow> int" where
  "activeDevices d uid =
     int (length (filter (\<lambda>s. ds_userId s = uid \<and> ds_active s) (deviceSessions d)))"


section \<open>The credential providers\<close>

text \<open>
  \<^verbatim>\<open>authorize(credentials)\<close> of the providers \<^verbatim>\<open>email-otp\<close> and \<^verbatim>\<open>phone-otp\<close>. A
  credential field is absent (\<open>None\<close>) or a string; \<^verbatim>\<open>!credentials?.email\<close> holds when
  the object or the field is absent or the string is empty. The result is the user object
  (\<open>Some\<close>) or \<^verbatim>\<open>null\<close> (\<open>None\<close>); everything after the guard is inside
  \<^verbatim>\<open>try { ... } catch (error) { console.error(...); return null }\<close>, so a call that
  throws ends the function with \<^verbatim>\<open>null\<close> and the store as the earlier calls left it.
  The filter's \<^verbatim>\<open>new Date()\<close> is the first reading of the clock, the one of
  \<^verbatim>\<open>user.create\<close> the second.
\<close>

record email_credentials =
  cred_email :: "string option"
  cred_otp :: "string option"

record phone_credentials =
  cred_phone :: "string option"
  cred_phone_otp :: "string option"

record auth_user =
  au_id :: string
  au_email :: "string option"
  au_name :: "string option"
  au_image :: "string option"
  au_role :: string
  au_tenantId :: "string option"
  au_phone :: "string option"
  au_phoneVerified :: "time option"

definition returned_user :: "user_row \<Rightarrow> auth_user" where
  "returned_user user =
     \<lparr>au_id = user_id user, au_email = user_email user, au_name = user_name user,
      au_image = user_image user, au_role = user_role user, au_tenantId = user_tenantId user,
      au_phone = user_phone user, au_phoneVerified = user_phoneVerified user\<rparr>"

definition email_otp_filter :: "string \<Rightarrow> string \<Rightarrow> time \<Rightarrow> otp_row \<Rightarrow> bool" where
  "email_otp_filter email otp now r =
     (otp_email r = Some email \<and> otp_code r = otp \<and> otp_kind r = EMAIL
      \<and> otp_expiresAt r > now \<and> otp_verified r = False)"

definition phone_otp_filter :: "string \<Rightarrow> string \<Rightarrow> time \<Rightarrow> otp_row \<Rightarrow> bool" where
  "phone_otp_filter phone otp now r =
     (otp_phone r = Some phone \<and> otp_code r = otp \<and> otp_kind r = SMS
      \<and> otp_expiresAt r > now \<and> otp_verified r = False)"

definition authorize_email_otp ::
  "env \<Rightarrow> email_credentials option \<Rightarrow> db \<Rightarrow> auth_user option \<times> db" where
  "authorize_email_otp e credentials d =
     (case credentials of
        None \<Rightarrow> (None, d)
      | Some c \<Rightarrow>
     (case cred_email c of
        None \<Rightarrow> (None, d)
      | Some email \<Rightarrow>
     (case cred_otp c of
        None \<Rightarrow> (None, d)
      | Some otp \<Rightarrow>
          if email = [] \<or> otp = [] then (None, d)
          else
            (case oTPVerification_findFirst e (email_otp_filter email otp (clock e 0)) d of
               Inl err \<Rightarrow> (None, d)
             | Inr None \<Rightarrow> (None, d)
             | Inr (Some otpRecord) \<Rightarrow>
                 (case oTPVerification_update_verified e otpRecord d of
                    Inl err \<Rightarrow> (None, d)
                  | Inr d1 \<Rightarrow>
                      (case user_findUnique_email e (Some email) d1 of
                         Inl err \<Rightarrow> (None, d1)
                       | Inr (Some user) \<Rightarrow> (Some (returned_user user), d1)
                       | Inr None \<Rightarrow>
                           (case user_create e
                                   \<lparr>user_id = [], user_email = Some email, user_name = None,
                                    user_image = None, user_role = ''CUSTOMER'',
                                    user_tenantId = None, user_phone = None,
                                    user_emailVerified = Some (clock e 1),
                                    user_phoneVerified = None\<rparr> d1 of
                              Inl err \<Rightarrow> (None, d1)
                            | Inr (user, d2) \<Rightarrow> (Some (returned_user user), d2))))))))"

definition authorize_phone_otp ::
  "env \<Rightarrow> phone_credentials option \<Rightarrow> db \<Rightarrow> auth_user option \<times> db" where
  "authorize_phone_otp e credentials d =
     (case credentials of
        None \<Rightarrow> (None, d)
      | Some c \<Rightarrow>
     (case cred_phone c of
        None \<Rightarrow> (None, d)
      | Some phone \<Rightarrow>
     (case cred_phone_otp c of
        None \<Rightarrow> (None, d)
      | Some otp \<Rightarrow>
          if phone = [] \<or> otp = [] then (None, d)
          else
            (case oTPVerification_findFirst e (phone_otp_filter phone otp (clock e 0)) d of
               Inl err \<Rightarrow> (None, d)
             | Inr None \<Rightarrow> (None, d)
             | Inr (Some otpRecord) \<Rightarrow>
                 (case oTPVerification_update_verified e otpRecord d of
                    Inl err \<Rightarrow> (None, d)
                  | Inr d1 \<Rightarrow>
                      (case user_findUnique_phone e (Some phone) d1 of
                         Inl err \<Rightarrow> (None, d1)
                       | Inr (Some user) \<Rightarrow> (Some (returned_user user), d1)
                       | Inr None \<Rightarrow>
                           (case user_create e
                                   \<lparr>user_id = [], user_email = None, user_name = None,
                                    user_image = None, user_role = ''CUSTOMER'',
                                    user_tenantId = None, user_phone = Some phone,
                                    user_emailVerified = None,
                                    user_phoneVerified = Some (clock e 1)\<rparr> d1 of
                              Inl err \<Rightarrow> (None, d1)
                            | Inr (user, d2) \<Rightarrow> (Some (returned_user user), d2))))))))"

section \<open>The events\<close>

text \<open>
  \<^verbatim>\<open>events.signIn\<close> and \<^verbatim>\<open>events.signOut\<close> await their data-layer calls with no
  \<^verbatim>\<open>try\<close> around them: when a call throws, the handler's promise rejects with that error
  (\<open>Inl\<close>), and the store stays as the earlier calls left it. \<^verbatim>\<open>x || null\<close> keeps a
  non-empty string.
\<close>

record event_user =
  eu_id :: "string option"
  eu_tenantId :: "string option"

record jwt_token =
  token_sub :: "string option"
  token_tenantId :: "string option"

definition or_null :: "string option \<Rightarrow> string option" where
  "or_null x = (case x of None \<Rightarrow> None | Some v \<Rightarrow> if v = [] then None else Some v)"

definition event_signIn ::
  "env \<Rightarrow> event_user \<Rightarrow> account option \<Rightarrow> bool option \<Rightarrow> db \<Rightarrow> (error + unit) \<times> db" where
  "event_signIn e user acc isNewUser d =
     (case or_null (eu_id user) of
        None \<Rightarrow> (Inr (), d)
      | Some uid \<Rightarrow>
          (case auditLog_create e
                  \<lparr>al_userId = uid,
                   al_tenantId = or_null (eu_tenantId user),
                   al_action = ''USER_SIGNIN'',
                   al_metadata = SignInMetadata (map_option provider acc) isNewUser (clock e 0)\<rparr> d of
             Inl err \<Rightarrow> (Inl err, d)
           | Inr d' \<Rightarrow> (Inr (), d')))"

definition event_signOut :: "env \<Rightarrow> jwt_token option \<Rightarrow> db \<Rightarrow> (error + unit) \<times> db" where
  "event_signOut e token d =
     (case token of
        None \<Rightarrow> (Inr (), d)
      | Some t \<Rightarrow>
     (case or_null (token_sub t) of
        None \<Rightarrow> (Inr (), d)
      | Some uid \<Rightarrow>
          (case deviceSession_updateMany e
                  (\<lambda>s. ds_userId s = uid \<and> ds_active s = True)
                  (\<lambda>s. s\<lparr>ds_active := False, ds_lastSeen := clock e 0\<rparr>) d of
             Inl err \<Rightarrow> (Inl err, d)
           | Inr d1 \<Rightarrow>
               (case auditLog_create e
                       \<lparr>al_userId = uid,
                        al_tenantId = or_null (token_tenantId t),
                        al_action = ''USER_SIGNOUT'',
                        al_metadata = SignOutMetadata (clock e 1)\<rparr> d1 of
                  Inl err \<Rightarrow> (Inl err, d1)
                | Inr d2 \<Rightarrow> (Inr (), d2)))))"

text \<open>
  Modelled from the spec: the authentication library (\<^verbatim>\<open>next-auth\<close>), which
  \<^verbatim>\<open>NextAuth(authOptions)\<close> hands the two handlers to and which calls them during a sign-in
  or a sign-out, is not among the sources. The specification says of the audit writes of
  these handlers that a failure is swallowed, logged only, and never blocks or fails the
  sign-in or sign-out (log and continue): the library awaits a handler of \<^verbatim>\<open>events\<close>
  inside a \<^verbatim>\<open>try\<close>, logs what the handler throws and goes on. The result is what the
  operation sees of the event (it never sees an error), the error logged if there is one,
  and the store as the handler left it.
\<close>

definition eventsErrorHandler ::
  "(db \<Rightarrow> (error + unit) \<times> db) \<Rightarrow> db \<Rightarrow> (error + unit) \<times> error option \<times> db" where
  "eventsErrorHandler handler d =
     (case handler d of
        (Inl err, d') \<Rightarrow> (Inr (), Some err, d')
      | (Inr u, d') \<Rightarrow> (Inr (), None, d'))"

section \<open>Two sign-in attempts at once\<close>

text \<open>
  \<^verbatim>\<open>authorize\<close> is an \<^verbatim>\<open>async\<close> function: it runs to its next \<^verbatim>\<open>await\<close> without
  interruption and gives way there, so another request's handler can run between two of its
  data-layer calls. One step below is the code of the \<^verbatim>\<open>email-otp\<close> provider up to and
  including one awaited call; the position records which call comes next, with the key of
  \<^verbatim>\<open>otpRecord\<close> once it is found. The credentials are the two strings that passed the
  guard at the top of the function.
\<close>

datatype authorize_position =
    Before_findFirst
  | Before_update nat
  | Before_findUnique
  | Before_create
  | Returned "auth_user option"

definition authorize_email_otp_step ::
  "env \<Rightarrow> string \<Rightarrow> string \<Rightarrow> authorize_position \<times> db \<Rightarrow> authorize_position \<times> db" where
  "authorize_email_otp_step e email otp s =
     (case s of (pos, d) \<Rightarrow>
     (case pos of
        Before_findFirst \<Rightarrow>
          (case oTPVerification_findFirst e (email_otp_filter email otp (clock e 0)) d of
             Inl err \<Rightarrow> (Returned None, d)
           | Inr None \<Rightarrow> (Returned None, d)
           | Inr (Some otpRecord) \<Rightarrow> (Before_update otpRecord, d))
      | Before_update otpRecord \<Rightarrow>
          (case oTPVerification_update_verified e otpRecord d of
             Inl err \<Rightarrow> (Returned None, d)
           | Inr d1 \<Rightarrow> (Before_findUnique, d1))
      | Before_findUnique \<Rightarrow>
          (case user_findUnique_email e (Some email) d of
             Inl err \<Rightarrow> (Returned None, d)
           | Inr (Some user) \<Rightarrow> (Returned (Some (returned_user user)), d)
           | Inr None \<Rightarrow> (Before_create, d))
      | Before_create \<Rightarrow>
          (case user_create e
                  \<lparr>user_id = [], user_email = Some email, user_name = None,
                   user_image = None, user_role = ''CUSTOMER'',
                   user_tenantId = None, user_phone = None,
                   user_emailVerified = Some (clock e 1),
                   user_phoneVerified = None\<rparr> d of
             Inl err \<Rightarrow> (Returned None, d)
           | Inr (user, d2) \<Rightarrow> (Returned (Some (returned_user user)), d2))
      | Returned r \<Rightarrow> (Returned r, d)))"

text \<open>
  Two requests with the same email and code, each with its own environment, on one store.
  A schedule says whose step comes next.
\<close>

datatype request = First | Second

fun interleave ::
  "env \<Rightarrow> env \<Rightarrow> string \<Rightarrow> string \<Rightarrow> request list
     \<Rightarrow> authorize_position \<times> authorize_position \<times> db
     \<Rightarrow> authorize_position \<times> authorize_position \<times> db" where
  "interleave e1 e2 email otp [] s = s"
| "interleave e1 e2 email otp (First # rs) (p1, p2, d) =
     (case authorize_email_otp_step e1 email otp (p1, d) of
        (p1', d') \<Rightarrow> interleave e1 e2 email otp rs (p1', p2, d'))"
| "interleave e1 e2 email otp (Second # rs) (p1, p2, d) =
     (case authorize_email_otp_step e2 email otp (p2, d) of
        (p2', d') \<Rightarrow> interleave e1 e2 email otp rs (p1, p2', d'))"

text \<open>A request has succeeded when it has returned a user.\<close>

definition succeeded :: "authorize_position \<Rightarrow> bool" where
  "succeeded pos = (case pos of Returned (Some user) \<Rightarrow> True | _ \<Rightarrow> False)"

text \<open>
  The code is spent when no unverified row of the store holds it. The invariant of the
  interleaving once the first request is past its update: the first request has failed, or
  the code is spent and the second request has not got past its lookup with a row.
\<close>

definition code_spent :: "string \<Rightarrow> string \<Rightarrow> db \<Rightarrow> bool" where
  "code_spent email otp d =
     (\<forall>r \<in> set (otpVerifications d).
        \<not> (otp_email r = Some email \<and> otp_code r = otp \<and> otp_kind r = EMAIL
           \<and> \<not> otp_verified r))"

definition one_winner ::
  "string \<Rightarrow> string \<Rightarrow> authorize_position \<times> authorize_position \<times> db \<Rightarrow> bool" where
  "one_winner email otp s =
     (case s of (p1, p2, d) \<Rightarrow>
        p1 = Returned None
      \<or> (code_spent email otp d \<and> (p2 = Before_findFirst \<or> p2 = Returned None)))"

section \<open>Issuing a code\<close>

text \<open>
  \<^verbatim>\<open>sendEmailOTP(email)\<close> and \<^verbatim>\<open>sendSMSOTP(phone)\<close> return \<^verbatim>\<open>true\<close>, or \<^verbatim>\<open>false\<close>
  from their \<^verbatim>\<open>catch\<close> when a call throws. The row is created with the schema's default
  \<open>verified = false\<close>. The email is not sent (that code is commented out); the SMS is sent
  through Twilio after the row has been created. \<^verbatim>\<open>Date.now() + 10 * 60 * 1000\<close> is exact:
  times are whole numbers of milliseconds far below $2^{53}$.
\<close>

definition twilioClient_messages_create :: "env \<Rightarrow> string \<Rightarrow> string \<Rightarrow> error + unit" where
  "twilioClient_messages_create e body to =
     (if faults e Twilio_messages_create then Inl (Thrown Twilio_messages_create) else Inr ())"

definition sendEmailOTP :: "env \<Rightarrow> string \<Rightarrow> db \<Rightarrow> bool \<times> db" where
  "sendEmailOTP e email d =
     (let code = toString (Math_floor
                   (js_plus (js_number 100000) (js_times (math_random e) (js_number 900000))));
          expiresAt = clock e 0 + 10 * 60 * 1000
      in case oTPVerification_create e
                \<lparr>otp_email = Some email, otp_phone = None, otp_code = code, otp_kind = EMAIL,
                 otp_expiresAt = expiresAt, otp_verified = False\<rparr> d of
           Inl err \<Rightarrow> (False, d)
         | Inr d' \<Rightarrow> (True, d'))"

definition sendSMSOTP :: "env \<Rightarrow> string \<Rightarrow> db \<Rightarrow> bool \<times> db" where
  "sendSMSOTP e phone d =
     (let code = toString (Math_floor
                   (js_plus (js_number 100000) (js_times (math_random e) (js_number 900000))));
          expiresAt = clock e 0 + 10 * 60 * 1000
      in case oTPVerification_create e
                \<lparr>otp_email = None, otp_phone = Some phone, otp_code = code, otp_kind = SMS,
                 otp_expiresAt = expiresAt, otp_verified = False\<rparr> d of
           Inl err \<Rightarrow> (False, d)
         | Inr d' \<Rightarrow>
             (case twilioClient_messages_create e
                     (''Your Hospity.AI verification code is: '' @ code
                        @ ''. This code will expire in 10 minutes.'') phone of
                Inl err \<Rightarrow> (False, d')
              | Inr u \<Rightarrow> (True, d')))"

section \<open>The device limit\<close>

text \<open>
  The device-limit invariant: every user of the store has at most as many active device
  sessions as the limit the callback computes for that user.
\<close>

definition device_limit_holds :: "db \<Rightarrow> bool" where
  "device_limit_holds d =
     (\<forall>v \<in> set (users d).
        activeDevices d (user_id v) \<le> maxDevices_or_1 (include_tenant_plan d v))"

section \<open>Example stores and calls\<close>

definition issued :: time where
  "issued = 1700000000000"

definition env_at :: "time \<Rightarrow> env" where
  "env_at t = \<lparr>faults = no_faults, clock = (\<lambda>k. t + int k),
               randomBytes_hex = ''00112233445566778899aabbccddeeff'',
               math_random = 2 ^ 1073, cuid = ''u9''\<rparr>"

definition env0 :: env where
  "env0 = env_at issued"

definition env_failing :: "db_op \<Rightarrow> env" where
  "env_failing op = env0\<lparr>faults := (\<lambda>x. x = op)\<rparr>"

definition google :: account where
  "google = \<lparr>provider = ''google''\<rparr>"

definition email_otp_account :: account where
  "email_otp_account = \<lparr>provider = ''email-otp''\<rparr>"

definition owner :: user_row where
  "owner = \<lparr>user_id = ''u1'', user_email = Some ''owner@example.com'', user_name = None,
             user_image = None, user_role = ''OWNER'', user_tenantId = Some ''t1'',
             user_phone = None, user_emailVerified = None, user_phoneVerified = None\<rparr>"

definition guest :: user_row where
  "guest = \<lparr>user_id = ''u2'', user_email = Some ''guest@example.com'', user_name = None,
             user_image = None, user_role = ''CUSTOMER'', user_tenantId = None,
             user_phone = None, user_emailVerified = None, user_phoneVerified = None\<rparr>"

definition trial_owner :: user_row where
  "trial_owner = \<lparr>user_id = ''u3'', user_email = Some ''trial@example.com'', user_name = None,
             user_image = None, user_role = ''OWNER'', user_tenantId = Some ''t3'',
             user_phone = None, user_emailVerified = None, user_phoneVerified = None\<rparr>"

definition free_owner :: user_row where
  "free_owner = \<lparr>user_id = ''u4'', user_email = Some ''free@example.com'', user_name = None,
             user_image = None, user_role = ''OWNER'', user_tenantId = Some ''t4'',
             user_phone = None, user_emailVerified = None, user_phoneVerified = None\<rparr>"

definition web_session :: "string \<Rightarrow> string \<Rightarrow> bool \<Rightarrow> time \<Rightarrow> device_session" where
  "web_session uid fp act seen =
     \<lparr>ds_userId = uid, ds_fingerprint = fp, ds_deviceType = ''WEB'', ds_userAgent = ''Unknown'',
      ds_ipAddress = ''0.0.0.0'', ds_active = act, ds_lastSeen = seen\<rparr>"

definition web_pending :: "string \<Rightarrow> string \<Rightarrow> pending_device_session" where
  "web_pending uid fp =
     \<lparr>pds_userId = uid, pds_fingerprint = fp, pds_deviceType = ''WEB'',
      pds_userAgent = ''Unknown'', pds_ipAddress = ''0.0.0.0''\<rparr>"

definition empty_db :: db where
  "empty_db = \<lparr>users = [], tenants = Map.empty, plans = Map.empty, otpVerifications = [],
               deviceSessions = [], pendingDeviceSessions = [], auditLogs = []\<rparr>"

text \<open>A tenant on a plan with \<open>maxDevices = 3\<close> whose owner has two, then three, active sessions.\<close>

definition db_two_of_three :: db where
  "db_two_of_three =
     empty_db\<lparr>users := [owner],
              tenants := [''t1'' \<mapsto> \<lparr>tenant_planId = Some ''p3''\<rparr>],
              plans := [''p3'' \<mapsto> \<lparr>maxDevices = 3\<rparr>],
              deviceSessions := [web_session ''u1'' ''aa'' True 5, web_session ''u1'' ''bb'' True 6]\<rparr>"

definition db_three_of_three :: db where
  "db_three_of_three = db_two_of_three\<lparr>deviceSessions :=
      [web_session ''u1'' ''aa'' True 5, web_session ''u1'' ''bb'' True 6,
       web_session ''u1'' ''cc'' True 7]\<rparr>"

text \<open>
  A user with no tenant, a user whose tenant has no plan (one active session), and a user
  whose plan has \<open>maxDevices = 0\<close>.
\<close>

definition db_defaults :: db where
  "db_defaults =
     empty_db\<lparr>users := [guest, trial_owner, free_owner],
              tenants := [''t3'' \<mapsto> \<lparr>tenant_planId = None\<rparr>,
                          ''t4'' \<mapsto> \<lparr>tenant_planId = Some ''p0''\<rparr>],
              plans := [''p0'' \<mapsto> \<lparr>maxDevices = 0\<rparr>],
              deviceSessions := [web_session ''u3'' ''dd'' True 8]\<rparr>"

definition db_two_users :: db where
  "db_two_users = db_two_of_three\<lparr>users := [owner, guest], deviceSessions :=
      [web_session ''u1'' ''aa'' True 5, web_session ''u2'' ''ee'' True 6,
       web_session ''u1'' ''bb'' False 3, web_session ''u1'' ''cc'' True 7]\<rparr>"

definition owner_token :: jwt_token where
  "owner_token = \<lparr>token_sub = Some ''u1'', token_tenantId = Some ''t1''\<rparr>"

definition sms_otp :: "string \<Rightarrow> string \<Rightarrow> time \<Rightarrow> bool \<Rightarrow> otp_row" where
  "sms_otp phone c expires v =
     \<lparr>otp_email = None, otp_phone = Some phone, otp_code = c, otp_kind = SMS,
      otp_expiresAt = expires, otp_verified = v\<rparr>"

definition email_otp :: "string \<Rightarrow> string \<Rightarrow> time \<Rightarrow> bool \<Rightarrow> otp_row" where
  "email_otp email c expires v =
     \<lparr>otp_email = Some email, otp_phone = None, otp_code = c, otp_kind = EMAIL,
      otp_expiresAt = expires, otp_verified = v\<rparr>"

text \<open>One code issued for a phone and one for an email address, both valid for ten minutes.\<close>

definition db_issued :: db where
  "db_issued = empty_db\<lparr>otpVerifications :=
      [sms_otp ''+15551234567'' ''482913'' (issued + 600000) False,
       email_otp ''guest@example.com'' ''731905'' (issued + 600000) False]\<rparr>"

text \<open>The same code issued twice for one phone, thirty seconds apart.\<close>

definition db_same_code_twice :: db where
  "db_same_code_twice = empty_db\<lparr>otpVerifications :=
      [sms_otp ''+15551234567'' ''482913'' (issued + 600000) False,
       sms_otp ''+15551234567'' ''482913'' (issued + 630000) False]\<rparr>"

text \<open>The same code issued twice for one email address, thirty seconds apart.\<close>

definition db_same_email_code_twice :: db where
  "db_same_email_code_twice = empty_db\<lparr>otpVerifications :=
      [email_otp ''guest@example.com'' ''731905'' (issued + 600000) False,
       email_otp ''guest@example.com'' ''731905'' (issued + 630000) False]\<rparr>"

text \<open>The codes of \<open>db_issued\<close> when the guest already has an account.\<close>

definition db_issued_known_guest :: db where
  "db_issued_known_guest = db_issued\<lparr>users := [guest]\<rparr>"

definition phone_login :: "phone_credentials option" where
  "phone_login = Some \<lparr>cred_phone = Some ''+15551234567'', cred_phone_otp = Some ''482913''\<rparr>"

definition email_login :: "email_credentials option" where
  "email_login = Some \<lparr>cred_email = Some ''guest@example.com'', cred_otp = Some ''731905''\<rparr>"

definition phone_customer :: user_row where
  "phone_customer =
     \<lparr>user_id = ''u9'', user_email = None, user_name = None, user_image = None,
      user_role = ''CUSTOMER'', user_tenantId = None, user_phone = Some ''+15551234567'',
      user_emailVerified = None, user_phoneVerified = Some (issued + 120001)\<rparr>"

definition email_customer :: user_row where
  "email_customer =
     \<lparr>user_id = ''u9'', user_email = Some ''guest@example.com'', user_name = None,
      user_image = None, user_role = ''CUSTOMER'', user_tenantId = None, user_phone = None,
      user_emailVerified = Some (issued + 120001), user_phoneVerified = None\<rparr>"

section \<open>Lists and rows\<close>

lemma first_index_None_iff: "first_index P xs = None \<longleftrightarrow> (\<forall>x \<in> set xs. \<not> P x)"
  by (induction xs) auto

lemma first_index_Some:
  "first_index P xs = Some i \<Longrightarrow> i < length xs \<and> P (xs ! i)"
  by (induction xs arbitrary: i) (auto split: if_splits)

lemma find_Some_mem: "find P xs = Some x \<Longrightarrow> x \<in> set xs \<and> P x"
  by (induction xs) (auto split: if_splits)

lemma find_append_Some: "find P xs = None \<Longrightarrow> P y \<Longrightarrow> find P (xs @ [y]) = Some y"
  by (induction xs) (auto split: if_splits)

lemma distinct_map_eq:
  "distinct (map f xs) \<Longrightarrow> x \<in> set xs \<Longrightarrow> y \<in> set xs \<Longrightarrow> f x = f y \<Longrightarrow> x = y"
  by (meson distinct_map inj_onD)

lemma filter_le1_unique:
  "length (filter Q xs) \<le> 1 \<Longrightarrow> i < length xs \<Longrightarrow> j < length xs \<Longrightarrow> Q (xs ! i) \<Longrightarrow> Q (xs ! j)
   \<Longrightarrow> i = j"
proof (induction xs arbitrary: i j)
  case Nil
  then show ?case by simp
next
  case (Cons x xs)
  show ?case
  proof (cases "Q x")
    case True
    with Cons.prems(1) have "filter Q xs = []" by simp
    then have none: "\<And>k. k < length xs \<Longrightarrow> \<not> Q (xs ! k)"
      by (simp add: filter_empty_conv)
    from Cons.prems none show ?thesis
      by (cases i; cases j) auto
  next
    case False
    with Cons.prems have "length (filter Q xs) \<le> 1" by simp
    with Cons.IH Cons.prems False show ?thesis
      by (cases i; cases j) auto
  qed
qed

text \<open>
  When at most one row passes \<open>Q\<close> and that row is replaced by one that fails the filter
  \<open>F\<close> (which is stronger than \<open>Q\<close>), no row of the table passes \<open>F\<close>.
\<close>

lemma marked_none_left:
  assumes one: "length (filter Q xs) \<le> 1"
    and i: "i < length xs" "Q (xs ! i)"
    and F: "\<And>r. F r \<Longrightarrow> Q r" "\<not> F m"
  shows "first_index F (xs[i := m]) = None"
proof -
  have "\<not> F ((xs[i := m]) ! j)" if "j < length xs" for j
  proof (cases "j = i")
    case True
    with i F show ?thesis by simp
  next
    case False
    with filter_le1_unique [OF one i(1) that i(2)] F(1) show ?thesis
      by auto
  qed
  then show ?thesis
    by (auto simp: first_index_None_iff in_set_conv_nth)
qed

lemmas example_defs = issued_def env_at_def env0_def env_failing_def google_def
  email_otp_account_def owner_def guest_def trial_owner_def free_owner_def web_session_def
  web_pending_def empty_db_def db_two_of_three_def db_three_of_three_def db_defaults_def
  db_two_users_def owner_token_def sms_otp_def email_otp_def db_issued_def
  db_same_code_twice_def db_same_email_code_twice_def db_issued_known_guest_def phone_login_def email_login_def phone_customer_def
  email_customer_def no_faults_def

section \<open>The admission gate of the sign-in callback\<close>

lemmas signIn_defs = signIn_def user_findUnique_email_def deviceSession_count_def
  deviceSession_create_def pendingDeviceSession_create_def include_tenant_plan_def
  maxDevices_or_1_def activeDevices_def Let_def

lemma uwt_user_include: "uwt_user (include_tenant_plan d u) = u"
  by (simp add: include_tenant_plan_def)

text \<open>
  What the callback does once it has found the user of a Google sign-in and counted the
  user's active sessions.
\<close>

lemma signIn_gate:
  assumes "map_option provider acc = Some ''google''"
    and "user_findUnique_email e (su_email user) d = Inr (Some u)"
    and "\<not> faults e DeviceSession_count"
  shows "activeDevices d (user_id u) < maxDevices_or_1 (include_tenant_plan d u)
         \<Longrightarrow> \<not> faults e DeviceSession_create
         \<Longrightarrow> signIn e user acc d =
               (Allow, d\<lparr>deviceSessions := deviceSessions d @
                  [\<lparr>ds_userId = user_id u, ds_fingerprint = randomBytes_hex e,
                    ds_deviceType = ''WEB'', ds_userAgent = ''Unknown'',
                    ds_ipAddress = ''0.0.0.0'', ds_active = True, ds_lastSeen = clock e 0\<rparr>]\<rparr>)"
    and "\<not> activeDevices d (user_id u) < maxDevices_or_1 (include_tenant_plan d u)
         \<Longrightarrow> \<not> faults e PendingDeviceSession_create
         \<Longrightarrow> signIn e user acc d =
               (Redirect ''/auth/device-limit-exceeded'',
                d\<lparr>pendingDeviceSessions := pendingDeviceSessions d @
                  [\<lparr>pds_userId = user_id u, pds_fingerprint = randomBytes_hex e,
                    pds_deviceType = ''WEB'', pds_userAgent = ''Unknown'',
                    pds_ipAddress = ''0.0.0.0''\<rparr>]\<rparr>)"
  using assms
  by (auto simp: signIn_def user_findUnique_email_def deviceSession_count_def
      deviceSession_create_def pendingDeviceSession_create_def activeDevices_def
      uwt_user_include Let_def split: option.splits if_splits)

text \<open>The callback appends at most one device session, and only below the limit.\<close>

lemma signIn_deviceSessions:
  "deviceSessions (snd (signIn e user acc d)) = deviceSessions d
   \<or> (\<exists>em u. find (\<lambda>v. user_email v = Some em) (users d) = Some u
        \<and> \<not> maxDevices_or_1 (include_tenant_plan d u) \<le> activeDevices d (user_id u)
        \<and> deviceSessions (snd (signIn e user acc d)) = deviceSessions d @
              [\<lparr>ds_userId = user_id u, ds_fingerprint = randomBytes_hex e,
                ds_deviceType = ''WEB'', ds_userAgent = ''Unknown'',
                ds_ipAddress = ''0.0.0.0'', ds_active = True, ds_lastSeen = clock e 0\<rparr>])"
  by (auto simp: signIn_def user_findUnique_email_def deviceSession_count_def
      deviceSession_create_def pendingDeviceSession_create_def activeDevices_def
      uwt_user_include Let_def split: option.splits sum.splits)

lemma signIn_frame:
  "users (snd (signIn e user acc d)) = users d"
  "tenants (snd (signIn e user acc d)) = tenants d"
  "plans (snd (signIn e user acc d)) = plans d"
  by (auto simp: signIn_def user_findUnique_email_def deviceSession_count_def
      deviceSession_create_def pendingDeviceSession_create_def
      Let_def split: option.splits sum.splits)

lemma include_tenant_plan_cong:
  "tenants d' = tenants d \<Longrightarrow> plans d' = plans d
   \<Longrightarrow> include_tenant_plan d' v = include_tenant_plan d v"
  by (simp add: include_tenant_plan_def split: option.splits)

lemma signIn_preserves_device_limit:
  assumes dist: "distinct (map user_id (users d))" and inv: "device_limit_holds d"
  shows "device_limit_holds (snd (signIn e user acc d))"
proof -
  let ?d' = "snd (signIn e user acc d)"
  have lim: "include_tenant_plan ?d' v = include_tenant_plan d v" for v
    by (rule include_tenant_plan_cong) (simp_all add: signIn_frame)
  from signIn_deviceSessions [of e user acc d]
  show ?thesis
  proof
    assume "deviceSessions ?d' = deviceSessions d"
    then have "activeDevices ?d' uid = activeDevices d uid" for uid
      by (simp add: activeDevices_def)
    with inv show ?thesis
      by (simp add: device_limit_holds_def lim signIn_frame)
  next
    assume "\<exists>em u. find (\<lambda>v. user_email v = Some em) (users d) = Some u
        \<and> \<not> maxDevices_or_1 (include_tenant_plan d u) \<le> activeDevices d (user_id u)
        \<and> deviceSessions ?d' = deviceSessions d @
              [\<lparr>ds_userId = user_id u, ds_fingerprint = randomBytes_hex e,
                ds_deviceType = ''WEB'', ds_userAgent = ''Unknown'',
                ds_ipAddress = ''0.0.0.0'', ds_active = True, ds_lastSeen = clock e 0\<rparr>]"
    then obtain em u where f: "find (\<lambda>v. user_email v = Some em) (users d) = Some u"
      and lt: "activeDevices d (user_id u) < maxDevices_or_1 (include_tenant_plan d u)"
      and ds: "deviceSessions ?d' = deviceSessions d @
              [\<lparr>ds_userId = user_id u, ds_fingerprint = randomBytes_hex e,
                ds_deviceType = ''WEB'', ds_userAgent = ''Unknown'',
                ds_ipAddress = ''0.0.0.0'', ds_active = True, ds_lastSeen = clock e 0\<rparr>]"
      by force
    from f have u: "u \<in> set (users d)" by (simp add: find_Some_mem)
    have cnt: "activeDevices ?d' uid = activeDevices d uid + (if uid = user_id u then 1 else 0)"
      for uid
      by (auto simp: activeDevices_def ds)
    show ?thesis
      unfolding device_limit_holds_def
    proof
      fix v assume "v \<in> set (users ?d')"
      then have v: "v \<in> set (users d)" by (simp add: signIn_frame)
      show "activeDevices ?d' (user_id v) \<le> maxDevices_or_1 (include_tenant_plan ?d' v)"
      proof (cases "user_id v = user_id u")
        case True
        with dist u v have "v = u" by (rule_tac distinct_map_eq)
        with lt show ?thesis by (simp add: cnt lim)
      next
        case False
        with inv v show ?thesis by (simp add: cnt lim device_limit_holds_def)
      qed
    qed
  qed
qed

text \<open>
  Claim C1. One execution of the admission step of the sign-in callback (a Google sign-in
  whose user the lookup finds, the data layer answering): when the user has fewer active
  device sessions than the limit \<open>maxDevices\<close>, the callback appends one active device
  session and returns \<^verbatim>\<open>true\<close>; otherwise it appends no device session, appends a pending
  device session and returns the limit-exceeded redirect. Whatever the callback is called
  with and whichever calls fail, it keeps the device-limit invariant of a store whose user
  keys are distinct.
\<close>

theorem signIn_admission_preserves_device_limit:
  "(map_option provider acc = Some ''google''
      \<and> user_findUnique_email e (su_email user) d = Inr (Some u)
      \<and> \<not> faults e DeviceSession_count \<and> \<not> faults e DeviceSession_create
      \<and> activeDevices d (user_id u) < maxDevices_or_1 (include_tenant_plan d u)
    \<longrightarrow> signIn e user acc d =
          (Allow, d\<lparr>deviceSessions := deviceSessions d @
              [\<lparr>ds_userId = user_id u, ds_fingerprint = randomBytes_hex e,
                ds_deviceType = ''WEB'', ds_userAgent = ''Unknown'',
                ds_ipAddress = ''0.0.0.0'', ds_active = True, ds_lastSeen = clock e 0\<rparr>]\<rparr>))
 \<and> (map_option provider acc = Some ''google''
      \<and> user_findUnique_email e (su_email user) d = Inr (Some u)
      \<and> \<not> faults e DeviceSession_count \<and> \<not> faults e PendingDeviceSession_create
      \<and> \<not> activeDevices d (user_id u) < maxDevices_or_1 (include_tenant_plan d u)
    \<longrightarrow> signIn e user acc d =
          (Redirect ''/auth/device-limit-exceeded'',
           d\<lparr>pendingDeviceSessions := pendingDeviceSessions d @
              [\<lparr>pds_userId = user_id u, pds_fingerprint = randomBytes_hex e,
                pds_deviceType = ''WEB'', pds_userAgent = ''Unknown'',
                pds_ipAddress = ''0.0.0.0''\<rparr>]\<rparr>))
 \<and> (distinct (map user_id (users d)) \<and> device_limit_holds d
    \<longrightarrow> device_limit_holds (snd (signIn e user acc d)))"
  using signIn_gate [of acc e user d u] signIn_preserves_device_limit [of d e user acc]
  by blast

text \<open>
  The scenario of the specification: with \<open>maxDevices = 3\<close> and two active sessions the
  third sign-in is admitted, and the fourth is deferred with the count staying at three.
\<close>

theorem signIn_admission_preserves_device_limit_witness:
  "activeDevices db_two_of_three ''u1'' = 2
   \<and> maxDevices_or_1 (include_tenant_plan db_two_of_three owner) = 3
   \<and> device_limit_holds db_two_of_three
   \<and> signIn env0 \<lparr>su_email = Some ''owner@example.com''\<rparr> (Some google) db_two_of_three =
       (Allow, db_two_of_three\<lparr>deviceSessions := deviceSessions db_two_of_three @
          [web_session ''u1'' ''00112233445566778899aabbccddeeff'' True issued]\<rparr>)
   \<and> device_limit_holds
       (snd (signIn env0 \<lparr>su_email = Some ''owner@example.com''\<rparr> (Some google) db_two_of_three))
   \<and> activeDevices db_three_of_three ''u1'' = 3
   \<and> signIn env0 \<lparr>su_email = Some ''owner@example.com''\<rparr> (Some google) db_three_of_three =
       (Redirect ''/auth/device-limit-exceeded'',
        db_three_of_three\<lparr>pendingDeviceSessions := pendingDeviceSessions db_three_of_three @
          [web_pending ''u1'' ''00112233445566778899aabbccddeeff'']\<rparr>)"
proof -
  let ?u = "\<lparr>su_email = Some ''owner@example.com''\<rparr>"
  have g: "map_option provider (Some google) = Some ''google''"
    by (simp add: google_def)
  have l2: "user_findUnique_email env0 (su_email ?u) db_two_of_three = Inr (Some owner)"
    and l3: "user_findUnique_email env0 (su_email ?u) db_three_of_three = Inr (Some owner)"
    by (simp_all add: user_findUnique_email_def example_defs)
  have c2: "activeDevices db_two_of_three ''u1'' = 2"
    and c3: "activeDevices db_three_of_three ''u1'' = 3"
    by (simp_all add: activeDevices_def example_defs)
  have m2: "maxDevices_or_1 (include_tenant_plan db_two_of_three owner) = 3"
    and m3: "maxDevices_or_1 (include_tenant_plan db_three_of_three owner) = 3"
    by (simp_all add: maxDevices_or_1_def include_tenant_plan_def example_defs)
  have dist: "distinct (map user_id (users db_two_of_three))"
    by (simp add: example_defs)
  have us: "users db_two_of_three = [owner]"
    by (simp add: db_two_of_three_def empty_db_def)
  have uid: "user_id owner = ''u1''"
    by (simp add: owner_def)
  have inv: "device_limit_holds db_two_of_three"
    by (simp add: device_limit_holds_def us uid c2 m2)
  have f: "\<not> faults env0 DeviceSession_count" "\<not> faults env0 DeviceSession_create"
    "\<not> faults env0 PendingDeviceSession_create"
    by (simp_all add: example_defs)
  have rb: "randomBytes_hex env0 = ''00112233445566778899aabbccddeeff''"
    and ck: "clock env0 0 = issued"
    by (simp_all add: env0_def env_at_def)
  note i2 = signIn_admission_preserves_device_limit [of "Some google" env0 ?u db_two_of_three owner]
  note i3 = signIn_admission_preserves_device_limit [of "Some google" env0 ?u db_three_of_three owner]
  have r1: "signIn env0 ?u (Some google) db_two_of_three =
       (Allow, db_two_of_three\<lparr>deviceSessions := deviceSessions db_two_of_three @
          [web_session ''u1'' ''00112233445566778899aabbccddeeff'' True issued]\<rparr>)"
    using i2 g l2 c2 m2 f by (simp add: uid rb ck web_session_def)
  have r2: "device_limit_holds (snd (signIn env0 ?u (Some google) db_two_of_three))"
    using i2 dist inv by blast
  have r3: "signIn env0 ?u (Some google) db_three_of_three =
       (Redirect ''/auth/device-limit-exceeded'',
        db_three_of_three\<lparr>pendingDeviceSessions := pendingDeviceSessions db_three_of_three @
          [web_pending ''u1'' ''00112233445566778899aabbccddeeff'']\<rparr>)"
    using i3 g l3 c3 m3 f by (simp add: uid rb web_pending_def)
  show ?thesis
    using c2 m2 inv r1 r2 c3 r3 by (intro conjI)
qed

text \<open>
  Claim C2 (as amended). The callback runs the admission gate only for a sign-in through the
  provider \<^verbatim>\<open>google\<close> whose email the user lookup finds: there it counts the user's active
  device sessions and admits or defers. For every other provider (email OTP and phone OTP
  among them, and a call with no account), and for a Google sign-in whose email no user has,
  it returns \<^verbatim>\<open>true\<close> and leaves the store as it is: no session is counted, created or
  queued.
\<close>

theorem signIn_gate_only_for_known_google_user:
  "(map_option provider acc \<noteq> Some ''google'' \<longrightarrow> signIn e user acc d = (Allow, d))
 \<and> (map_option provider acc = Some ''google''
      \<and> user_findUnique_email e (su_email user) d = Inr None
    \<longrightarrow> signIn e user acc d = (Allow, d))
 \<and> (map_option provider acc = Some ''google''
      \<and> user_findUnique_email e (su_email user) d = Inr (Some u)
      \<and> \<not> faults e DeviceSession_count \<and> \<not> faults e DeviceSession_create
      \<and> \<not> faults e PendingDeviceSession_create
    \<longrightarrow> signIn e user acc d =
          (if activeDevices d (user_id u) < maxDevices_or_1 (include_tenant_plan d u)
           then (Allow, d\<lparr>deviceSessions := deviceSessions d @
                  [\<lparr>ds_userId = user_id u, ds_fingerprint = randomBytes_hex e,
                    ds_deviceType = ''WEB'', ds_userAgent = ''Unknown'',
                    ds_ipAddress = ''0.0.0.0'', ds_active = True, ds_lastSeen = clock e 0\<rparr>]\<rparr>)
           else (Redirect ''/auth/device-limit-exceeded'',
                 d\<lparr>pendingDeviceSessions := pendingDeviceSessions d @
                  [\<lparr>pds_userId = user_id u, pds_fingerprint = randomBytes_hex e,
                    pds_deviceType = ''WEB'', pds_userAgent = ''Unknown'',
                    pds_ipAddress = ''0.0.0.0''\<rparr>]\<rparr>)))"
proof (intro conjI impI)
  assume "map_option provider acc \<noteq> Some ''google''"
  then show "signIn e user acc d = (Allow, d)"
    by (auto simp: signIn_def split: option.splits)
next
  assume "map_option provider acc = Some ''google''
      \<and> user_findUnique_email e (su_email user) d = Inr None"
  then show "signIn e user acc d = (Allow, d)"
    by (auto simp: signIn_def split: option.splits)
next
  assume "map_option provider acc = Some ''google''
      \<and> user_findUnique_email e (su_email user) d = Inr (Some u)
      \<and> \<not> faults e DeviceSession_count \<and> \<not> faults e DeviceSession_create
      \<and> \<not> faults e PendingDeviceSession_create"
  then show "signIn e user acc d =
          (if activeDevices d (user_id u) < maxDevices_or_1 (include_tenant_plan d u)
           then (Allow, d\<lparr>deviceSessions := deviceSessions d @
                  [\<lparr>ds_userId = user_id u, ds_fingerprint = randomBytes_hex e,
                    ds_deviceType = ''WEB'', ds_userAgent = ''Unknown'',
                    ds_ipAddress = ''0.0.0.0'', ds_active = True, ds_lastSeen = clock e 0\<rparr>]\<rparr>)
           else (Redirect ''/auth/device-limit-exceeded'',
                 d\<lparr>pendingDeviceSessions := pendingDeviceSessions d @
                  [\<lparr>pds_userId = user_id u, pds_fingerprint = randomBytes_hex e,
                    pds_deviceType = ''WEB'', pds_userAgent = ''Unknown'',
                    pds_ipAddress = ''0.0.0.0''\<rparr>]\<rparr>))"
    using signIn_gate [of acc e user d u] by simp
qed

text \<open>
  Claim C2 as stated fails: the owner already has three active sessions on a plan with
  \<open>maxDevices = 3\<close>. Signing in with an email or phone code, the callback returns
  \<^verbatim>\<open>true\<close> and changes nothing; the same sign-in through Google is deferred.
\<close>

theorem signIn_otp_provider_skips_gate_counterexample:
  "activeDevices db_three_of_three ''u1'' = 3
   \<and> maxDevices_or_1 (include_tenant_plan db_three_of_three owner) = 3
   \<and> user_findUnique_email env0 (Some ''owner@example.com'') db_three_of_three = Inr (Some owner)
   \<and> signIn env0 \<lparr>su_email = Some ''owner@example.com''\<rparr> (Some email_otp_account) db_three_of_three
       = (Allow, db_three_of_three)
   \<and> signIn env0 \<lparr>su_email = Some ''owner@example.com''\<rparr> (Some \<lparr>provider = ''phone-otp''\<rparr>)
        db_three_of_three
       = (Allow, db_three_of_three)
   \<and> signIn env0 \<lparr>su_email = Some ''owner@example.com''\<rparr> (Some google) db_three_of_three
       = (Redirect ''/auth/device-limit-exceeded'',
          db_three_of_three\<lparr>pendingDeviceSessions :=
            [web_pending ''u1'' ''00112233445566778899aabbccddeeff'']\<rparr>)"
  by (simp add: signIn_defs example_defs)

theorem signIn_gate_only_for_known_google_user_witness:
  "signIn env0 \<lparr>su_email = Some ''owner@example.com''\<rparr> (Some email_otp_account) db_three_of_three
       = (Allow, db_three_of_three)
   \<and> signIn env0 \<lparr>su_email = Some ''owner@example.com''\<rparr> None db_three_of_three
       = (Allow, db_three_of_three)
   \<and> signIn env0 \<lparr>su_email = Some ''new@example.com''\<rparr> (Some google) db_three_of_three
       = (Allow, db_three_of_three)
   \<and> signIn env0 \<lparr>su_email = Some ''owner@example.com''\<rparr> (Some google) db_three_of_three
       = (Redirect ''/auth/device-limit-exceeded'',
          db_three_of_three\<lparr>pendingDeviceSessions := pendingDeviceSessions db_three_of_three @
            [web_pending ''u1'' ''00112233445566778899aabbccddeeff'']\<rparr>)"
proof -
  let ?u = "\<lparr>su_email = Some ''owner@example.com''\<rparr>"
  let ?n = "\<lparr>su_email = Some ''new@example.com''\<rparr>"
  have g: "map_option provider (Some google) = Some ''google''"
    and o: "map_option provider (Some email_otp_account) \<noteq> Some ''google''"
    and a: "map_option provider None \<noteq> Some ''google''"
    by (simp_all add: google_def email_otp_account_def)
  have l: "user_findUnique_email env0 (su_email ?u) db_three_of_three = Inr (Some owner)"
    and k: "user_findUnique_email env0 (su_email ?n) db_three_of_three = Inr None"
    by (simp_all add: user_findUnique_email_def example_defs)
  have f: "\<not> faults env0 DeviceSession_count \<and> \<not> faults env0 DeviceSession_create
           \<and> \<not> faults env0 PendingDeviceSession_create"
    by (simp add: example_defs)
  have c: "\<not> activeDevices db_three_of_three (user_id owner)
              < maxDevices_or_1 (include_tenant_plan db_three_of_three owner)"
    by (simp add: activeDevices_def maxDevices_or_1_def include_tenant_plan_def example_defs)
  have v: "user_id owner = ''u1''" "randomBytes_hex env0 = ''00112233445566778899aabbccddeeff''"
    by (simp_all add: owner_def env0_def env_at_def)
  from signIn_gate_only_for_known_google_user
         [of "Some email_otp_account" env0 ?u db_three_of_three owner] o
  have r1: "signIn env0 ?u (Some email_otp_account) db_three_of_three = (Allow, db_three_of_three)"
    by blast
  from signIn_gate_only_for_known_google_user [of None env0 ?u db_three_of_three owner] a
  have r2: "signIn env0 ?u None db_three_of_three = (Allow, db_three_of_three)"
    by blast
  from signIn_gate_only_for_known_google_user [of "Some google" env0 ?n db_three_of_three owner] g k
  have r3: "signIn env0 ?n (Some google) db_three_of_three = (Allow, db_three_of_three)"
    by blast
  from signIn_gate_only_for_known_google_user [of "Some google" env0 ?u db_three_of_three owner] g l f c
  have r4: "signIn env0 ?u (Some google) db_three_of_three
       = (Redirect ''/auth/device-limit-exceeded'',
          db_three_of_three\<lparr>pendingDeviceSessions := pendingDeviceSessions db_three_of_three @
            [web_pending ''u1'' ''00112233445566778899aabbccddeeff'']\<rparr>)"
    by (simp add: v web_pending_def)
  show ?thesis
    using r1 r2 r3 r4 by (intro conjI)
qed

text \<open>
  Claim C7. In a Google sign-in, whichever data-layer call of the callback throws, the
  callback returns \<^verbatim>\<open>false\<close> (never \<^verbatim>\<open>true\<close>) and the store is unchanged: the user
  lookup, which also loads the tenant and its plan (or is refused for want of an email), the
  count of active sessions, the creation of the device session below the limit, and the
  creation of the pending session at the limit.
\<close>

theorem signIn_denies_on_data_layer_error:
  "map_option provider acc = Some ''google'' \<longrightarrow>
     (faults e User_findUnique \<longrightarrow> signIn e user acc d = (Deny, d))
   \<and> (su_email user = None \<longrightarrow> signIn e user acc d = (Deny, d))
   \<and> (user_findUnique_email e (su_email user) d = Inr (Some u) \<longrightarrow>
        (faults e DeviceSession_count \<longrightarrow> signIn e user acc d = (Deny, d))
      \<and> (\<not> faults e DeviceSession_count
           \<and> activeDevices d (user_id u) < maxDevices_or_1 (include_tenant_plan d u)
           \<and> faults e DeviceSession_create
         \<longrightarrow> signIn e user acc d = (Deny, d))
      \<and> (\<not> faults e DeviceSession_count
           \<and> \<not> activeDevices d (user_id u) < maxDevices_or_1 (include_tenant_plan d u)
           \<and> faults e PendingDeviceSession_create
         \<longrightarrow> signIn e user acc d = (Deny, d)))"
  by (auto simp: signIn_def user_findUnique_email_def deviceSession_count_def
      deviceSession_create_def pendingDeviceSession_create_def activeDevices_def
      uwt_user_include Let_def split: option.splits if_splits)

theorem signIn_denies_on_data_layer_error_witness:
  "signIn (env_failing User_findUnique) \<lparr>su_email = Some ''owner@example.com''\<rparr> (Some google)
      db_two_of_three = (Deny, db_two_of_three)
   \<and> signIn env0 \<lparr>su_email = None\<rparr> (Some google) db_two_of_three = (Deny, db_two_of_three)
   \<and> signIn (env_failing DeviceSession_count) \<lparr>su_email = Some ''owner@example.com''\<rparr> (Some google)
      db_two_of_three = (Deny, db_two_of_three)
   \<and> signIn (env_failing DeviceSession_create) \<lparr>su_email = Some ''owner@example.com''\<rparr> (Some google)
      db_two_of_three = (Deny, db_two_of_three)
   \<and> signIn (env_failing PendingDeviceSession_create) \<lparr>su_email = Some ''owner@example.com''\<rparr>
      (Some google) db_three_of_three = (Deny, db_three_of_three)"
proof -
  let ?u = "\<lparr>su_email = Some ''owner@example.com''\<rparr>"
  have g: "map_option provider (Some google) = Some ''google''"
    by (simp add: google_def)
  have f1: "faults (env_failing User_findUnique) User_findUnique"
    and f2: "faults (env_failing DeviceSession_count) DeviceSession_count"
    and f3: "\<not> faults (env_failing DeviceSession_create) DeviceSession_count
             \<and> faults (env_failing DeviceSession_create) DeviceSession_create"
    and f4: "\<not> faults (env_failing PendingDeviceSession_create) DeviceSession_count
             \<and> faults (env_failing PendingDeviceSession_create) PendingDeviceSession_create"
    by (simp_all add: env_failing_def)
  have n: "su_email \<lparr>su_email = None\<rparr> = None" by simp
  have l2: "user_findUnique_email (env_failing DeviceSession_count) (su_email ?u) db_two_of_three
              = Inr (Some owner)"
    and l3: "user_findUnique_email (env_failing DeviceSession_create) (su_email ?u) db_two_of_three
              = Inr (Some owner)"
    and l4: "user_findUnique_email (env_failing PendingDeviceSession_create) (su_email ?u)
               db_three_of_three
              = Inr (Some owner)"
    by (simp_all add: user_findUnique_email_def example_defs)
  have c2: "activeDevices db_two_of_three (user_id owner)
              < maxDevices_or_1 (include_tenant_plan db_two_of_three owner)"
    and c3: "\<not> activeDevices db_three_of_three (user_id owner)
              < maxDevices_or_1 (include_tenant_plan db_three_of_three owner)"
    by (simp_all add: activeDevices_def maxDevices_or_1_def include_tenant_plan_def example_defs)
  from signIn_denies_on_data_layer_error
         [of "Some google" "env_failing User_findUnique" ?u db_two_of_three owner] g f1
  have r1: "signIn (env_failing User_findUnique) ?u (Some google) db_two_of_three
              = (Deny, db_two_of_three)"
    by blast
  from signIn_denies_on_data_layer_error
         [of "Some google" env0 "\<lparr>su_email = None\<rparr>" db_two_of_three owner] g n
  have r2: "signIn env0 \<lparr>su_email = None\<rparr> (Some google) db_two_of_three = (Deny, db_two_of_three)"
    by blast
  from signIn_denies_on_data_layer_error
         [of "Some google" "env_failing DeviceSession_count" ?u db_two_of_three owner] g f2 l2
  have r3: "signIn (env_failing DeviceSession_count) ?u (Some google) db_two_of_three
              = (Deny, db_two_of_three)"
    by blast
  from signIn_denies_on_data_layer_error
         [of "Some google" "env_failing DeviceSession_create" ?u db_two_of_three owner] g f3 l3 c2
  have r4: "signIn (env_failing DeviceSession_create) ?u (Some google) db_two_of_three
              = (Deny, db_two_of_three)"
    by blast
  from signIn_denies_on_data_layer_error
         [of "Some google" "env_failing PendingDeviceSession_create" ?u db_three_of_three owner]
       g f4 l4 c3
  have r5: "signIn (env_failing PendingDeviceSession_create) ?u (Some google) db_three_of_three
              = (Deny, db_three_of_three)"
    by blast
  show ?thesis
    using r1 r2 r3 r4 r5 by (intro conjI)
qed

text \<open>
  Claim C10. A user with no tenant, a user whose tenant has no plan and a user whose plan has
  \<open>maxDevices = 0\<close> all get the device limit 1: with no active session the sign-in is
  admitted, with one or more it is deferred.
\<close>

theorem signIn_default_limit_is_one:
  "(uwt_tenant (include_tenant_plan d u) = None
    \<or> (\<exists>t. uwt_tenant (include_tenant_plan d u) = Some t \<and> twp_plan t = None)
    \<or> (\<exists>t p. uwt_tenant (include_tenant_plan d u) = Some t \<and> twp_plan t = Some p
              \<and> maxDevices p = 0))
   \<longrightarrow>
     maxDevices_or_1 (include_tenant_plan d u) = 1
   \<and> (map_option provider acc = Some ''google''
        \<and> user_findUnique_email e (su_email user) d = Inr (Some u)
        \<and> \<not> faults e DeviceSession_count \<and> \<not> faults e DeviceSession_create
        \<and> \<not> faults e PendingDeviceSession_create
      \<longrightarrow> (activeDevices d (user_id u) = 0
            \<longrightarrow> signIn e user acc d =
                  (Allow, d\<lparr>deviceSessions := deviceSessions d @
                     [\<lparr>ds_userId = user_id u, ds_fingerprint = randomBytes_hex e,
                       ds_deviceType = ''WEB'', ds_userAgent = ''Unknown'',
                       ds_ipAddress = ''0.0.0.0'', ds_active = True, ds_lastSeen = clock e 0\<rparr>]\<rparr>))
        \<and> (activeDevices d (user_id u) \<ge> 1
            \<longrightarrow> signIn e user acc d =
                  (Redirect ''/auth/device-limit-exceeded'',
                   d\<lparr>pendingDeviceSessions := pendingDeviceSessions d @
                     [\<lparr>pds_userId = user_id u, pds_fingerprint = randomBytes_hex e,
                       pds_deviceType = ''WEB'', pds_userAgent = ''Unknown'',
                       pds_ipAddress = ''0.0.0.0''\<rparr>]\<rparr>)))"
proof (intro impI)
  assume "uwt_tenant (include_tenant_plan d u) = None
    \<or> (\<exists>t. uwt_tenant (include_tenant_plan d u) = Some t \<and> twp_plan t = None)
    \<or> (\<exists>t p. uwt_tenant (include_tenant_plan d u) = Some t \<and> twp_plan t = Some p
              \<and> maxDevices p = 0)"
  then have one: "maxDevices_or_1 (include_tenant_plan d u) = 1"
    by (auto simp: maxDevices_or_1_def)
  show "maxDevices_or_1 (include_tenant_plan d u) = 1
   \<and> (map_option provider acc = Some ''google''
        \<and> user_findUnique_email e (su_email user) d = Inr (Some u)
        \<and> \<not> faults e DeviceSession_count \<and> \<not> faults e DeviceSession_create
        \<and> \<not> faults e PendingDeviceSession_create
      \<longrightarrow> (activeDevices d (user_id u) = 0
            \<longrightarrow> signIn e user acc d =
                  (Allow, d\<lparr>deviceSessions := deviceSessions d @
                     [\<lparr>ds_userId = user_id u, ds_fingerprint = randomBytes_hex e,
                       ds_deviceType = ''WEB'', ds_userAgent = ''Unknown'',
                       ds_ipAddress = ''0.0.0.0'', ds_active = True, ds_lastSeen = clock e 0\<rparr>]\<rparr>))
        \<and> (activeDevices d (user_id u) \<ge> 1
            \<longrightarrow> signIn e user acc d =
                  (Redirect ''/auth/device-limit-exceeded'',
                   d\<lparr>pendingDeviceSessions := pendingDeviceSessions d @
                     [\<lparr>pds_userId = user_id u, pds_fingerprint = randomBytes_hex e,
                       pds_deviceType = ''WEB'', pds_userAgent = ''Unknown'',
                       pds_ipAddress = ''0.0.0.0''\<rparr>]\<rparr>)))"
    using one signIn_gate [of acc e user d u]
    by auto
qed

text \<open>
  The three cases on one store: the guest has no tenant and no session (admitted), the trial
  owner's tenant has no plan and one session is active (deferred), the free owner's plan
  says \<open>maxDevices = 0\<close> and no session is active (admitted).
\<close>

theorem signIn_default_limit_is_one_witness:
  "maxDevices_or_1 (include_tenant_plan db_defaults guest) = 1
   \<and> maxDevices_or_1 (include_tenant_plan db_defaults trial_owner) = 1
   \<and> maxDevices_or_1 (include_tenant_plan db_defaults free_owner) = 1
   \<and> signIn env0 \<lparr>su_email = Some ''guest@example.com''\<rparr> (Some google) db_defaults =
       (Allow, db_defaults\<lparr>deviceSessions := deviceSessions db_defaults @
          [web_session ''u2'' ''00112233445566778899aabbccddeeff'' True issued]\<rparr>)
   \<and> signIn env0 \<lparr>su_email = Some ''trial@example.com''\<rparr> (Some google) db_defaults =
       (Redirect ''/auth/device-limit-exceeded'',
        db_defaults\<lparr>pendingDeviceSessions := pendingDeviceSessions db_defaults @
          [web_pending ''u3'' ''00112233445566778899aabbccddeeff'']\<rparr>)
   \<and> signIn env0 \<lparr>su_email = Some ''free@example.com''\<rparr> (Some google) db_defaults =
       (Allow, db_defaults\<lparr>deviceSessions := deviceSessions db_defaults @
          [web_session ''u4'' ''00112233445566778899aabbccddeeff'' True issued]\<rparr>)"
proof -
  let ?g = "\<lparr>su_email = Some ''guest@example.com''\<rparr>"
  let ?t = "\<lparr>su_email = Some ''trial@example.com''\<rparr>"
  let ?f = "\<lparr>su_email = Some ''free@example.com''\<rparr>"
  have g: "map_option provider (Some google) = Some ''google''"
    by (simp add: google_def)
  have f: "\<not> faults env0 DeviceSession_count \<and> \<not> faults env0 DeviceSession_create
           \<and> \<not> faults env0 PendingDeviceSession_create"
    by (simp add: example_defs)
  have lg: "user_findUnique_email env0 (su_email ?g) db_defaults = Inr (Some guest)"
    and lt: "user_findUnique_email env0 (su_email ?t) db_defaults = Inr (Some trial_owner)"
    and lf: "user_findUnique_email env0 (su_email ?f) db_defaults = Inr (Some free_owner)"
    by (simp_all add: user_findUnique_email_def example_defs)
  have hg: "uwt_tenant (include_tenant_plan db_defaults guest) = None"
    by (simp add: include_tenant_plan_def example_defs)
  have ht: "\<exists>t. uwt_tenant (include_tenant_plan db_defaults trial_owner) = Some t \<and> twp_plan t = None"
    by (simp add: include_tenant_plan_def example_defs)
  have hf: "\<exists>t p. uwt_tenant (include_tenant_plan db_defaults free_owner) = Some t
              \<and> twp_plan t = Some p \<and> maxDevices p = 0"
    by (simp add: include_tenant_plan_def example_defs)
  have cg: "activeDevices db_defaults (user_id guest) = 0"
    and ct: "activeDevices db_defaults (user_id trial_owner) \<ge> 1"
    and cf: "activeDevices db_defaults (user_id free_owner) = 0"
    by (simp_all add: activeDevices_def example_defs)
  have v: "user_id guest = ''u2''" "user_id trial_owner = ''u3''" "user_id free_owner = ''u4''"
    "randomBytes_hex env0 = ''00112233445566778899aabbccddeeff''" "clock env0 0 = issued"
    by (simp_all add: guest_def trial_owner_def free_owner_def env0_def env_at_def)
  note ig = signIn_default_limit_is_one [of db_defaults guest "Some google" env0 ?g]
  note it = signIn_default_limit_is_one [of db_defaults trial_owner "Some google" env0 ?t]
  note jf = signIn_default_limit_is_one [of db_defaults free_owner "Some google" env0 ?f]
  from ig hg have m1: "maxDevices_or_1 (include_tenant_plan db_defaults guest) = 1" by blast
  from it ht have m2: "maxDevices_or_1 (include_tenant_plan db_defaults trial_owner) = 1" by blast
  from jf hf have m3: "maxDevices_or_1 (include_tenant_plan db_defaults free_owner) = 1" by blast
  from ig hg g f lg cg have r1: "signIn env0 ?g (Some google) db_defaults =
       (Allow, db_defaults\<lparr>deviceSessions := deviceSessions db_defaults @
          [web_session ''u2'' ''00112233445566778899aabbccddeeff'' True issued]\<rparr>)"
    by (simp add: v web_session_def)
  from it ht g f lt ct have r2: "signIn env0 ?t (Some google) db_defaults =
       (Redirect ''/auth/device-limit-exceeded'',
        db_defaults\<lparr>pendingDeviceSessions := pendingDeviceSessions db_defaults @
          [web_pending ''u3'' ''00112233445566778899aabbccddeeff'']\<rparr>)"
    by (simp add: v web_pending_def)
  from jf hf g f lf cf have r3: "signIn env0 ?f (Some google) db_defaults =
       (Allow, db_defaults\<lparr>deviceSessions := deviceSessions db_defaults @
          [web_session ''u4'' ''00112233445566778899aabbccddeeff'' True issued]\<rparr>)"
    by (simp add: v web_session_def)
  show ?thesis
    using m1 m2 m3 r1 r2 r3 by (intro conjI)
qed

section \<open>One-time codes\<close>

lemmas authorize_defs = authorize_phone_otp_def authorize_email_otp_def
  oTPVerification_findFirst_def oTPVerification_update_verified_def
  user_findUnique_phone_def user_findUnique_email_def user_create_def
  phone_otp_filter_def email_otp_filter_def returned_user_def Let_def

text \<open>
  A call that returns a user has found a row passing the filter, has marked it verified, and
  leaves a store in which a user with the credential's email (or phone) exists.
\<close>

lemma authorize_email_otp_success:
  assumes "authorize_email_otp e c d = (Some au, d1)"
  obtains email otp i where
    "c = Some \<lparr>cred_email = Some email, cred_otp = Some otp\<rparr>" "email \<noteq> []" "otp \<noteq> []"
    "first_index (email_otp_filter email otp (clock e 0)) (otpVerifications d) = Some i"
    "otpVerifications d1 = (otpVerifications d)[i := (otpVerifications d ! i)\<lparr>otp_verified := True\<rparr>]"
    "\<exists>u. find (\<lambda>u. user_email u = Some email) (users d1) = Some u"
proof -
  from assms obtain cr where c: "c = Some cr"
    by (auto simp: authorize_email_otp_def split: option.splits)
  from assms c obtain email otp where eo: "cred_email cr = Some email" "cred_otp cr = Some otp"
    "email \<noteq> []" "otp \<noteq> []"
    by (auto simp: authorize_email_otp_def split: option.splits if_splits)
  then have cr: "cr = \<lparr>cred_email = Some email, cred_otp = Some otp\<rparr>" by (cases cr) simp
  from assms c eo obtain i where
    i: "first_index (email_otp_filter email otp (clock e 0)) (otpVerifications d) = Some i"
    by (auto simp: authorize_email_otp_def oTPVerification_findFirst_def split: option.splits if_splits sum.splits)
  from assms c eo i have
    "otpVerifications d1 = (otpVerifications d)[i := (otpVerifications d ! i)\<lparr>otp_verified := True\<rparr>]
     \<and> (\<exists>u. find (\<lambda>u. user_email u = Some email) (users d1) = Some u)"
    by (auto simp: authorize_email_otp_def oTPVerification_findFirst_def
        oTPVerification_update_verified_def user_findUnique_email_def user_create_def Let_def
        find_append_Some
        split: option.splits if_splits sum.splits)
  with that c cr eo i show ?thesis by blast
qed


lemma authorize_phone_otp_success:
  assumes "authorize_phone_otp e c d = (Some au, d1)"
  obtains phone otp i where
    "c = Some \<lparr>cred_phone = Some phone, cred_phone_otp = Some otp\<rparr>" "phone \<noteq> []" "otp \<noteq> []"
    "first_index (phone_otp_filter phone otp (clock e 0)) (otpVerifications d) = Some i"
    "otpVerifications d1 = (otpVerifications d)[i := (otpVerifications d ! i)\<lparr>otp_verified := True\<rparr>]"
    "\<exists>u. find (\<lambda>u. user_phone u = Some phone) (users d1) = Some u"
proof -
  from assms obtain cr where c: "c = Some cr"
    by (auto simp: authorize_phone_otp_def split: option.splits)
  from assms c obtain phone otp where eo: "cred_phone cr = Some phone" "cred_phone_otp cr = Some otp"
    "phone \<noteq> []" "otp \<noteq> []"
    by (auto simp: authorize_phone_otp_def split: option.splits if_splits)
  then have cr: "cr = \<lparr>cred_phone = Some phone, cred_phone_otp = Some otp\<rparr>" by (cases cr) simp
  from assms c eo obtain i where
    i: "first_index (phone_otp_filter phone otp (clock e 0)) (otpVerifications d) = Some i"
    by (auto simp: authorize_phone_otp_def oTPVerification_findFirst_def split: option.splits if_splits sum.splits)
  from assms c eo i have
    "otpVerifications d1 = (otpVerifications d)[i := (otpVerifications d ! i)\<lparr>otp_verified := True\<rparr>]
     \<and> (\<exists>u. find (\<lambda>u. user_phone u = Some phone) (users d1) = Some u)"
    by (auto simp: authorize_phone_otp_def oTPVerification_findFirst_def
        oTPVerification_update_verified_def user_findUnique_phone_def user_create_def Let_def
        find_append_Some
        split: option.splits if_splits sum.splits)
  with that c cr eo i show ?thesis by blast
qed

lemma authorize_email_otp_no_match:
  "first_index (email_otp_filter email otp (clock e 0)) (otpVerifications d) = None
   \<Longrightarrow> authorize_email_otp e (Some \<lparr>cred_email = Some email, cred_otp = Some otp\<rparr>) d = (None, d)"
  by (simp add: authorize_email_otp_def oTPVerification_findFirst_def)

lemma authorize_phone_otp_no_match:
  "first_index (phone_otp_filter phone otp (clock e 0)) (otpVerifications d) = None
   \<Longrightarrow> authorize_phone_otp e (Some \<lparr>cred_phone = Some phone, cred_phone_otp = Some otp\<rparr>) d = (None, d)"
  by (simp add: authorize_phone_otp_def oTPVerification_findFirst_def)

lemma authorize_email_otp_known_user:
  "find (\<lambda>u. user_email u = Some email) (users d) = Some u
   \<Longrightarrow> users (snd (authorize_email_otp e (Some \<lparr>cred_email = Some email, cred_otp = Some otp\<rparr>) d)) = users d"
  by (auto simp: authorize_email_otp_def oTPVerification_findFirst_def
        oTPVerification_update_verified_def user_findUnique_email_def
        split: option.splits if_splits sum.splits)

lemma authorize_phone_otp_known_user:
  "find (\<lambda>u. user_phone u = Some phone) (users d) = Some u
   \<Longrightarrow> users (snd (authorize_phone_otp e (Some \<lparr>cred_phone = Some phone, cred_phone_otp = Some otp\<rparr>) d)) = users d"
  by (auto simp: authorize_phone_otp_def oTPVerification_findFirst_def
        oTPVerification_update_verified_def user_findUnique_phone_def
        split: option.splits if_splits sum.splits)

text \<open>
  The call after a successful one: it creates no user, and it fails when the row the first
  call consumed was the only unverified row holding the code.
\<close>

lemma email_second_call:
  assumes first: "authorize_email_otp e1 (Some \<lparr>cred_email = Some email, cred_otp = Some otp\<rparr>) d = (Some au, d1)"
  shows "users (snd (authorize_email_otp e2 (Some \<lparr>cred_email = Some email, cred_otp = Some otp\<rparr>) d1)) = users d1"
    and "length (filter (\<lambda>r. otp_email r = Some email \<and> otp_code r = otp \<and> otp_kind r = EMAIL
                               \<and> \<not> otp_verified r) (otpVerifications d)) \<le> 1
         \<Longrightarrow> authorize_email_otp e2 (Some \<lparr>cred_email = Some email, cred_otp = Some otp\<rparr>) d1 = (None, d1)"
proof -
  from first obtain i where
    i: "first_index (email_otp_filter email otp (clock e1 0)) (otpVerifications d) = Some i"
    and upd: "otpVerifications d1 = (otpVerifications d)[i := (otpVerifications d ! i)\<lparr>otp_verified := True\<rparr>]"
    and usr: "\<exists>u. find (\<lambda>u. user_email u = Some email) (users d1) = Some u"
    by (rule authorize_email_otp_success) auto
  from usr show "users (snd (authorize_email_otp e2 (Some \<lparr>cred_email = Some email, cred_otp = Some otp\<rparr>) d1)) = users d1"
    by (auto simp: authorize_email_otp_known_user)
  assume one: "length (filter (\<lambda>r. otp_email r = Some email \<and> otp_code r = otp \<and> otp_kind r = EMAIL
                               \<and> \<not> otp_verified r) (otpVerifications d)) \<le> 1"
  from first_index_Some [OF i] have il: "i < length (otpVerifications d)"
    and im: "email_otp_filter email otp (clock e1 0) (otpVerifications d ! i)" by auto
  have "first_index (email_otp_filter email otp (clock e2 0)) (otpVerifications d1) = None"
    unfolding upd
    by (rule marked_none_left [OF one il]) (use im in \<open>auto simp: email_otp_filter_def\<close>)
  then show "authorize_email_otp e2 (Some \<lparr>cred_email = Some email, cred_otp = Some otp\<rparr>) d1 = (None, d1)"
    by (rule authorize_email_otp_no_match)
qed

lemma phone_second_call:
  assumes first: "authorize_phone_otp e1 (Some \<lparr>cred_phone = Some phone, cred_phone_otp = Some otp\<rparr>) d = (Some au, d1)"
  shows "users (snd (authorize_phone_otp e2 (Some \<lparr>cred_phone = Some phone, cred_phone_otp = Some otp\<rparr>) d1)) = users d1"
    and "length (filter (\<lambda>r. otp_phone r = Some phone \<and> otp_code r = otp \<and> otp_kind r = SMS
                               \<and> \<not> otp_verified r) (otpVerifications d)) \<le> 1
         \<Longrightarrow> authorize_phone_otp e2 (Some \<lparr>cred_phone = Some phone, cred_phone_otp = Some otp\<rparr>) d1 = (None, d1)"
proof -
  from first obtain i where
    i: "first_index (phone_otp_filter phone otp (clock e1 0)) (otpVerifications d) = Some i"
    and upd: "otpVerifications d1 = (otpVerifications d)[i := (otpVerifications d ! i)\<lparr>otp_verified := True\<rparr>]"
    and usr: "\<exists>u. find (\<lambda>u. user_phone u = Some phone) (users d1) = Some u"
    by (rule authorize_phone_otp_success) auto
  from usr show "users (snd (authorize_phone_otp e2 (Some \<lparr>cred_phone = Some phone, cred_phone_otp = Some otp\<rparr>) d1)) = users d1"
    by (auto simp: authorize_phone_otp_known_user)
  assume one: "length (filter (\<lambda>r. otp_phone r = Some phone \<and> otp_code r = otp \<and> otp_kind r = SMS
                               \<and> \<not> otp_verified r) (otpVerifications d)) \<le> 1"
  from first_index_Some [OF i] have il: "i < length (otpVerifications d)"
    and im: "phone_otp_filter phone otp (clock e1 0) (otpVerifications d ! i)" by auto
  have "first_index (phone_otp_filter phone otp (clock e2 0)) (otpVerifications d1) = None"
    unfolding upd
    by (rule marked_none_left [OF one il]) (use im in \<open>auto simp: phone_otp_filter_def\<close>)
  then show "authorize_phone_otp e2 (Some \<lparr>cred_phone = Some phone, cred_phone_otp = Some otp\<rparr>) d1 = (None, d1)"
    by (rule authorize_phone_otp_no_match)
qed

text \<open>The user a successful call returns is the one the store then has for the identifier.\<close>

lemma authorize_email_otp_returns:
  assumes "authorize_email_otp e (Some \<lparr>cred_email = Some email, cred_otp = Some otp\<rparr>) d = (Some au, d1)"
  shows "\<exists>u. find (\<lambda>u. user_email u = Some email) (users d1) = Some u \<and> au = returned_user u"
  using assms
  by (auto simp: authorize_email_otp_def oTPVerification_findFirst_def
        oTPVerification_update_verified_def user_findUnique_email_def user_create_def Let_def
        find_append_Some
        split: option.splits if_splits sum.splits)

lemma authorize_phone_otp_returns:
  assumes "authorize_phone_otp e (Some \<lparr>cred_phone = Some phone, cred_phone_otp = Some otp\<rparr>) d = (Some au, d1)"
  shows "\<exists>u. find (\<lambda>u. user_phone u = Some phone) (users d1) = Some u \<and> au = returned_user u"
  using assms
  by (auto simp: authorize_phone_otp_def oTPVerification_findFirst_def
        oTPVerification_update_verified_def user_findUnique_phone_def user_create_def Let_def
        find_append_Some
        split: option.splits if_splits sum.splits)

text \<open>A call for a known user that finds a row, the data layer answering, returns that user.\<close>

lemma authorize_email_otp_known_user_match:
  assumes "find (\<lambda>u. user_email u = Some email) (users d) = Some u"
    and "\<exists>r \<in> set (otpVerifications d). email_otp_filter email otp (clock e 0) r"
    and "email \<noteq> []" "otp \<noteq> []"
    and "\<not> faults e OTP_findFirst" "\<not> faults e OTP_update" "\<not> faults e User_findUnique"
  shows "fst (authorize_email_otp e (Some \<lparr>cred_email = Some email, cred_otp = Some otp\<rparr>) d)
           = Some (returned_user u)"
proof -
  from assms(2) obtain j where
    j: "first_index (email_otp_filter email otp (clock e 0)) (otpVerifications d) = Some j"
    using first_index_None_iff [of "email_otp_filter email otp (clock e 0)" "otpVerifications d"]
    by (cases "first_index (email_otp_filter email otp (clock e 0)) (otpVerifications d)") auto
  from first_index_Some [OF j] have "j < length (otpVerifications d)" by simp
  with assms j show ?thesis
    by (simp add: authorize_email_otp_def oTPVerification_findFirst_def
        oTPVerification_update_verified_def user_findUnique_email_def)
qed

lemma authorize_phone_otp_known_user_match:
  assumes "find (\<lambda>u. user_phone u = Some phone) (users d) = Some u"
    and "\<exists>r \<in> set (otpVerifications d). phone_otp_filter phone otp (clock e 0) r"
    and "phone \<noteq> []" "otp \<noteq> []"
    and "\<not> faults e OTP_findFirst" "\<not> faults e OTP_update" "\<not> faults e User_findUnique"
  shows "fst (authorize_phone_otp e (Some \<lparr>cred_phone = Some phone, cred_phone_otp = Some otp\<rparr>) d)
           = Some (returned_user u)"
proof -
  from assms(2) obtain j where
    j: "first_index (phone_otp_filter phone otp (clock e 0)) (otpVerifications d) = Some j"
    using first_index_None_iff [of "phone_otp_filter phone otp (clock e 0)" "otpVerifications d"]
    by (cases "first_index (phone_otp_filter phone otp (clock e 0)) (otpVerifications d)") auto
  from first_index_Some [OF j] have "j < length (otpVerifications d)" by simp
  with assms j show ?thesis
    by (simp add: authorize_phone_otp_def oTPVerification_findFirst_def
        oTPVerification_update_verified_def user_findUnique_phone_def)
qed

lemma email_second_call_exact:
  assumes first: "authorize_email_otp e1 (Some \<lparr>cred_email = Some email, cred_otp = Some otp\<rparr>) d = (Some au, d1)"
  shows "\<not> (\<exists>r \<in> set (otpVerifications d1). email_otp_filter email otp (clock e2 0) r)
         \<Longrightarrow> authorize_email_otp e2 (Some \<lparr>cred_email = Some email, cred_otp = Some otp\<rparr>) d1 = (None, d1)"
    and "(\<exists>r \<in> set (otpVerifications d1). email_otp_filter email otp (clock e2 0) r)
         \<Longrightarrow> \<not> faults e2 OTP_findFirst \<Longrightarrow> \<not> faults e2 OTP_update \<Longrightarrow> \<not> faults e2 User_findUnique
         \<Longrightarrow> fst (authorize_email_otp e2 (Some \<lparr>cred_email = Some email, cred_otp = Some otp\<rparr>) d1) = Some au"
proof -
  assume "\<not> (\<exists>r \<in> set (otpVerifications d1). email_otp_filter email otp (clock e2 0) r)"
  then have "first_index (email_otp_filter email otp (clock e2 0)) (otpVerifications d1) = None"
    by (simp add: first_index_None_iff)
  then show "authorize_email_otp e2 (Some \<lparr>cred_email = Some email, cred_otp = Some otp\<rparr>) d1 = (None, d1)"
    by (rule authorize_email_otp_no_match)
next
  assume m: "\<exists>r \<in> set (otpVerifications d1). email_otp_filter email otp (clock e2 0) r"
    and f: "\<not> faults e2 OTP_findFirst" "\<not> faults e2 OTP_update" "\<not> faults e2 User_findUnique"
  from first have ne: "email \<noteq> []" "otp \<noteq> []"
    by (rule authorize_email_otp_success, simp)+
  from authorize_email_otp_returns [OF first] obtain u where
    u: "find (\<lambda>u. user_email u = Some email) (users d1) = Some u" "au = returned_user u"
    by blast
  from authorize_email_otp_known_user_match [OF u(1) m ne f] u(2)
  show "fst (authorize_email_otp e2 (Some \<lparr>cred_email = Some email, cred_otp = Some otp\<rparr>) d1) = Some au"
    by simp
qed

lemma phone_second_call_exact:
  assumes first: "authorize_phone_otp e1 (Some \<lparr>cred_phone = Some phone, cred_phone_otp = Some otp\<rparr>) d = (Some au, d1)"
  shows "\<not> (\<exists>r \<in> set (otpVerifications d1). phone_otp_filter phone otp (clock e2 0) r)
         \<Longrightarrow> authorize_phone_otp e2 (Some \<lparr>cred_phone = Some phone, cred_phone_otp = Some otp\<rparr>) d1 = (None, d1)"
    and "(\<exists>r \<in> set (otpVerifications d1). phone_otp_filter phone otp (clock e2 0) r)
         \<Longrightarrow> \<not> faults e2 OTP_findFirst \<Longrightarrow> \<not> faults e2 OTP_update \<Longrightarrow> \<not> faults e2 User_findUnique
         \<Longrightarrow> fst (authorize_phone_otp e2 (Some \<lparr>cred_phone = Some phone, cred_phone_otp = Some otp\<rparr>) d1) = Some au"
proof -
  assume "\<not> (\<exists>r \<in> set (otpVerifications d1). phone_otp_filter phone otp (clock e2 0) r)"
  then have "first_index (phone_otp_filter phone otp (clock e2 0)) (otpVerifications d1) = None"
    by (simp add: first_index_None_iff)
  then show "authorize_phone_otp e2 (Some \<lparr>cred_phone = Some phone, cred_phone_otp = Some otp\<rparr>) d1 = (None, d1)"
    by (rule authorize_phone_otp_no_match)
next
  assume m: "\<exists>r \<in> set (otpVerifications d1). phone_otp_filter phone otp (clock e2 0) r"
    and f: "\<not> faults e2 OTP_findFirst" "\<not> faults e2 OTP_update" "\<not> faults e2 User_findUnique"
  from first have ne: "phone \<noteq> []" "otp \<noteq> []"
    by (rule authorize_phone_otp_success, simp)+
  from authorize_phone_otp_returns [OF first] obtain u where
    u: "find (\<lambda>u. user_phone u = Some phone) (users d1) = Some u" "au = returned_user u"
    by blast
  from authorize_phone_otp_known_user_match [OF u(1) m ne f] u(2)
  show "fst (authorize_phone_otp e2 (Some \<lparr>cred_phone = Some phone, cred_phone_otp = Some otp\<rparr>) d1) = Some au"
    by simp
qed

text \<open>
  Claim C3 (as amended). After an \<^verbatim>\<open>authorize\<close> call has succeeded with an identifier and
  a code, a second call with the same identifier and code (by email or by phone, at any
  later or earlier clock reading) creates no user, whichever calls fail. It returns
  \<^verbatim>\<open>null\<close> and leaves the store unchanged when, before the first call, at most one unverified
  row held this identifier and code; more generally, when no row of the store left by the
  first call passes the filter at the second call's clock reading. When a row of that store
  does pass the filter (the same code was issued twice and the second row has not expired)
  and the lookup, the update and the user lookup answer, the second call returns the same
  user again.
\<close>

theorem otp_record_consumed_once:
  "(authorize_email_otp e1 (Some \<lparr>cred_email = Some email, cred_otp = Some otp\<rparr>) d = (Some au, d1)
    \<longrightarrow> users (snd (authorize_email_otp e2 (Some \<lparr>cred_email = Some email, cred_otp = Some otp\<rparr>) d1))
          = users d1
      \<and> (length (filter (\<lambda>r. otp_email r = Some email \<and> otp_code r = otp \<and> otp_kind r = EMAIL
                                \<and> \<not> otp_verified r) (otpVerifications d)) \<le> 1
         \<longrightarrow> authorize_email_otp e2 (Some \<lparr>cred_email = Some email, cred_otp = Some otp\<rparr>) d1
               = (None, d1))
      \<and> (\<not> (\<exists>r \<in> set (otpVerifications d1). email_otp_filter email otp (clock e2 0) r)
         \<longrightarrow> authorize_email_otp e2 (Some \<lparr>cred_email = Some email, cred_otp = Some otp\<rparr>) d1
               = (None, d1))
      \<and> ((\<exists>r \<in> set (otpVerifications d1). email_otp_filter email otp (clock e2 0) r)
           \<and> \<not> faults e2 OTP_findFirst \<and> \<not> faults e2 OTP_update \<and> \<not> faults e2 User_findUnique
         \<longrightarrow> fst (authorize_email_otp e2 (Some \<lparr>cred_email = Some email, cred_otp = Some otp\<rparr>) d1)
               = Some au))
 \<and> (authorize_phone_otp pe1 (Some \<lparr>cred_phone = Some phone, cred_phone_otp = Some potp\<rparr>) pd = (Some pau, pd1)
    \<longrightarrow> users (snd (authorize_phone_otp pe2 (Some \<lparr>cred_phone = Some phone, cred_phone_otp = Some potp\<rparr>) pd1))
          = users pd1
      \<and> (length (filter (\<lambda>r. otp_phone r = Some phone \<and> otp_code r = potp \<and> otp_kind r = SMS
                                \<and> \<not> otp_verified r) (otpVerifications pd)) \<le> 1
         \<longrightarrow> authorize_phone_otp pe2 (Some \<lparr>cred_phone = Some phone, cred_phone_otp = Some potp\<rparr>) pd1
               = (None, pd1))
      \<and> (\<not> (\<exists>r \<in> set (otpVerifications pd1). phone_otp_filter phone potp (clock pe2 0) r)
         \<longrightarrow> authorize_phone_otp pe2 (Some \<lparr>cred_phone = Some phone, cred_phone_otp = Some potp\<rparr>) pd1
               = (None, pd1))
      \<and> ((\<exists>r \<in> set (otpVerifications pd1). phone_otp_filter phone potp (clock pe2 0) r)
           \<and> \<not> faults pe2 OTP_findFirst \<and> \<not> faults pe2 OTP_update \<and> \<not> faults pe2 User_findUnique
         \<longrightarrow> fst (authorize_phone_otp pe2 (Some \<lparr>cred_phone = Some phone, cred_phone_otp = Some potp\<rparr>) pd1)
               = Some pau))"
  using email_second_call [of e1 email otp d au d1 e2]
    phone_second_call [of pe1 phone potp pd pau pd1 pe2]
    email_second_call_exact [of e1 email otp d au d1 e2]
    phone_second_call_exact [of pe1 phone potp pd pau pd1 pe2]
  by blast

text \<open>
  The scenario of the specification: the code 482913 issued for +15551234567 is consumed two
  minutes later, and the attempt after three minutes fails; likewise for the email code. When
  the same code was issued twice, thirty seconds apart, the attempt after three minutes
  returns the same user, and the attempt after ten minutes forty seconds, both rows then
  spent or expired, fails.
\<close>

theorem otp_record_consumed_once_witness:
  "authorize_phone_otp (env_at (issued + 120000)) phone_login db_issued =
     (Some (returned_user phone_customer),
      db_issued\<lparr>users := [phone_customer], otpVerifications :=
        [sms_otp ''+15551234567'' ''482913'' (issued + 600000) True,
         email_otp ''guest@example.com'' ''731905'' (issued + 600000) False]\<rparr>)
   \<and> length (filter (\<lambda>r. otp_phone r = Some ''+15551234567'' \<and> otp_code r = ''482913''
                          \<and> otp_kind r = SMS \<and> \<not> otp_verified r) (otpVerifications db_issued)) \<le> 1
   \<and> authorize_phone_otp (env_at (issued + 180000)) phone_login
       (db_issued\<lparr>users := [phone_customer], otpVerifications :=
        [sms_otp ''+15551234567'' ''482913'' (issued + 600000) True,
         email_otp ''guest@example.com'' ''731905'' (issued + 600000) False]\<rparr>) =
     (None,
      db_issued\<lparr>users := [phone_customer], otpVerifications :=
        [sms_otp ''+15551234567'' ''482913'' (issued + 600000) True,
         email_otp ''guest@example.com'' ''731905'' (issued + 600000) False]\<rparr>)
   \<and> authorize_email_otp (env_at (issued + 120000)) email_login db_issued =
     (Some (returned_user email_customer),
      db_issued\<lparr>users := [email_customer], otpVerifications :=
        [sms_otp ''+15551234567'' ''482913'' (issued + 600000) False,
         email_otp ''guest@example.com'' ''731905'' (issued + 600000) True]\<rparr>)
   \<and> length (filter (\<lambda>r. otp_email r = Some ''guest@example.com'' \<and> otp_code r = ''731905''
                          \<and> otp_kind r = EMAIL \<and> \<not> otp_verified r) (otpVerifications db_issued)) \<le> 1
   \<and> authorize_email_otp (env_at (issued + 180000)) email_login
       (db_issued\<lparr>users := [email_customer], otpVerifications :=
        [sms_otp ''+15551234567'' ''482913'' (issued + 600000) False,
         email_otp ''guest@example.com'' ''731905'' (issued + 600000) True]\<rparr>) =
     (None,
      db_issued\<lparr>users := [email_customer], otpVerifications :=
        [sms_otp ''+15551234567'' ''482913'' (issued + 600000) False,
         email_otp ''guest@example.com'' ''731905'' (issued + 600000) True]\<rparr>)
   \<and> authorize_phone_otp (env_at (issued + 120000)) phone_login db_same_code_twice =
     (Some (returned_user phone_customer),
      db_same_code_twice\<lparr>users := [phone_customer], otpVerifications :=
        [sms_otp ''+15551234567'' ''482913'' (issued + 600000) True,
         sms_otp ''+15551234567'' ''482913'' (issued + 630000) False]\<rparr>)
   \<and> fst (authorize_phone_otp (env_at (issued + 180000)) phone_login
       (db_same_code_twice\<lparr>users := [phone_customer], otpVerifications :=
        [sms_otp ''+15551234567'' ''482913'' (issued + 600000) True,
         sms_otp ''+15551234567'' ''482913'' (issued + 630000) False]\<rparr>)) =
     Some (returned_user phone_customer)
   \<and> authorize_phone_otp (env_at (issued + 640000)) phone_login
       (db_same_code_twice\<lparr>users := [phone_customer], otpVerifications :=
        [sms_otp ''+15551234567'' ''482913'' (issued + 600000) True,
         sms_otp ''+15551234567'' ''482913'' (issued + 630000) False]\<rparr>) =
     (None,
      db_same_code_twice\<lparr>users := [phone_customer], otpVerifications :=
        [sms_otp ''+15551234567'' ''482913'' (issued + 600000) True,
         sms_otp ''+15551234567'' ''482913'' (issued + 630000) False]\<rparr>)
   \<and> authorize_email_otp (env_at (issued + 120000)) email_login db_same_email_code_twice =
     (Some (returned_user email_customer),
      db_same_email_code_twice\<lparr>users := [email_customer], otpVerifications :=
        [email_otp ''guest@example.com'' ''731905'' (issued + 600000) True,
         email_otp ''guest@example.com'' ''731905'' (issued + 630000) False]\<rparr>)
   \<and> fst (authorize_email_otp (env_at (issued + 180000)) email_login
       (db_same_email_code_twice\<lparr>users := [email_customer], otpVerifications :=
        [email_otp ''guest@example.com'' ''731905'' (issued + 600000) True,
         email_otp ''guest@example.com'' ''731905'' (issued + 630000) False]\<rparr>)) =
     Some (returned_user email_customer)
   \<and> authorize_email_otp (env_at (issued + 640000)) email_login
       (db_same_email_code_twice\<lparr>users := [email_customer], otpVerifications :=
        [email_otp ''guest@example.com'' ''731905'' (issued + 600000) True,
         email_otp ''guest@example.com'' ''731905'' (issued + 630000) False]\<rparr>) =
     (None,
      db_same_email_code_twice\<lparr>users := [email_customer], otpVerifications :=
        [email_otp ''guest@example.com'' ''731905'' (issued + 600000) True,
         email_otp ''guest@example.com'' ''731905'' (issued + 630000) False]\<rparr>)"
proof -
  let ?p1 = "db_issued\<lparr>users := [phone_customer], otpVerifications :=
        [sms_otp ''+15551234567'' ''482913'' (issued + 600000) True,
         email_otp ''guest@example.com'' ''731905'' (issued + 600000) False]\<rparr>"
  let ?e1 = "db_issued\<lparr>users := [email_customer], otpVerifications :=
        [sms_otp ''+15551234567'' ''482913'' (issued + 600000) False,
         email_otp ''guest@example.com'' ''731905'' (issued + 600000) True]\<rparr>"
  let ?q1 = "db_same_code_twice\<lparr>users := [phone_customer], otpVerifications :=
        [sms_otp ''+15551234567'' ''482913'' (issued + 600000) True,
         sms_otp ''+15551234567'' ''482913'' (issued + 630000) False]\<rparr>"
  let ?f1 = "db_same_email_code_twice\<lparr>users := [email_customer], otpVerifications :=
        [email_otp ''guest@example.com'' ''731905'' (issued + 600000) True,
         email_otp ''guest@example.com'' ''731905'' (issued + 630000) False]\<rparr>"
  have p: "authorize_phone_otp (env_at (issued + 120000))
             (Some \<lparr>cred_phone = Some ''+15551234567'', cred_phone_otp = Some ''482913''\<rparr>) db_issued =
           (Some (returned_user phone_customer), ?p1)"
    by (simp add: authorize_defs example_defs)
  have pone: "length (filter (\<lambda>r. otp_phone r = Some ''+15551234567'' \<and> otp_code r = ''482913''
                          \<and> otp_kind r = SMS \<and> \<not> otp_verified r) (otpVerifications db_issued)) \<le> 1"
    by (simp add: example_defs)
  have m: "authorize_email_otp (env_at (issued + 120000))
             (Some \<lparr>cred_email = Some ''guest@example.com'', cred_otp = Some ''731905''\<rparr>) db_issued =
           (Some (returned_user email_customer), ?e1)"
    by (simp add: authorize_defs example_defs)
  have mone: "length (filter (\<lambda>r. otp_email r = Some ''guest@example.com'' \<and> otp_code r = ''731905''
                          \<and> otp_kind r = EMAIL \<and> \<not> otp_verified r) (otpVerifications db_issued)) \<le> 1"
    by (simp add: example_defs)
  have q: "authorize_phone_otp (env_at (issued + 120000))
             (Some \<lparr>cred_phone = Some ''+15551234567'', cred_phone_otp = Some ''482913''\<rparr>)
             db_same_code_twice =
           (Some (returned_user phone_customer), ?q1)"
    by (simp add: authorize_defs example_defs)
  have f: "authorize_email_otp (env_at (issued + 120000))
             (Some \<lparr>cred_email = Some ''guest@example.com'', cred_otp = Some ''731905''\<rparr>)
             db_same_email_code_twice =
           (Some (returned_user email_customer), ?f1)"
    by (simp add: authorize_defs example_defs)
  have qlive: "\<exists>r \<in> set (otpVerifications ?q1).
                 phone_otp_filter ''+15551234567'' ''482913'' (clock (env_at (issued + 180000)) 0) r"
    by (simp add: phone_otp_filter_def example_defs)
  have qdead: "\<not> (\<exists>r \<in> set (otpVerifications ?q1).
                 phone_otp_filter ''+15551234567'' ''482913'' (clock (env_at (issued + 640000)) 0) r)"
    by (simp add: phone_otp_filter_def example_defs)
  have flive: "\<exists>r \<in> set (otpVerifications ?f1).
                 email_otp_filter ''guest@example.com'' ''731905'' (clock (env_at (issued + 180000)) 0) r"
    by (simp add: email_otp_filter_def example_defs)
  have fdead: "\<not> (\<exists>r \<in> set (otpVerifications ?f1).
                 email_otp_filter ''guest@example.com'' ''731905'' (clock (env_at (issued + 640000)) 0) r)"
    by (simp add: email_otp_filter_def example_defs)
  have answers: "\<not> faults (env_at (issued + 180000)) OTP_findFirst"
    "\<not> faults (env_at (issued + 180000)) OTP_update"
    "\<not> faults (env_at (issued + 180000)) User_findUnique"
    by (simp_all add: example_defs)
  note inst = otp_record_consumed_once
    [of "env_at (issued + 120000)" "''guest@example.com''" "''731905''" db_issued
        "returned_user email_customer" ?e1 "env_at (issued + 180000)"
        "env_at (issued + 120000)" "''+15551234567''" "''482913''" db_issued
        "returned_user phone_customer" ?p1 "env_at (issued + 180000)"]
  note live = otp_record_consumed_once
    [of "env_at (issued + 120000)" "''guest@example.com''" "''731905''" db_same_email_code_twice
        "returned_user email_customer" ?f1 "env_at (issued + 180000)"
        "env_at (issued + 120000)" "''+15551234567''" "''482913''" db_same_code_twice
        "returned_user phone_customer" ?q1 "env_at (issued + 180000)"]
  note dead = otp_record_consumed_once
    [of "env_at (issued + 120000)" "''guest@example.com''" "''731905''" db_same_email_code_twice
        "returned_user email_customer" ?f1 "env_at (issued + 640000)"
        "env_at (issued + 120000)" "''+15551234567''" "''482913''" db_same_code_twice
        "returned_user phone_customer" ?q1 "env_at (issued + 640000)"]
  from inst p pone have p2: "authorize_phone_otp (env_at (issued + 180000)) phone_login ?p1 = (None, ?p1)"
    unfolding phone_login_def by blast
  from inst m mone have m2: "authorize_email_otp (env_at (issued + 180000)) email_login ?e1 = (None, ?e1)"
    unfolding email_login_def by blast
  from live q qlive answers
  have q2: "fst (authorize_phone_otp (env_at (issued + 180000)) phone_login ?q1)
              = Some (returned_user phone_customer)"
    unfolding phone_login_def by blast
  from dead q qdead
  have q3: "authorize_phone_otp (env_at (issued + 640000)) phone_login ?q1 = (None, ?q1)"
    unfolding phone_login_def by blast
  from live f flive answers
  have f2: "fst (authorize_email_otp (env_at (issued + 180000)) email_login ?f1)
              = Some (returned_user email_customer)"
    unfolding email_login_def by blast
  from dead f fdead
  have f3: "authorize_email_otp (env_at (issued + 640000)) email_login ?f1 = (None, ?f1)"
    unfolding email_login_def by blast
  from p m q f have p': "authorize_phone_otp (env_at (issued + 120000)) phone_login db_issued =
           (Some (returned_user phone_customer), ?p1)"
    and m': "authorize_email_otp (env_at (issued + 120000)) email_login db_issued =
           (Some (returned_user email_customer), ?e1)"
    and q': "authorize_phone_otp (env_at (issued + 120000)) phone_login db_same_code_twice =
           (Some (returned_user phone_customer), ?q1)"
    and f': "authorize_email_otp (env_at (issued + 120000)) email_login db_same_email_code_twice =
           (Some (returned_user email_customer), ?f1)"
    by (simp_all add: phone_login_def email_login_def)
  show ?thesis
    using p' pone p2 m' mone m2 q' q2 q3 f' f2 f3 by (intro conjI)
qed

text \<open>
  Claim C3 as stated fails: the same code was issued twice for one phone (two rows). The
  first call consumes the first row and creates the user, the second call with the same
  phone and code consumes the second row and returns the user again.
\<close>

theorem otp_code_reused_counterexample:
  "authorize_phone_otp (env_at (issued + 120000)) phone_login db_same_code_twice =
     (Some (returned_user phone_customer),
      db_same_code_twice\<lparr>users := [phone_customer], otpVerifications :=
        [sms_otp ''+15551234567'' ''482913'' (issued + 600000) True,
         sms_otp ''+15551234567'' ''482913'' (issued + 630000) False]\<rparr>)
   \<and> authorize_phone_otp (env_at (issued + 180000)) phone_login
       (db_same_code_twice\<lparr>users := [phone_customer], otpVerifications :=
        [sms_otp ''+15551234567'' ''482913'' (issued + 600000) True,
         sms_otp ''+15551234567'' ''482913'' (issued + 630000) False]\<rparr>) =
     (Some (returned_user phone_customer),
      db_same_code_twice\<lparr>users := [phone_customer], otpVerifications :=
        [sms_otp ''+15551234567'' ''482913'' (issued + 600000) True,
         sms_otp ''+15551234567'' ''482913'' (issued + 630000) True]\<rparr>)"
  by (simp add: authorize_defs example_defs)

text \<open>
  The only change a call makes to the table of codes is to mark the row it found.
\<close>

lemma authorize_email_otp_table:
  "otpVerifications (snd (authorize_email_otp e c d)) = otpVerifications d
   \<or> (\<exists>email otp j. first_index (email_otp_filter email otp (clock e 0)) (otpVerifications d) = Some j
        \<and> otpVerifications (snd (authorize_email_otp e c d)) =
            (otpVerifications d)[j := (otpVerifications d ! j)\<lparr>otp_verified := True\<rparr>])"
  by (auto simp: authorize_email_otp_def oTPVerification_findFirst_def
        oTPVerification_update_verified_def user_findUnique_email_def user_create_def Let_def
        split: option.splits if_splits sum.splits)

lemma authorize_phone_otp_table:
  "otpVerifications (snd (authorize_phone_otp e c d)) = otpVerifications d
   \<or> (\<exists>phone otp j. first_index (phone_otp_filter phone otp (clock e 0)) (otpVerifications d) = Some j
        \<and> otpVerifications (snd (authorize_phone_otp e c d)) =
            (otpVerifications d)[j := (otpVerifications d ! j)\<lparr>otp_verified := True\<rparr>])"
  by (auto simp: authorize_phone_otp_def oTPVerification_findFirst_def
        oTPVerification_update_verified_def user_findUnique_phone_def user_create_def Let_def
        split: option.splits if_splits sum.splits)

lemma expired_row_kept_email:
  assumes "i < length (otpVerifications d)" "otp_expiresAt (otpVerifications d ! i) \<le> clock e 0"
  shows "otpVerifications (snd (authorize_email_otp e c d)) ! i = otpVerifications d ! i"
  using authorize_email_otp_table [of e c d]
proof
  assume "\<exists>email otp j. first_index (email_otp_filter email otp (clock e 0)) (otpVerifications d) = Some j
        \<and> otpVerifications (snd (authorize_email_otp e c d)) =
            (otpVerifications d)[j := (otpVerifications d ! j)\<lparr>otp_verified := True\<rparr>]"
  then obtain email otp j where
    j: "first_index (email_otp_filter email otp (clock e 0)) (otpVerifications d) = Some j"
    and t: "otpVerifications (snd (authorize_email_otp e c d)) =
            (otpVerifications d)[j := (otpVerifications d ! j)\<lparr>otp_verified := True\<rparr>]"
    by blast
  from first_index_Some [OF j] have "otp_expiresAt (otpVerifications d ! j) > clock e 0"
    by (simp add: email_otp_filter_def)
  with assms have "j \<noteq> i" by auto
  with t show ?thesis by simp
qed simp

lemma expired_row_kept_phone:
  assumes "i < length (otpVerifications d)" "otp_expiresAt (otpVerifications d ! i) \<le> clock e 0"
  shows "otpVerifications (snd (authorize_phone_otp e c d)) ! i = otpVerifications d ! i"
  using authorize_phone_otp_table [of e c d]
proof
  assume "\<exists>phone otp j. first_index (phone_otp_filter phone otp (clock e 0)) (otpVerifications d) = Some j
        \<and> otpVerifications (snd (authorize_phone_otp e c d)) =
            (otpVerifications d)[j := (otpVerifications d ! j)\<lparr>otp_verified := True\<rparr>]"
  then obtain phone otp j where
    j: "first_index (phone_otp_filter phone otp (clock e 0)) (otpVerifications d) = Some j"
    and t: "otpVerifications (snd (authorize_phone_otp e c d)) =
            (otpVerifications d)[j := (otpVerifications d ! j)\<lparr>otp_verified := True\<rparr>]"
    by blast
  from first_index_Some [OF j] have "otp_expiresAt (otpVerifications d ! j) > clock e 0"
    by (simp add: phone_otp_filter_def)
  with assms have "j \<noteq> i" by auto
  with t show ?thesis by simp
qed simp

text \<open>
  Claim C4. An attempt made at or after \<open>expiresAt\<close> fails: when every row that holds the
  submitted identifier and code has expired at the time of the attempt, \<^verbatim>\<open>authorize\<close>
  returns \<^verbatim>\<open>null\<close> and leaves the whole store (the codes and the users among it)
  unchanged, whichever calls fail. And whatever is submitted, a row that has expired is
  never the row a call marks verified.
\<close>

theorem expired_otp_rejected:
  "((\<forall>r \<in> set (otpVerifications d).
        otp_email r = Some email \<and> otp_code r = otp \<and> otp_kind r = EMAIL
        \<longrightarrow> otp_expiresAt r \<le> clock e 0)
    \<longrightarrow> authorize_email_otp e (Some \<lparr>cred_email = Some email, cred_otp = Some otp\<rparr>) d = (None, d))
 \<and> ((\<forall>r \<in> set (otpVerifications d).
        otp_phone r = Some phone \<and> otp_code r = otp \<and> otp_kind r = SMS
        \<longrightarrow> otp_expiresAt r \<le> clock e 0)
    \<longrightarrow> authorize_phone_otp e (Some \<lparr>cred_phone = Some phone, cred_phone_otp = Some otp\<rparr>) d = (None, d))
 \<and> (i < length (otpVerifications d) \<and> otp_expiresAt (otpVerifications d ! i) \<le> clock e 0
    \<longrightarrow> otpVerifications (snd (authorize_email_otp e ec d)) ! i = otpVerifications d ! i
      \<and> otpVerifications (snd (authorize_phone_otp e pc d)) ! i = otpVerifications d ! i)"
proof (intro conjI impI)
  assume "\<forall>r \<in> set (otpVerifications d).
        otp_email r = Some email \<and> otp_code r = otp \<and> otp_kind r = EMAIL
        \<longrightarrow> otp_expiresAt r \<le> clock e 0"
  then have "first_index (email_otp_filter email otp (clock e 0)) (otpVerifications d) = None"
    by (fastforce simp: first_index_None_iff email_otp_filter_def)
  then show "authorize_email_otp e (Some \<lparr>cred_email = Some email, cred_otp = Some otp\<rparr>) d = (None, d)"
    by (rule authorize_email_otp_no_match)
next
  assume "\<forall>r \<in> set (otpVerifications d).
        otp_phone r = Some phone \<and> otp_code r = otp \<and> otp_kind r = SMS
        \<longrightarrow> otp_expiresAt r \<le> clock e 0"
  then have "first_index (phone_otp_filter phone otp (clock e 0)) (otpVerifications d) = None"
    by (fastforce simp: first_index_None_iff phone_otp_filter_def)
  then show "authorize_phone_otp e (Some \<lparr>cred_phone = Some phone, cred_phone_otp = Some otp\<rparr>) d = (None, d)"
    by (rule authorize_phone_otp_no_match)
next
  assume "i < length (otpVerifications d) \<and> otp_expiresAt (otpVerifications d ! i) \<le> clock e 0"
  then show "otpVerifications (snd (authorize_email_otp e ec d)) ! i = otpVerifications d ! i"
    by (simp add: expired_row_kept_email)
next
  assume "i < length (otpVerifications d) \<and> otp_expiresAt (otpVerifications d ! i) \<le> clock e 0"
  then show "otpVerifications (snd (authorize_phone_otp e pc d)) ! i = otpVerifications d ! i"
    by (simp add: expired_row_kept_phone)
qed

text \<open>
  The scenario of the specification: the codes expire ten minutes after \<open>issued\<close>; the
  attempts after eleven minutes, and the attempt at the very instant of expiry, fail though
  the code is the right one.
\<close>

theorem expired_otp_rejected_witness:
  "authorize_email_otp (env_at (issued + 660000)) email_login db_issued = (None, db_issued)
   \<and> authorize_phone_otp (env_at (issued + 660000)) phone_login db_issued = (None, db_issued)
   \<and> authorize_phone_otp (env_at (issued + 600000)) phone_login db_issued = (None, db_issued)
   \<and> otp_expiresAt (otpVerifications db_issued ! 0) = issued + 600000
   \<and> otpVerifications (snd (authorize_phone_otp (env_at (issued + 660000)) phone_login db_issued)) ! 0
       = sms_otp ''+15551234567'' ''482913'' (issued + 600000) False"
proof -
  have h1: "\<forall>r \<in> set (otpVerifications db_issued).
        otp_email r = Some ''guest@example.com'' \<and> otp_code r = ''731905'' \<and> otp_kind r = EMAIL
        \<longrightarrow> otp_expiresAt r \<le> clock (env_at (issued + 660000)) 0"
    by (simp add: example_defs)
  have h2: "\<forall>r \<in> set (otpVerifications db_issued).
        otp_phone r = Some ''+15551234567'' \<and> otp_code r = ''482913'' \<and> otp_kind r = SMS
        \<longrightarrow> otp_expiresAt r \<le> clock (env_at (issued + 660000)) 0"
    by (simp add: example_defs)
  have h2': "\<forall>r \<in> set (otpVerifications db_issued).
        otp_phone r = Some ''+15551234567'' \<and> otp_code r = ''482913'' \<and> otp_kind r = SMS
        \<longrightarrow> otp_expiresAt r \<le> clock (env_at (issued + 600000)) 0"
    by (simp add: example_defs)
  have h3: "0 < length (otpVerifications db_issued)
      \<and> otp_expiresAt (otpVerifications db_issued ! 0) \<le> clock (env_at (issued + 660000)) 0"
    by (simp add: example_defs)
  have row: "otpVerifications db_issued ! 0 = sms_otp ''+15551234567'' ''482913'' (issued + 600000) False"
    by (simp add: db_issued_def empty_db_def)
  have ex: "otp_expiresAt (otpVerifications db_issued ! 0) = issued + 600000"
    by (simp add: row) (simp add: sms_otp_def)
  note a = expired_otp_rejected
    [of db_issued "''guest@example.com''" "''731905''" "env_at (issued + 660000)" "''+15551234567''" 0
        email_login phone_login]
  note b = expired_otp_rejected
    [of db_issued "''+15551234567''" "''482913''" "env_at (issued + 660000)" "''+15551234567''" 0
        email_login phone_login]
  note c = expired_otp_rejected
    [of db_issued "''+15551234567''" "''482913''" "env_at (issued + 600000)" "''+15551234567''" 0
        email_login phone_login]
  from a h1 have r1: "authorize_email_otp (env_at (issued + 660000)) email_login db_issued = (None, db_issued)"
    unfolding email_login_def by blast
  from b h2 have r2: "authorize_phone_otp (env_at (issued + 660000)) phone_login db_issued = (None, db_issued)"
    unfolding phone_login_def by blast
  from c h2' have r3: "authorize_phone_otp (env_at (issued + 600000)) phone_login db_issued = (None, db_issued)"
    unfolding phone_login_def by blast
  from a h3 have r4: "otpVerifications (snd (authorize_phone_otp (env_at (issued + 660000)) phone_login db_issued)) ! 0
       = sms_otp ''+15551234567'' ''482913'' (issued + 600000) False"
    unfolding row [symmetric] by blast
  show ?thesis
    using r1 r2 r3 ex r4 by (intro conjI)
qed

section \<open>Sign-out and the audit log\<close>

text \<open>
  Claim C5. Signing out with a token that carries a user id, the data layer answering: every
  active device session of that user becomes inactive with \<open>lastSeen\<close> set to the current
  time, every other row of the table (the sessions of other users, and the user's inactive
  ones) stays as it is, and one \<^verbatim>\<open>USER_SIGNOUT\<close> entry for the user is appended to the
  audit log.
\<close>

theorem signOut_deactivates_user_sessions:
  "token_sub t = Some uid \<and> uid \<noteq> []
   \<and> \<not> faults e DeviceSession_updateMany \<and> \<not> faults e AuditLog_create
   \<longrightarrow>
     fst (event_signOut e (Some t) d) = Inr ()
   \<and> length (deviceSessions (snd (event_signOut e (Some t) d))) = length (deviceSessions d)
   \<and> (\<forall>i < length (deviceSessions d).
         deviceSessions (snd (event_signOut e (Some t) d)) ! i =
           (if ds_userId (deviceSessions d ! i) = uid \<and> ds_active (deviceSessions d ! i)
            then (deviceSessions d ! i)\<lparr>ds_active := False, ds_lastSeen := clock e 0\<rparr>
            else deviceSessions d ! i))
   \<and> activeDevices (snd (event_signOut e (Some t) d)) uid = 0
   \<and> (\<forall>other. other \<noteq> uid \<longrightarrow>
         activeDevices (snd (event_signOut e (Some t) d)) other = activeDevices d other)
   \<and> auditLogs (snd (event_signOut e (Some t) d)) = auditLogs d @
        [\<lparr>al_userId = uid, al_tenantId = or_null (token_tenantId t), al_action = ''USER_SIGNOUT'',
          al_metadata = SignOutMetadata (clock e 1)\<rparr>]"
proof (intro impI)
  assume h: "token_sub t = Some uid \<and> uid \<noteq> []
   \<and> \<not> faults e DeviceSession_updateMany \<and> \<not> faults e AuditLog_create"
  let ?upd = "\<lambda>r. if ds_userId r = uid \<and> ds_active r
                   then r\<lparr>ds_active := False, ds_lastSeen := clock e 0\<rparr> else r"
  from h have r: "event_signOut e (Some t) d =
      (Inr (), d\<lparr>deviceSessions := map ?upd (deviceSessions d),
                 auditLogs := auditLogs d @
        [\<lparr>al_userId = uid, al_tenantId = or_null (token_tenantId t), al_action = ''USER_SIGNOUT'',
          al_metadata = SignOutMetadata (clock e 1)\<rparr>]\<rparr>)"
    by (simp add: event_signOut_def or_null_def deviceSession_updateMany_def auditLog_create_def)
  have z: "filter (\<lambda>s. ds_userId s = uid \<and> ds_active s) (map ?upd xs) = []" for xs
    by (induction xs) auto
  have o: "other \<noteq> uid \<Longrightarrow>
            length (filter (\<lambda>s. ds_userId s = other \<and> ds_active s) (map ?upd xs))
          = length (filter (\<lambda>s. ds_userId s = other \<and> ds_active s) xs)" for other xs
    by (induction xs) auto
  show "fst (event_signOut e (Some t) d) = Inr ()
   \<and> length (deviceSessions (snd (event_signOut e (Some t) d))) = length (deviceSessions d)
   \<and> (\<forall>i < length (deviceSessions d).
         deviceSessions (snd (event_signOut e (Some t) d)) ! i =
           (if ds_userId (deviceSessions d ! i) = uid \<and> ds_active (deviceSessions d ! i)
            then (deviceSessions d ! i)\<lparr>ds_active := False, ds_lastSeen := clock e 0\<rparr>
            else deviceSessions d ! i))
   \<and> activeDevices (snd (event_signOut e (Some t) d)) uid = 0
   \<and> (\<forall>other. other \<noteq> uid \<longrightarrow>
         activeDevices (snd (event_signOut e (Some t) d)) other = activeDevices d other)
   \<and> auditLogs (snd (event_signOut e (Some t) d)) = auditLogs d @
        [\<lparr>al_userId = uid, al_tenantId = or_null (token_tenantId t), al_action = ''USER_SIGNOUT'',
          al_metadata = SignOutMetadata (clock e 1)\<rparr>]"
    unfolding r by (simp add: activeDevices_def z o del: filter_map length_filter_map)
qed

theorem signOut_deactivates_user_sessions_witness:
  "event_signOut env0 (Some owner_token) db_two_users =
     (Inr (),
      db_two_users\<lparr>deviceSessions :=
        [web_session ''u1'' ''aa'' False issued, web_session ''u2'' ''ee'' True 6,
         web_session ''u1'' ''bb'' False 3, web_session ''u1'' ''cc'' False issued],
       auditLogs := [\<lparr>al_userId = ''u1'', al_tenantId = Some ''t1'', al_action = ''USER_SIGNOUT'',
          al_metadata = SignOutMetadata (issued + 1)\<rparr>]\<rparr>)
   \<and> activeDevices (snd (event_signOut env0 (Some owner_token) db_two_users)) ''u1'' = 0
   \<and> activeDevices (snd (event_signOut env0 (Some owner_token) db_two_users)) ''u2'' = 1"
proof -
  have h: "token_sub owner_token = Some ''u1'' \<and> ''u1'' \<noteq> []
     \<and> \<not> faults env0 DeviceSession_updateMany \<and> \<not> faults env0 AuditLog_create"
    by (simp add: owner_token_def example_defs)
  have a: "activeDevices db_two_users ''u2'' = 1"
    by (simp add: activeDevices_def db_two_users_def example_defs)
  have r: "event_signOut env0 (Some owner_token) db_two_users =
     (Inr (),
      db_two_users\<lparr>deviceSessions :=
        [web_session ''u1'' ''aa'' False issued, web_session ''u2'' ''ee'' True 6,
         web_session ''u1'' ''bb'' False 3, web_session ''u1'' ''cc'' False issued],
       auditLogs := [\<lparr>al_userId = ''u1'', al_tenantId = Some ''t1'', al_action = ''USER_SIGNOUT'',
          al_metadata = SignOutMetadata (issued + 1)\<rparr>]\<rparr>)"
    by (simp add: event_signOut_def or_null_def deviceSession_updateMany_def auditLog_create_def
        owner_token_def db_two_users_def example_defs)
  from signOut_deactivates_user_sessions [of owner_token "''u1''" env0 db_two_users] h
  have z: "activeDevices (snd (event_signOut env0 (Some owner_token) db_two_users)) ''u1'' = 0"
    and o: "\<forall>other. other \<noteq> ''u1'' \<longrightarrow>
         activeDevices (snd (event_signOut env0 (Some owner_token) db_two_users)) other
           = activeDevices db_two_users other"
    by blast+
  from o a have o': "activeDevices (snd (event_signOut env0 (Some owner_token) db_two_users)) ''u2'' = 1"
    by simp
  show ?thesis
    using r z o' by (intro conjI)
qed

text \<open>
  The handlers themselves do not catch what their data-layer calls throw: with the audit-log
  write throwing, \<^verbatim>\<open>events.signIn\<close> rejects with the error, and \<^verbatim>\<open>events.signOut\<close>
  rejects with it after the sessions have been deactivated.
\<close>

lemma event_handlers_reject_on_audit_failure:
  "event_signIn (env_failing AuditLog_create) \<lparr>eu_id = Some ''u1'', eu_tenantId = Some ''t1''\<rparr>
       (Some google) (Some False) db_two_users
     = (Inl (Thrown AuditLog_create), db_two_users)
   \<and> event_signOut (env_failing AuditLog_create) (Some owner_token) db_two_users
     = (Inl (Thrown AuditLog_create),
        db_two_users\<lparr>deviceSessions :=
          [web_session ''u1'' ''aa'' False issued, web_session ''u2'' ''ee'' True 6,
           web_session ''u1'' ''bb'' False 3, web_session ''u1'' ''cc'' False issued]\<rparr>)"
  by (simp add: event_signIn_def event_signOut_def or_null_def deviceSession_updateMany_def
      auditLog_create_def owner_token_def db_two_users_def env_failing_def example_defs)

text \<open>
  Claim C6. The sign-in and the sign-out events, called the way the library calls them,
  complete whatever their data-layer calls do. When the audit-log write throws, the sign-in
  event completes with the store unchanged and the error logged; the sign-out event
  completes with the user's active sessions deactivated, no audit entry appended and the
  error logged.
\<close>

theorem audit_failure_does_not_fail_event:
  "fst (eventsErrorHandler (event_signIn e user acc isNewUser) d) = Inr ()
 \<and> fst (eventsErrorHandler (event_signOut e token) d) = Inr ()
 \<and> (faults e AuditLog_create \<and> or_null (eu_id user) = Some uid
    \<longrightarrow> eventsErrorHandler (event_signIn e user acc isNewUser) d
          = (Inr (), Some (Thrown AuditLog_create), d))
 \<and> (faults e AuditLog_create \<and> \<not> faults e DeviceSession_updateMany
      \<and> or_null (token_sub t) = Some sub
    \<longrightarrow> eventsErrorHandler (event_signOut e (Some t)) d
          = (Inr (), Some (Thrown AuditLog_create),
             d\<lparr>deviceSessions :=
                 map (\<lambda>s. if ds_userId s = sub \<and> ds_active s = True
                          then s\<lparr>ds_active := False, ds_lastSeen := clock e 0\<rparr> else s)
                   (deviceSessions d)\<rparr>))"
proof (intro conjI impI)
  show "fst (eventsErrorHandler (event_signIn e user acc isNewUser) d) = Inr ()"
    by (simp add: eventsErrorHandler_def split: prod.splits sum.splits)
  show "fst (eventsErrorHandler (event_signOut e token) d) = Inr ()"
    by (simp add: eventsErrorHandler_def split: prod.splits sum.splits)
next
  assume "faults e AuditLog_create \<and> or_null (eu_id user) = Some uid"
  then have "event_signIn e user acc isNewUser d = (Inl (Thrown AuditLog_create), d)"
    by (simp add: event_signIn_def auditLog_create_def)
  then show "eventsErrorHandler (event_signIn e user acc isNewUser) d
          = (Inr (), Some (Thrown AuditLog_create), d)"
    by (simp add: eventsErrorHandler_def)
next
  assume "faults e AuditLog_create \<and> \<not> faults e DeviceSession_updateMany
      \<and> or_null (token_sub t) = Some sub"
  then have "event_signOut e (Some t) d
          = (Inl (Thrown AuditLog_create),
             d\<lparr>deviceSessions :=
                 map (\<lambda>s. if ds_userId s = sub \<and> ds_active s = True
                          then s\<lparr>ds_active := False, ds_lastSeen := clock e 0\<rparr> else s)
                   (deviceSessions d)\<rparr>)"
    by (simp add: event_signOut_def deviceSession_updateMany_def auditLog_create_def)
  then show "eventsErrorHandler (event_signOut e (Some t)) d
          = (Inr (), Some (Thrown AuditLog_create),
             d\<lparr>deviceSessions :=
                 map (\<lambda>s. if ds_userId s = sub \<and> ds_active s = True
                          then s\<lparr>ds_active := False, ds_lastSeen := clock e 0\<rparr> else s)
                   (deviceSessions d)\<rparr>)"
    by (simp add: eventsErrorHandler_def)
qed

text \<open>
  The owner signs in through Google and signs out while the audit-log write throws: both
  events complete, the sign-in leaves the store as it was, and the sign-out has deactivated
  the owner's three sessions and left the guest's.
\<close>

theorem audit_failure_does_not_fail_event_witness:
  "eventsErrorHandler
       (event_signIn (env_failing AuditLog_create) \<lparr>eu_id = Some ''u1'', eu_tenantId = Some ''t1''\<rparr>
          (Some google) (Some False)) db_two_users
     = (Inr (), Some (Thrown AuditLog_create), db_two_users)
   \<and> eventsErrorHandler (event_signOut (env_failing AuditLog_create) (Some owner_token)) db_two_users
     = (Inr (), Some (Thrown AuditLog_create),
        db_two_users\<lparr>deviceSessions :=
          [web_session ''u1'' ''aa'' False issued, web_session ''u2'' ''ee'' True 6,
           web_session ''u1'' ''bb'' False 3, web_session ''u1'' ''cc'' False issued]\<rparr>)"
proof -
  have hin: "faults (env_failing AuditLog_create) AuditLog_create
             \<and> or_null (eu_id \<lparr>eu_id = Some ''u1'', eu_tenantId = Some ''t1''\<rparr>) = Some ''u1''"
    by (simp add: env_failing_def or_null_def)
  have hout: "faults (env_failing AuditLog_create) AuditLog_create
              \<and> \<not> faults (env_failing AuditLog_create) DeviceSession_updateMany
              \<and> or_null (token_sub owner_token) = Some ''u1''"
    by (simp add: env_failing_def or_null_def owner_token_def)
  have marked: "db_two_users\<lparr>deviceSessions :=
                 map (\<lambda>s. if ds_userId s = ''u1'' \<and> ds_active s = True
                          then s\<lparr>ds_active := False,
                                 ds_lastSeen := clock (env_failing AuditLog_create) 0\<rparr> else s)
                   (deviceSessions db_two_users)\<rparr>
              = db_two_users\<lparr>deviceSessions :=
          [web_session ''u1'' ''aa'' False issued, web_session ''u2'' ''ee'' True 6,
           web_session ''u1'' ''bb'' False 3, web_session ''u1'' ''cc'' False issued]\<rparr>"
    by (simp add: example_defs)
  note inst = audit_failure_does_not_fail_event
    [where e = "env_failing AuditLog_create"
       and user = "\<lparr>eu_id = Some ''u1'', eu_tenantId = Some ''t1''\<rparr>"
       and acc = "Some google" and isNewUser = "Some False" and d = db_two_users
       and uid = "''u1''" and t = owner_token and sub = "''u1''"]
  from inst hin have r1: "eventsErrorHandler
       (event_signIn (env_failing AuditLog_create) \<lparr>eu_id = Some ''u1'', eu_tenantId = Some ''t1''\<rparr>
          (Some google) (Some False)) db_two_users
     = (Inr (), Some (Thrown AuditLog_create), db_two_users)"
    by blast
  from inst hout have "eventsErrorHandler (event_signOut (env_failing AuditLog_create) (Some owner_token))
             db_two_users
     = (Inr (), Some (Thrown AuditLog_create),
        db_two_users\<lparr>deviceSessions :=
                 map (\<lambda>s. if ds_userId s = ''u1'' \<and> ds_active s = True
                          then s\<lparr>ds_active := False,
                                 ds_lastSeen := clock (env_failing AuditLog_create) 0\<rparr> else s)
                   (deviceSessions db_two_users)\<rparr>)"
    by blast
  then have r2: "eventsErrorHandler (event_signOut (env_failing AuditLog_create) (Some owner_token))
             db_two_users
     = (Inr (), Some (Thrown AuditLog_create),
        db_two_users\<lparr>deviceSessions :=
          [web_session ''u1'' ''aa'' False issued, web_session ''u2'' ''ee'' True 6,
           web_session ''u1'' ''bb'' False 3, web_session ''u1'' ''cc'' False issued]\<rparr>)"
    by (simp only: marked)
  show ?thesis
    using r1 r2 by (intro conjI)
qed

section \<open>Two attempts with one code\<close>


text \<open>Four steps of one request with nothing in between are the function itself.\<close>

lemma interleave_First_alone:
  assumes "email \<noteq> []" "otp \<noteq> []"
  shows "interleave e1 e2 email otp (First # First # First # First # rs) (Before_findFirst, p2, d) =
         interleave e1 e2 email otp rs
           (Returned (fst (authorize_email_otp e1 (Some \<lparr>cred_email = Some email, cred_otp = Some otp\<rparr>) d)),
            p2,
            snd (authorize_email_otp e1 (Some \<lparr>cred_email = Some email, cred_otp = Some otp\<rparr>) d))"
  using assms
  by (simp add: authorize_email_otp_step_def authorize_email_otp_def
      split: sum.splits option.splits prod.splits)

lemma interleave_Second_alone:
  assumes "email \<noteq> []" "otp \<noteq> []"
  shows "interleave e1 e2 email otp (Second # Second # Second # Second # rs) (p1, Before_findFirst, d) =
         interleave e1 e2 email otp rs
           (p1,
            Returned (fst (authorize_email_otp e2 (Some \<lparr>cred_email = Some email, cred_otp = Some otp\<rparr>) d)),
            snd (authorize_email_otp e2 (Some \<lparr>cred_email = Some email, cred_otp = Some otp\<rparr>) d))"
  using assms
  by (simp add: authorize_email_otp_step_def authorize_email_otp_def
      split: sum.splits option.splits prod.splits)




text \<open>No unverified row holds the code: no step changes that, and a lookup finds nothing.\<close>

lemma step_keeps_code_spent:
  assumes "code_spent email otp d"
  shows "code_spent email otp (snd (authorize_email_otp_step e email' otp' (pos, d)))"
proof -
  have "set ((otpVerifications d)[i := (otpVerifications d ! i)\<lparr>otp_verified := True\<rparr>])
          \<subseteq> insert ((otpVerifications d ! i)\<lparr>otp_verified := True\<rparr>) (set (otpVerifications d))" for i
    by (rule set_update_subset_insert)
  with assms have upd: "code_spent email otp
      (d\<lparr>otpVerifications := (otpVerifications d)[i := (otpVerifications d ! i)\<lparr>otp_verified := True\<rparr>]\<rparr>)" for i
    by (fastforce simp: code_spent_def)
  from assms have usr: "code_spent email otp (d\<lparr>users := us\<rparr>)" for us
    by (simp add: code_spent_def)
  show ?thesis
    using assms upd usr
    by (cases pos)
       (auto simp: authorize_email_otp_step_def oTPVerification_findFirst_def
          oTPVerification_update_verified_def user_findUnique_email_def user_create_def Let_def
          split: option.splits)
qed

lemma lookup_after_code_spent:
  assumes "code_spent email otp d"
  shows "authorize_email_otp_step e email otp (Before_findFirst, d) = (Returned None, d)"
proof -
  from assms have "first_index (email_otp_filter email otp (clock e 0)) (otpVerifications d) = None"
    by (auto simp: first_index_None_iff code_spent_def email_otp_filter_def)
  then show ?thesis
    by (simp add: authorize_email_otp_step_def oTPVerification_findFirst_def)
qed

lemma interleave_keeps_one_winner:
  "one_winner email otp s \<Longrightarrow> one_winner email otp (interleave e1 e2 email otp rs s)"
proof (induction rs arbitrary: s)
  case Nil
  then show ?case by simp
next
  case (Cons r rs)
  obtain p1 p2 d where s: "s = (p1, p2, d)" by (cases s)
  show ?case
  proof (cases r)
    case First
    obtain p1' d' where st: "authorize_email_otp_step e1 email otp (p1, d) = (p1', d')"
      by (cases "authorize_email_otp_step e1 email otp (p1, d)")
    have "one_winner email otp (p1', p2, d')"
    proof (cases "p1 = Returned None")
      case True
      with st show ?thesis
        by (simp add: authorize_email_otp_step_def one_winner_def)
    next
      case False
      with Cons.prems s have c: "code_spent email otp d"
        and p: "p2 = Before_findFirst \<or> p2 = Returned None"
        by (auto simp: one_winner_def)
      from step_keeps_code_spent [OF c, of e1 email otp p1] st
      have "code_spent email otp d'" by simp
      with p show ?thesis by (simp add: one_winner_def)
    qed
    with Cons.IH [of "(p1', p2, d')"] s First st show ?thesis by simp
  next
    case Second
    obtain p2' d' where st: "authorize_email_otp_step e2 email otp (p2, d) = (p2', d')"
      by (cases "authorize_email_otp_step e2 email otp (p2, d)")
    have "one_winner email otp (p1, p2', d')"
    proof (cases "p1 = Returned None")
      case True
      then show ?thesis by (simp add: one_winner_def)
    next
      case False
      with Cons.prems s have c: "code_spent email otp d"
        and p: "p2 = Before_findFirst \<or> p2 = Returned None"
        by (auto simp: one_winner_def)
      from p show ?thesis
      proof
        assume "p2 = Before_findFirst"
        with lookup_after_code_spent [OF c, of e2] st c show ?thesis
          by (simp add: one_winner_def)
      next
        assume "p2 = Returned None"
        with st c show ?thesis
          by (simp add: authorize_email_otp_step_def one_winner_def)
      qed
    qed
    with Cons.IH [of "(p1, p2', d')"] s Second st show ?thesis by simp
  qed
qed

text \<open>After the first request's lookup and update, the code is spent or the request has failed.\<close>

lemma first_two_steps:
  assumes one: "length (filter (\<lambda>r. otp_email r = Some email \<and> otp_code r = otp \<and> otp_kind r = EMAIL
                               \<and> \<not> otp_verified r) (otpVerifications d)) \<le> 1"
  shows "one_winner email otp
           (interleave e1 e2 email otp [First, First] (Before_findFirst, Before_findFirst, d))"
proof (cases "oTPVerification_findFirst e1 (email_otp_filter email otp (clock e1 0)) d")
  case (Inl err)
  then have "authorize_email_otp_step e1 email otp (Before_findFirst, d) = (Returned None, d)"
    by (simp add: authorize_email_otp_step_def)
  moreover have "authorize_email_otp_step e1 email otp (Returned None, d) = (Returned None, d)"
    by (simp add: authorize_email_otp_step_def)
  ultimately show ?thesis
    by (simp add: one_winner_def)
next
  case (Inr found)
  show ?thesis
  proof (cases found)
    case None
    with Inr have "authorize_email_otp_step e1 email otp (Before_findFirst, d) = (Returned None, d)"
      by (simp add: authorize_email_otp_step_def)
    moreover have "authorize_email_otp_step e1 email otp (Returned None, d) = (Returned None, d)"
      by (simp add: authorize_email_otp_step_def)
    ultimately show ?thesis
      by (simp add: one_winner_def)
  next
    case (Some i)
    with Inr have s1: "authorize_email_otp_step e1 email otp (Before_findFirst, d) = (Before_update i, d)"
      by (simp add: authorize_email_otp_step_def)
    from Inr Some have i: "first_index (email_otp_filter email otp (clock e1 0)) (otpVerifications d) = Some i"
      by (simp add: oTPVerification_findFirst_def split: if_splits)
    from first_index_Some [OF i] have il: "i < length (otpVerifications d)"
      and im: "email_otp_filter email otp (clock e1 0) (otpVerifications d ! i)" by simp_all
    let ?Q = "\<lambda>r. otp_email r = Some email \<and> otp_code r = otp \<and> otp_kind r = EMAIL \<and> \<not> otp_verified r"
    let ?m = "(otpVerifications d ! i)\<lparr>otp_verified := True\<rparr>"
    let ?d1 = "d\<lparr>otpVerifications := (otpVerifications d)[i := ?m]\<rparr>"
    from im have qi: "?Q (otpVerifications d ! i)"
      by (simp add: email_otp_filter_def)
    have qm: "\<not> ?Q ?m" by simp
    have "first_index ?Q ((otpVerifications d)[i := ?m]) = None"
      by (rule marked_none_left [where Q = ?Q and F = ?Q, OF one il qi]) simp_all
    then have spent: "code_spent email otp ?d1"
      by (simp add: first_index_None_iff code_spent_def)
    show ?thesis
    proof (cases "faults e1 OTP_update")
      case True
      then have "authorize_email_otp_step e1 email otp (Before_update i, d) = (Returned None, d)"
        by (simp add: authorize_email_otp_step_def oTPVerification_update_verified_def)
      with s1 show ?thesis by (simp add: one_winner_def)
    next
      case False
      with il have "authorize_email_otp_step e1 email otp (Before_update i, d) = (Before_findUnique, ?d1)"
        by (simp add: authorize_email_otp_step_def oTPVerification_update_verified_def)
      with s1 spent show ?thesis by (simp add: one_winner_def)
    qed
  qed
qed


text \<open>
  Both lookups before both updates, for a user the store already has: each lookup finds a
  row, each update marks the row it was given, and each user lookup returns the user.
\<close>

lemma lookup_step_finds:
  assumes "\<exists>r \<in> set (otpVerifications d). email_otp_filter email otp (clock e 0) r"
    and "\<not> faults e OTP_findFirst"
  shows "\<exists>i. i < length (otpVerifications d)
            \<and> authorize_email_otp_step e email otp (Before_findFirst, d) = (Before_update i, d)"
proof -
  from assms(1) obtain i where
    i: "first_index (email_otp_filter email otp (clock e 0)) (otpVerifications d) = Some i"
    by (cases "first_index (email_otp_filter email otp (clock e 0)) (otpVerifications d)")
       (auto simp: first_index_None_iff)
  from first_index_Some [OF i] have "i < length (otpVerifications d)" by simp
  moreover from i assms(2)
  have "authorize_email_otp_step e email otp (Before_findFirst, d) = (Before_update i, d)"
    by (simp add: authorize_email_otp_step_def oTPVerification_findFirst_def)
  ultimately show ?thesis by blast
qed

lemma update_step_marks:
  assumes "i < length (otpVerifications d)" and "\<not> faults e OTP_update"
  shows "authorize_email_otp_step e email otp (Before_update i, d) =
           (Before_findUnique,
            d\<lparr>otpVerifications :=
                (otpVerifications d)[i := (otpVerifications d ! i)\<lparr>otp_verified := True\<rparr>]\<rparr>)"
  using assms
  by (simp add: authorize_email_otp_step_def oTPVerification_update_verified_def)

lemma findUnique_step_known:
  assumes "find (\<lambda>v. user_email v = Some email) (users d) = Some u"
    and "\<not> faults e User_findUnique"
  shows "authorize_email_otp_step e email otp (Before_findUnique, d) =
           (Returned (Some (returned_user u)), d)"
  using assms
  by (simp add: authorize_email_otp_step_def user_findUnique_email_def)

lemma returned_step:
  "authorize_email_otp_step e email otp (Returned r, d) = (Returned r, d)"
  by (simp add: authorize_email_otp_step_def)

lemma both_lookups_then_both_updates:
  assumes r1: "\<exists>r \<in> set (otpVerifications d). email_otp_filter email otp (clock e1 0) r"
    and r2: "\<exists>r \<in> set (otpVerifications d). email_otp_filter email otp (clock e2 0) r"
    and f1: "\<not> faults e1 OTP_findFirst" "\<not> faults e1 OTP_update"
    and f2: "\<not> faults e2 OTP_findFirst" "\<not> faults e2 OTP_update"
    and ab: "a \<noteq> b" and cf: "c \<noteq> f"
  shows "\<exists>d2. users d2 = users d
           \<and> interleave e1 e2 email otp (a # b # c # f # rs) (Before_findFirst, Before_findFirst, d)
             = interleave e1 e2 email otp rs (Before_findUnique, Before_findUnique, d2)"
proof -
  from lookup_step_finds [OF r1 f1(1)] obtain i where
    il: "i < length (otpVerifications d)"
    and si: "authorize_email_otp_step e1 email otp (Before_findFirst, d) = (Before_update i, d)"
    by blast
  from lookup_step_finds [OF r2 f2(1)] obtain j where
    jl: "j < length (otpVerifications d)"
    and sj: "authorize_email_otp_step e2 email otp (Before_findFirst, d) = (Before_update j, d)"
    by blast
  let ?di = "d\<lparr>otpVerifications :=
                (otpVerifications d)[i := (otpVerifications d ! i)\<lparr>otp_verified := True\<rparr>]\<rparr>"
  let ?dj = "d\<lparr>otpVerifications :=
                (otpVerifications d)[j := (otpVerifications d ! j)\<lparr>otp_verified := True\<rparr>]\<rparr>"
  let ?dij = "?di\<lparr>otpVerifications :=
                (otpVerifications ?di)[j := (otpVerifications ?di ! j)\<lparr>otp_verified := True\<rparr>]\<rparr>"
  let ?dji = "?dj\<lparr>otpVerifications :=
                (otpVerifications ?dj)[i := (otpVerifications ?dj ! i)\<lparr>otp_verified := True\<rparr>]\<rparr>"
  from il f1(2) have ui: "authorize_email_otp_step e1 email otp (Before_update i, d)
                            = (Before_findUnique, ?di)"
    by (rule update_step_marks)
  from jl f2(2) have uj: "authorize_email_otp_step e2 email otp (Before_update j, d)
                            = (Before_findUnique, ?dj)"
    by (rule update_step_marks)
  from jl have "j < length (otpVerifications ?di)" by simp
  from this f2(2) have uij: "authorize_email_otp_step e2 email otp (Before_update j, ?di)
                            = (Before_findUnique, ?dij)"
    by (rule update_step_marks)
  from il have "i < length (otpVerifications ?dj)" by simp
  from this f1(2) have uji: "authorize_email_otp_step e1 email otp (Before_update i, ?dj)
                            = (Before_findUnique, ?dji)"
    by (rule update_step_marks)
  from ab have lookups: "interleave e1 e2 email otp (a # b # c # f # rs)
                           (Before_findFirst, Before_findFirst, d)
                         = interleave e1 e2 email otp (c # f # rs) (Before_update i, Before_update j, d)"
    by (cases a; cases b) (simp_all add: si sj)
  show ?thesis
  proof (cases c)
    case First
    with cf have "f = Second" by (cases f) simp_all
    with First have "interleave e1 e2 email otp (c # f # rs) (Before_update i, Before_update j, d)
                     = interleave e1 e2 email otp rs (Before_findUnique, Before_findUnique, ?dij)"
      by (simp add: ui uij)
    with lookups have "users ?dij = users d
         \<and> interleave e1 e2 email otp (a # b # c # f # rs) (Before_findFirst, Before_findFirst, d)
             = interleave e1 e2 email otp rs (Before_findUnique, Before_findUnique, ?dij)"
      by simp
    then show ?thesis by (rule exI)
  next
    case Second
    with cf have "f = First" by (cases f) simp_all
    with Second have "interleave e1 e2 email otp (c # f # rs) (Before_update i, Before_update j, d)
                     = interleave e1 e2 email otp rs (Before_findUnique, Before_findUnique, ?dji)"
      by (simp add: uj uji)
    with lookups have "users ?dji = users d
         \<and> interleave e1 e2 email otp (a # b # c # f # rs) (Before_findFirst, Before_findFirst, d)
             = interleave e1 e2 email otp rs (Before_findUnique, Before_findUnique, ?dji)"
      by simp
    then show ?thesis by (rule exI)
  qed
qed

lemma known_user_rest:
  assumes u: "find (\<lambda>v. user_email v = Some email) (users d) = Some u"
    and f1: "\<not> faults e1 User_findUnique" and f2: "\<not> faults e2 User_findUnique"
  shows "p1 = Before_findUnique \<or> p1 = Returned (Some (returned_user u)) \<Longrightarrow>
         p2 = Before_findUnique \<or> p2 = Returned (Some (returned_user u)) \<Longrightarrow>
         interleave e1 e2 email otp rs (p1, p2, d) =
           (if First \<in> set rs then Returned (Some (returned_user u)) else p1,
            if Second \<in> set rs then Returned (Some (returned_user u)) else p2,
            d)"
proof (induction rs arbitrary: p1 p2)
  case Nil
  then show ?case by simp
next
  case (Cons r rs)
  show ?case
  proof (cases r)
    case First
    from Cons.prems(1)
    have st: "authorize_email_otp_step e1 email otp (p1, d) = (Returned (Some (returned_user u)), d)"
      by (auto simp: findUnique_step_known [OF u f1] returned_step)
    from Cons.IH [where ?p1.0 = "Returned (Some (returned_user u))" and ?p2.0 = p2] Cons.prems(2)
    show ?thesis
      by (simp add: First st)
  next
    case Second
    from Cons.prems(2)
    have st: "authorize_email_otp_step e2 email otp (p2, d) = (Returned (Some (returned_user u)), d)"
      by (auto simp: findUnique_step_known [OF u f2] returned_step)
    from Cons.IH [where ?p1.0 = p1 and ?p2.0 = "Returned (Some (returned_user u))"] Cons.prems(1)
    show ?thesis
      by (simp add: Second st)
  qed
qed

lemma both_succeed_for_known_user:
  assumes r1: "\<exists>r \<in> set (otpVerifications d). email_otp_filter email otp (clock e1 0) r"
    and r2: "\<exists>r \<in> set (otpVerifications d). email_otp_filter email otp (clock e2 0) r"
    and u: "find (\<lambda>v. user_email v = Some email) (users d) = Some u"
    and f1: "\<not> faults e1 OTP_findFirst" "\<not> faults e1 OTP_update" "\<not> faults e1 User_findUnique"
    and f2: "\<not> faults e2 OTP_findFirst" "\<not> faults e2 OTP_update" "\<not> faults e2 User_findUnique"
    and ab: "a \<noteq> b" and cf: "c \<noteq> f"
    and rs: "First \<in> set rs" "Second \<in> set rs"
  shows "fst (interleave e1 e2 email otp (a # b # c # f # rs) (Before_findFirst, Before_findFirst, d))
           = Returned (Some (returned_user u))"
    and "fst (snd (interleave e1 e2 email otp (a # b # c # f # rs)
                     (Before_findFirst, Before_findFirst, d)))
           = Returned (Some (returned_user u))"
proof -
  from both_lookups_then_both_updates [OF r1 r2 f1(1,2) f2(1,2) ab cf, where rs = rs]
  obtain d2 where ud: "users d2 = users d"
    and pre: "interleave e1 e2 email otp (a # b # c # f # rs) (Before_findFirst, Before_findFirst, d)
              = interleave e1 e2 email otp rs (Before_findUnique, Before_findUnique, d2)"
    by blast
  from u ud have u2: "find (\<lambda>v. user_email v = Some email) (users d2) = Some u" by simp
  from known_user_rest [OF u2 f1(3) f2(3), where ?p1.0 = Before_findUnique
      and ?p2.0 = Before_findUnique and rs = rs] rs
  have "interleave e1 e2 email otp rs (Before_findUnique, Before_findUnique, d2)
          = (Returned (Some (returned_user u)), Returned (Some (returned_user u)), d2)"
    by simp
  with pre show "fst (interleave e1 e2 email otp (a # b # c # f # rs)
                        (Before_findFirst, Before_findFirst, d))
                   = Returned (Some (returned_user u))"
    and "fst (snd (interleave e1 e2 email otp (a # b # c # f # rs)
                     (Before_findFirst, Before_findFirst, d)))
           = Returned (Some (returned_user u))"
    by simp_all
qed

text \<open>
  Claim C8 (as amended). Two attempts present the same email and code. When they run one
  after the other, the outcome is that of calling \<^verbatim>\<open>authorize\<close> twice in a row. When at
  most one unverified row holds the code and the first attempt's lookup and update both run
  before the second attempt's lookup, then however the remaining steps interleave and
  whichever calls fail, the two attempts do not both succeed. When both lookups run before
  both updates, the user already exists, a row passes the filter at the clock reading of
  each lookup, and the lookup, the update and the user lookup of both attempts answer, then,
  the rest of the schedule giving each attempt at least its third step, both attempts
  return the user, however those steps interleave and whether one row holds the code or
  several.
\<close>

theorem otp_single_winner_when_update_precedes_lookup:
  "(email \<noteq> [] \<and> otp \<noteq> [] \<longrightarrow>
      interleave e1 e2 email otp
        [First, First, First, First, Second, Second, Second, Second]
        (Before_findFirst, Before_findFirst, d) =
      (Returned (fst (authorize_email_otp e1 (Some \<lparr>cred_email = Some email, cred_otp = Some otp\<rparr>) d)),
       Returned (fst (authorize_email_otp e2 (Some \<lparr>cred_email = Some email, cred_otp = Some otp\<rparr>)
                  (snd (authorize_email_otp e1 (Some \<lparr>cred_email = Some email, cred_otp = Some otp\<rparr>) d)))),
       snd (authorize_email_otp e2 (Some \<lparr>cred_email = Some email, cred_otp = Some otp\<rparr>)
                  (snd (authorize_email_otp e1 (Some \<lparr>cred_email = Some email, cred_otp = Some otp\<rparr>) d)))))
 \<and> (length (filter (\<lambda>r. otp_email r = Some email \<and> otp_code r = otp \<and> otp_kind r = EMAIL
                          \<and> \<not> otp_verified r) (otpVerifications d)) \<le> 1
    \<longrightarrow> \<not> (succeeded (fst (interleave e1 e2 email otp (First # First # rs)
                               (Before_findFirst, Before_findFirst, d)))
          \<and> succeeded (fst (snd (interleave e1 e2 email otp (First # First # rs)
                               (Before_findFirst, Before_findFirst, d))))))
 \<and> ((\<exists>r \<in> set (otpVerifications d). email_otp_filter email otp (clock e1 0) r)
    \<and> (\<exists>r \<in> set (otpVerifications d). email_otp_filter email otp (clock e2 0) r)
    \<and> find (\<lambda>v. user_email v = Some email) (users d) = Some u
    \<and> \<not> faults e1 OTP_findFirst \<and> \<not> faults e1 OTP_update \<and> \<not> faults e1 User_findUnique
    \<and> \<not> faults e2 OTP_findFirst \<and> \<not> faults e2 OTP_update \<and> \<not> faults e2 User_findUnique
    \<and> a \<noteq> b \<and> c \<noteq> f \<and> First \<in> set qs \<and> Second \<in> set qs
    \<longrightarrow> fst (interleave e1 e2 email otp (a # b # c # f # qs)
               (Before_findFirst, Before_findFirst, d)) = Returned (Some (returned_user u))
      \<and> fst (snd (interleave e1 e2 email otp (a # b # c # f # qs)
               (Before_findFirst, Before_findFirst, d))) = Returned (Some (returned_user u))
      \<and> succeeded (fst (interleave e1 e2 email otp (a # b # c # f # qs)
               (Before_findFirst, Before_findFirst, d)))
      \<and> succeeded (fst (snd (interleave e1 e2 email otp (a # b # c # f # qs)
               (Before_findFirst, Before_findFirst, d)))))"
proof (intro conjI impI)
  assume "email \<noteq> [] \<and> otp \<noteq> []"
  then have ne: "email \<noteq> []" "otp \<noteq> []" by simp_all
  show "interleave e1 e2 email otp
        [First, First, First, First, Second, Second, Second, Second]
        (Before_findFirst, Before_findFirst, d) =
      (Returned (fst (authorize_email_otp e1 (Some \<lparr>cred_email = Some email, cred_otp = Some otp\<rparr>) d)),
       Returned (fst (authorize_email_otp e2 (Some \<lparr>cred_email = Some email, cred_otp = Some otp\<rparr>)
                  (snd (authorize_email_otp e1 (Some \<lparr>cred_email = Some email, cred_otp = Some otp\<rparr>) d)))),
       snd (authorize_email_otp e2 (Some \<lparr>cred_email = Some email, cred_otp = Some otp\<rparr>)
                  (snd (authorize_email_otp e1 (Some \<lparr>cred_email = Some email, cred_otp = Some otp\<rparr>) d))))"
    unfolding interleave_First_alone [OF ne] interleave_Second_alone [OF ne]
    by (simp only: interleave.simps(1))
next
  assume one: "length (filter (\<lambda>r. otp_email r = Some email \<and> otp_code r = otp \<and> otp_kind r = EMAIL
                          \<and> \<not> otp_verified r) (otpVerifications d)) \<le> 1"
  let ?s2 = "interleave e1 e2 email otp [First, First] (Before_findFirst, Before_findFirst, d)"
  have split: "interleave e1 e2 email otp (First # First # rs) (Before_findFirst, Before_findFirst, d)
               = interleave e1 e2 email otp rs ?s2"
    by (simp split: prod.splits)
  from first_two_steps [OF one] have "one_winner email otp ?s2" .
  then have "one_winner email otp (interleave e1 e2 email otp rs ?s2)"
    by (rule interleave_keeps_one_winner)
  then show "\<not> (succeeded (fst (interleave e1 e2 email otp (First # First # rs)
                               (Before_findFirst, Before_findFirst, d)))
          \<and> succeeded (fst (snd (interleave e1 e2 email otp (First # First # rs)
                               (Before_findFirst, Before_findFirst, d)))))"
    unfolding split
    by (auto simp: one_winner_def succeeded_def split: prod.splits)
next
  assume h: "(\<exists>r \<in> set (otpVerifications d). email_otp_filter email otp (clock e1 0) r)
    \<and> (\<exists>r \<in> set (otpVerifications d). email_otp_filter email otp (clock e2 0) r)
    \<and> find (\<lambda>v. user_email v = Some email) (users d) = Some u
    \<and> \<not> faults e1 OTP_findFirst \<and> \<not> faults e1 OTP_update \<and> \<not> faults e1 User_findUnique
    \<and> \<not> faults e2 OTP_findFirst \<and> \<not> faults e2 OTP_update \<and> \<not> faults e2 User_findUnique
    \<and> a \<noteq> b \<and> c \<noteq> f \<and> First \<in> set qs \<and> Second \<in> set qs"
  then have r1: "\<exists>r \<in> set (otpVerifications d). email_otp_filter email otp (clock e1 0) r"
    and r2: "\<exists>r \<in> set (otpVerifications d). email_otp_filter email otp (clock e2 0) r"
    and u: "find (\<lambda>v. user_email v = Some email) (users d) = Some u"
    and f1: "\<not> faults e1 OTP_findFirst" "\<not> faults e1 OTP_update" "\<not> faults e1 User_findUnique"
    and f2: "\<not> faults e2 OTP_findFirst" "\<not> faults e2 OTP_update" "\<not> faults e2 User_findUnique"
    and ab: "a \<noteq> b" and cf: "c \<noteq> f"
    and qs: "First \<in> set qs" "Second \<in> set qs"
    by blast+
  note both = both_succeed_for_known_user [OF r1 r2 u f1 f2 ab cf qs]
  from both(1)
  show "fst (interleave e1 e2 email otp (a # b # c # f # qs)
               (Before_findFirst, Before_findFirst, d)) = Returned (Some (returned_user u))" .
  from both(2)
  show "fst (snd (interleave e1 e2 email otp (a # b # c # f # qs)
               (Before_findFirst, Before_findFirst, d))) = Returned (Some (returned_user u))" .
  from both(1)
  show "succeeded (fst (interleave e1 e2 email otp (a # b # c # f # qs)
               (Before_findFirst, Before_findFirst, d)))"
    by (simp add: succeeded_def)
  from both(2)
  show "succeeded (fst (snd (interleave e1 e2 email otp (a # b # c # f # qs)
               (Before_findFirst, Before_findFirst, d))))"
    by (simp add: succeeded_def)
qed

lemmas step_defs = authorize_email_otp_step_def oTPVerification_findFirst_def
  oTPVerification_update_verified_def user_findUnique_email_def user_create_def
  email_otp_filter_def returned_user_def Let_def

text \<open>
  Claim C8 as stated fails: one unverified row holds the code and both attempts succeed. Both
  lookups run before either update, each update marks the row it was given, the first
  attempt creates the user and the second finds it.
\<close>

theorem otp_race_both_succeed_counterexample:
  "length (filter (\<lambda>r. otp_email r = Some ''guest@example.com'' \<and> otp_code r = ''731905''
                       \<and> otp_kind r = EMAIL \<and> \<not> otp_verified r) (otpVerifications db_issued)) = 1
   \<and> interleave (env_at (issued + 120000)) (env_at (issued + 120500))
        ''guest@example.com'' ''731905''
        [First, Second, First, Second, First, First, Second]
        (Before_findFirst, Before_findFirst, db_issued) =
      (Returned (Some (returned_user email_customer)),
       Returned (Some (returned_user email_customer)),
       db_issued\<lparr>users := [email_customer], otpVerifications :=
         [sms_otp ''+15551234567'' ''482913'' (issued + 600000) False,
          email_otp ''guest@example.com'' ''731905'' (issued + 600000) True]\<rparr>)"
  by (simp add: step_defs example_defs)

text \<open>
  For a new user the outcome of that race depends on the rest of the schedule: when both
  user lookups run before either \<^verbatim>\<open>user.create\<close>, the second create meets the unique email
  and that attempt returns \<^verbatim>\<open>null\<close>.
\<close>

lemma interleave_second_create_rejected:
  "interleave (env_at (issued + 120000)) (env_at (issued + 120500))
        ''guest@example.com'' ''731905''
        [First, Second, First, Second, First, Second, First, Second]
        (Before_findFirst, Before_findFirst, db_issued) =
      (Returned (Some (returned_user email_customer)),
       Returned None,
       db_issued\<lparr>users := [email_customer], otpVerifications :=
         [sms_otp ''+15551234567'' ''482913'' (issued + 600000) False,
          email_otp ''guest@example.com'' ''731905'' (issued + 600000) True]\<rparr>)"
  by (simp add: step_defs example_defs)

text \<open>
  One after the other on the store with one email code: the first attempt returns the new
  user, the second returns \<^verbatim>\<open>null\<close>; with the first attempt's lookup and update ahead
  of an interleaved rest, not both succeed; and for the guest who already has an account,
  lookup, lookup, update, update and an interleaved rest, both attempts return the guest.
\<close>

theorem otp_single_winner_when_update_precedes_lookup_witness:
  "interleave (env_at (issued + 120000)) (env_at (issued + 120500))
        ''guest@example.com'' ''731905''
        [First, First, First, First, Second, Second, Second, Second]
        (Before_findFirst, Before_findFirst, db_issued) =
      (Returned (Some (returned_user email_customer)),
       Returned None,
       db_issued\<lparr>users := [email_customer], otpVerifications :=
         [sms_otp ''+15551234567'' ''482913'' (issued + 600000) False,
          email_otp ''guest@example.com'' ''731905'' (issued + 600000) True]\<rparr>)
   \<and> \<not> (succeeded (fst (interleave (env_at (issued + 120000)) (env_at (issued + 120500))
                        ''guest@example.com'' ''731905''
                        [First, First, Second, First, Second, First, Second]
                        (Before_findFirst, Before_findFirst, db_issued)))
        \<and> succeeded (fst (snd (interleave (env_at (issued + 120000)) (env_at (issued + 120500))
                        ''guest@example.com'' ''731905''
                        [First, First, Second, First, Second, First, Second]
                        (Before_findFirst, Before_findFirst, db_issued)))))
   \<and> length (filter (\<lambda>r. otp_email r = Some ''guest@example.com'' \<and> otp_code r = ''731905''
                       \<and> otp_kind r = EMAIL \<and> \<not> otp_verified r)
               (otpVerifications db_issued_known_guest)) = 1
   \<and> fst (interleave (env_at (issued + 120000)) (env_at (issued + 120500))
            ''guest@example.com'' ''731905''
            [First, Second, First, Second, Second, First]
            (Before_findFirst, Before_findFirst, db_issued_known_guest))
       = Returned (Some (returned_user guest))
   \<and> fst (snd (interleave (env_at (issued + 120000)) (env_at (issued + 120500))
            ''guest@example.com'' ''731905''
            [First, Second, First, Second, Second, First]
            (Before_findFirst, Before_findFirst, db_issued_known_guest)))
       = Returned (Some (returned_user guest))"
proof -
  let ?c = "Some \<lparr>cred_email = Some ''guest@example.com'', cred_otp = Some ''731905''\<rparr>"
  let ?d1 = "db_issued\<lparr>users := [email_customer], otpVerifications :=
         [sms_otp ''+15551234567'' ''482913'' (issued + 600000) False,
          email_otp ''guest@example.com'' ''731905'' (issued + 600000) True]\<rparr>"
  have ne: "''guest@example.com'' \<noteq> [] \<and> ''731905'' \<noteq> []"
    by simp
  have one: "length (filter (\<lambda>r. otp_email r = Some ''guest@example.com'' \<and> otp_code r = ''731905''
                          \<and> otp_kind r = EMAIL \<and> \<not> otp_verified r) (otpVerifications db_issued)) \<le> 1"
    by (simp add: example_defs)
  have a1: "authorize_email_otp (env_at (issued + 120000)) ?c db_issued
              = (Some (returned_user email_customer), ?d1)"
    by (simp add: authorize_defs example_defs)
  have a2: "authorize_email_otp (env_at (issued + 120500)) ?c ?d1 = (None, ?d1)"
    by (simp add: authorize_defs example_defs)
  have g1: "length (filter (\<lambda>r. otp_email r = Some ''guest@example.com'' \<and> otp_code r = ''731905''
                       \<and> otp_kind r = EMAIL \<and> \<not> otp_verified r)
               (otpVerifications db_issued_known_guest)) = 1"
    by (simp add: db_issued_known_guest_def example_defs)
  have known: "(\<exists>r \<in> set (otpVerifications db_issued_known_guest).
                  email_otp_filter ''guest@example.com'' ''731905'' (clock (env_at (issued + 120000)) 0) r)
    \<and> (\<exists>r \<in> set (otpVerifications db_issued_known_guest).
                  email_otp_filter ''guest@example.com'' ''731905'' (clock (env_at (issued + 120500)) 0) r)
    \<and> find (\<lambda>v. user_email v = Some ''guest@example.com'') (users db_issued_known_guest) = Some guest
    \<and> \<not> faults (env_at (issued + 120000)) OTP_findFirst
    \<and> \<not> faults (env_at (issued + 120000)) OTP_update
    \<and> \<not> faults (env_at (issued + 120000)) User_findUnique
    \<and> \<not> faults (env_at (issued + 120500)) OTP_findFirst
    \<and> \<not> faults (env_at (issued + 120500)) OTP_update
    \<and> \<not> faults (env_at (issued + 120500)) User_findUnique
    \<and> First \<noteq> Second \<and> First \<noteq> Second \<and> First \<in> set [Second, First] \<and> Second \<in> set [Second, First]"
    by (simp add: email_otp_filter_def db_issued_known_guest_def example_defs)
  note serial = otp_single_winner_when_update_precedes_lookup
    [where email = "''guest@example.com''" and otp = "''731905''"
       and ?e1.0 = "env_at (issued + 120000)" and ?e2.0 = "env_at (issued + 120500)"
       and d = db_issued and rs = "[Second, First, Second, First, Second]"]
  note race = otp_single_winner_when_update_precedes_lookup
    [where email = "''guest@example.com''" and otp = "''731905''"
       and ?e1.0 = "env_at (issued + 120000)" and ?e2.0 = "env_at (issued + 120500)"
       and d = db_issued_known_guest and u = guest
       and a = First and b = Second and c = First and f = Second and qs = "[Second, First]"]
  from serial ne have r1: "interleave (env_at (issued + 120000)) (env_at (issued + 120500))
        ''guest@example.com'' ''731905''
        [First, First, First, First, Second, Second, Second, Second]
        (Before_findFirst, Before_findFirst, db_issued) =
      (Returned (Some (returned_user email_customer)), Returned None, ?d1)"
    by (simp add: a1 a2)
  from serial one have r2: "\<not> (succeeded (fst (interleave (env_at (issued + 120000)) (env_at (issued + 120500))
                        ''guest@example.com'' ''731905''
                        [First, First, Second, First, Second, First, Second]
                        (Before_findFirst, Before_findFirst, db_issued)))
        \<and> succeeded (fst (snd (interleave (env_at (issued + 120000)) (env_at (issued + 120500))
                        ''guest@example.com'' ''731905''
                        [First, First, Second, First, Second, First, Second]
                        (Before_findFirst, Before_findFirst, db_issued)))))"
    by blast
  from race known have r3: "fst (interleave (env_at (issued + 120000)) (env_at (issued + 120500))
            ''guest@example.com'' ''731905''
            [First, Second, First, Second, Second, First]
            (Before_findFirst, Before_findFirst, db_issued_known_guest))
       = Returned (Some (returned_user guest))"
    and r4: "fst (snd (interleave (env_at (issued + 120000)) (env_at (issued + 120500))
            ''guest@example.com'' ''731905''
            [First, Second, First, Second, Second, First]
            (Before_findFirst, Before_findFirst, db_issued_known_guest)))
       = Returned (Some (returned_user guest))"
    by blast+
  show ?thesis
    using r1 r2 g1 r3 r4 by (intro conjI)
qed

section \<open>Rounding to a double\<close>

declare bit_length.simps [simp del] toString.simps [simp del]

lemma bit_length_le_iff: "bit_length n \<le> b \<longleftrightarrow> n < 2 ^ b"
proof (induction n arbitrary: b rule: bit_length.induct)
  case (1 n)
  show ?case
  proof (cases "n = 0")
    case True
    then show ?thesis by (simp add: bit_length.simps)
  next
    case False
    show ?thesis
    proof (cases b)
      case 0
      with False show ?thesis by (simp add: bit_length.simps)
    next
      case (Suc c)
      from False have "bit_length n \<le> Suc c \<longleftrightarrow> bit_length (n div 2) \<le> c"
        by (simp add: bit_length.simps [of n])
      also from 1 [OF False] have "\<dots> \<longleftrightarrow> n div 2 < 2 ^ c" .
      also have "\<dots> \<longleftrightarrow> n < 2 ^ Suc c" by auto
      finally show ?thesis using Suc by simp
    qed
  qed
qed

lemma bit_length_gt_iff: "b < bit_length n \<longleftrightarrow> 2 ^ b \<le> n"
  using bit_length_le_iff [of n b] by auto

lemma bit_length_shift: "0 < n \<Longrightarrow> bit_length (n * 2 ^ j) = bit_length n + j"
proof (rule antisym)
  assume "0 < n"
  have "n < 2 ^ bit_length n" using bit_length_le_iff [of n "bit_length n"] by simp
  then have "n * 2 ^ j < 2 ^ (bit_length n + j)" by (simp add: power_add)
  then show "bit_length (n * 2 ^ j) \<le> bit_length n + j" by (simp add: bit_length_le_iff)
  from \<open>0 < n\<close> have "0 < bit_length n" by (simp add: bit_length.simps [of n])
  then have "bit_length n - 1 < bit_length n" by simp
  then have "2 ^ (bit_length n - 1) \<le> n" by (simp only: bit_length_gt_iff)
  then have "2 ^ (bit_length n - 1) * 2 ^ j \<le> n * 2 ^ j" by simp
  then have "2 ^ (bit_length n - 1 + j) \<le> n * 2 ^ j" by (simp add: power_add)
  then have "bit_length n - 1 + j < bit_length (n * 2 ^ j)" by (simp only: bit_length_gt_iff)
  with \<open>0 < bit_length n\<close> show "bit_length n + j \<le> bit_length (n * 2 ^ j)" by simp
qed

lemma rne_ge: "m * 2 ^ k \<le> n \<Longrightarrow> m \<le> round_nearest_even n k"
proof -
  assume "m * 2 ^ k \<le> n"
  then have "m \<le> n div 2 ^ k"
    by (simp add: less_eq_div_iff_mult_less_eq)
  then show ?thesis by (simp add: round_nearest_even_def Let_def)
qed


lemma rne_le_half: "2 * n < (2 * m + 1) * 2 ^ k \<Longrightarrow> round_nearest_even n k \<le> m"
proof -
  assume h: "2 * n < (2 * m + 1) * 2 ^ k"
  define P :: nat where "P = 2 ^ k"
  define q where "q = n div P"
  define r where "r = n mod P"
  have n: "n = q * P + r" by (simp add: q_def r_def)
  from h have h': "2 * (q * P) + 2 * r < 2 * (m * P) + P"
    by (simp add: n P_def algebra_simps)
  show ?thesis
  proof (cases "q < m")
    case True
    then show ?thesis by (simp add: round_nearest_even_def Let_def q_def P_def)
  next
    case False
    then have "m * P \<le> q * P" by simp
    with h' have small: "2 * r < P" by linarith
    have "q \<le> m"
    proof (rule ccontr)
      assume "\<not> q \<le> m"
      then have "m + 1 \<le> q" by simp
      then have "(m + 1) * P \<le> q * P" by (rule mult_le_mono1)
      then have "m * P + P \<le> q * P" by (simp add: algebra_simps)
      with h' show False by linarith
    qed
    with small show ?thesis
      by (simp add: round_nearest_even_def Let_def q_def r_def P_def)
  qed
qed


lemma rne_le: "n \<le> m * 2 ^ k \<Longrightarrow> round_nearest_even n k \<le> m"
proof (rule rne_le_half)
  assume "n \<le> m * 2 ^ k"
  then have "2 * n \<le> 2 * (m * 2 ^ k)" by simp
  also have "\<dots> < (2 * m + 1) * 2 ^ k" by (simp add: algebra_simps)
  finally show "2 * n < (2 * m + 1) * 2 ^ k" .
qed


text \<open>Rounding $n / 2^{1074 + j}$ when $n$ is a multiple of $2^j$.\<close>


lemma rne_shift: "round_nearest_even (x * 2 ^ j) (j + i) = round_nearest_even x i"
proof -
  define c :: nat where "c = 2 ^ j"
  define b :: nat where "b = 2 ^ i"
  have c: "0 < c" by (simp add: c_def)
  have p: "(2::nat) ^ (j + i) = b * c" by (simp add: power_add b_def c_def)
  have d: "x * c div (b * c) = x div b"
    using c by simp
  have m: "x * c mod (b * c) = (x mod b) * c"
    by (rule mod_mult_mult2)
  have lt: "2 * (a * c) < b * c \<longleftrightarrow> 2 * a < b" for a
    using c by (simp add: mult.assoc [symmetric])
  have gt: "b * c < 2 * (a * c) \<longleftrightarrow> b < 2 * a" for a
    using c by (simp add: mult.assoc [symmetric])
  have "round_nearest_even (x * c) (j + i) =
          (if 2 * ((x mod b) * c) < b * c then x div b
           else if b * c < 2 * ((x mod b) * c) then x div b + 1
           else if even (x div b) then x div b else x div b + 1)"
    unfolding round_nearest_even_def Let_def p d m ..
  also have "\<dots> =
          (if 2 * (x mod b) < b then x div b
           else if b < 2 * (x mod b) then x div b + 1
           else if even (x div b) then x div b else x div b + 1)"
    by (simp only: lt gt)
  also have "\<dots> = round_nearest_even x i"
    by (simp only: round_nearest_even_def Let_def b_def)
  finally show ?thesis by (simp only: c_def)
qed

lemma to_double_shift: "to_double (x * 2 ^ j) j = to_double x 0"
proof (cases "x = 0")
  case True
  then show ?thesis by (simp add: to_double_def round_nearest_even_def Let_def bit_length.simps)
next
  case False
  then have b: "bit_length (x * 2 ^ j) = bit_length x + j"
    by (simp add: bit_length_shift)
  have k: "max (bit_length x + j - 53) j = j + (bit_length x - 53)"
    by simp
  show ?thesis
    by (simp add: to_double_def Let_def b k rne_shift del: max.absorb1 max.absorb2 max.absorb3 max.absorb4)
qed


text \<open>Rounding stays between representable bounds.\<close>


lemma to_double_le_power: "x < 2 ^ b \<Longrightarrow> to_double x 0 \<le> 2 ^ b"
proof -
  assume x: "x < 2 ^ b"
  then have "bit_length x \<le> b" by (simp add: bit_length_le_iff)
  then have k: "bit_length x - 53 \<le> b" by simp
  define k where "k = bit_length x - 53"
  from k have "b = (b - k) + k" by (simp add: k_def)
  then have "(2::nat) ^ b = 2 ^ (b - k) * 2 ^ k" by (metis power_add)
  with x have "x \<le> 2 ^ (b - k) * 2 ^ k" by simp
  then have "round_nearest_even x k \<le> 2 ^ (b - k)" by (rule rne_le)
  then have "round_nearest_even x k * 2 ^ k \<le> 2 ^ (b - k) * 2 ^ k" by simp
  with \<open>(2::nat) ^ b = 2 ^ (b - k) * 2 ^ k\<close> show ?thesis
    by (simp add: to_double_def Let_def k_def)
qed

lemma rne_exact: "round_nearest_even (m * 2 ^ k) k = m"
  by (rule antisym) (simp_all add: rne_le rne_ge)

lemma to_double_exact: "c < 2 ^ 53 \<Longrightarrow> to_double (c * 2 ^ j) 0 = c * 2 ^ j"
proof (cases "c = 0")
  case True
  then show ?thesis by (simp add: to_double_def round_nearest_even_def Let_def bit_length.simps)
next
  case False
  assume "c < 2 ^ 53"
  then have "bit_length c \<le> 53" by (simp only: bit_length_le_iff)
  define k where "k = bit_length c + j - 53"
  from \<open>bit_length c \<le> 53\<close> have kj: "k \<le> j" by (simp add: k_def)
  then have "j = (j - k) + k" by simp
  then have p: "(2::nat) ^ j = 2 ^ (j - k) * 2 ^ k" by (metis power_add)
  from False have b: "bit_length (c * 2 ^ j) = bit_length c + j"
    by (simp add: bit_length_shift)
  have "round_nearest_even (c * 2 ^ j) k = c * 2 ^ (j - k)"
    using rne_exact [of "c * 2 ^ (j - k)" k] p by (simp add: mult.assoc)
  then have "round_nearest_even (c * 2 ^ j) k * 2 ^ k = c * 2 ^ j"
    using p by (simp add: mult.assoc)
  then show ?thesis
    by (simp add: to_double_def Let_def b k_def)
qed

lemma is_double_exact: "c < 2 ^ 53 \<Longrightarrow> is_double (c * 2 ^ j)"
  by (simp add: is_double_def to_double_exact)

text \<open>The largest double below 1 is $1 - 2^{-53}$.\<close>

lemma double_below_one:
  assumes "is_double a" "a < 2 ^ 1074"
  shows "a + 2 ^ 1021 \<le> 2 ^ 1074"
proof (cases "a < 2 ^ 1073")
  case True
  have "(2::nat) ^ 1021 \<le> 2 ^ 1073" by (rule power_increasing) simp_all
  moreover have "(2::nat) ^ 1074 = 2 ^ 1073 + 2 ^ 1073" by simp
  ultimately show ?thesis using True by linarith
next
  case False
  then have "1073 < bit_length a" by (simp add: bit_length_gt_iff)
  moreover from assms(2) have "bit_length a \<le> 1074" by (simp only: bit_length_le_iff)
  ultimately have b: "bit_length a = 1074" by simp
  define M where "M = round_nearest_even a 1021"
  define Q :: nat where "Q = 2 ^ 1021"
  from assms(1) b have a: "a = M * Q"
    by (simp add: is_double_def to_double_def Let_def M_def Q_def)
  have u: "(2::nat) ^ 1074 = 2 ^ 53 * Q"
    unfolding Q_def by (simp only: power_add [symmetric]) simp
  have "0 < Q" by (simp add: Q_def)
  from assms(2) a u have "M * Q < 2 ^ 53 * Q" by simp
  with \<open>0 < Q\<close> have "M < 2 ^ 53" by simp
  then have "M + 1 \<le> 2 ^ 53" by simp
  then have "(M + 1) * Q \<le> 2 ^ 53 * Q" by (rule mult_le_mono1)
  then show ?thesis
    unfolding u a Q_def [symmetric] by (simp add: algebra_simps)
qed

text \<open>$x \cdot 900000$ for a double $x \le 1 - 2^{-53}$ is at most $900000 - 2^{-33}$.\<close>

lemma times_900000_bound:
  assumes "a + 2 ^ 1021 \<le> 2 ^ 1074"
  shows "js_times a (js_number 900000) + 2 ^ 1041 \<le> 900000 * 2 ^ 1074"
proof -
  define Q :: nat where "Q = 2 ^ 1021"
  define x where "x = a * 900000"
  have Q: "0 < Q" by (simp add: Q_def)
  have p41: "(2::nat) ^ 1041 = 2 ^ 20 * Q"
    and p74: "(2::nat) ^ 1074 = 2 ^ 53 * Q"
    and p93: "(2::nat) ^ 1093 = 2 ^ 72 * Q"
    and p94: "(2::nat) ^ 1094 = 2 ^ 73 * Q"
    unfolding Q_def by (simp_all only: power_add [symmetric]) simp_all
  have "js_times a (js_number 900000) = to_double (x * 2 ^ 1074) 1074"
    by (simp add: js_times_def js_number_def x_def mult.assoc)
  then have P: "js_times a (js_number 900000) = to_double x 0"
    by (simp only: to_double_shift)
  from assms have "a + Q \<le> 2 ^ 53 * Q"
    by (simp only: p74 Q_def [symmetric])
  then have "(a + Q) * 900000 \<le> 2 ^ 53 * Q * 900000"
    by (rule mult_le_mono1)
  then have xb: "x + 900000 * Q \<le> 900000 * 2 ^ 53 * Q"
    by (simp add: x_def algebra_simps)
  show ?thesis
  proof (cases "x < 2 ^ 1093")
    case True
    then have "to_double x 0 \<le> 2 ^ 1093" by (rule to_double_le_power)
    then have "to_double x 0 \<le> 2 ^ 72 * Q" by (simp only: p93)
    then have "to_double x 0 + 2 ^ 20 * Q \<le> 900000 * (2 ^ 53 * Q)" by simp
    then show ?thesis by (simp only: P p41 p74)
  next
    case False
    then have "1093 < bit_length x" by (simp add: bit_length_gt_iff)
    moreover from xb have "x < 2 ^ 73 * Q" using Q by simp
    then have "x < 2 ^ 1094" by (simp only: p94)
    then have "bit_length x \<le> 1094" by (simp only: bit_length_le_iff)
    ultimately have b: "bit_length x = 1094" by simp
    then have t: "to_double x 0 = round_nearest_even x 1041 * 2 ^ 1041"
      by (simp add: to_double_def Let_def)
    from xb have "2 * x < (2 * (900000 * 2 ^ 33 - 1) + 1) * (2 ^ 20 * Q)"
      using Q by simp
    then have "2 * x < (2 * (900000 * 2 ^ 33 - 1) + 1) * 2 ^ 1041"
      by (simp only: p41)
    then have "round_nearest_even x 1041 \<le> 900000 * 2 ^ 33 - 1"
      by (rule rne_le_half)
    then have "round_nearest_even x 1041 * (2 ^ 20 * Q) \<le> (900000 * 2 ^ 33 - 1) * (2 ^ 20 * Q)"
      by (rule mult_le_mono1)
    then have "round_nearest_even x 1041 * (2 ^ 20 * Q) + 2 ^ 20 * Q \<le> 900000 * (2 ^ 53 * Q)"
      by simp
    then show ?thesis by (simp only: P t p41 p74)
  qed
qed

text \<open>Adding 100000 to a double of at most $900000 - 2^{-33}$ gives at most $10^6 - 2^{-33}$.\<close>

lemma plus_100000_bound:
  assumes "p + 2 ^ 1041 \<le> 900000 * 2 ^ 1074"
  shows "100000 * 2 ^ 1074 \<le> js_plus (js_number 100000) p"
    and "js_plus (js_number 100000) p + 2 ^ 1041 \<le> 1000000 * 2 ^ 1074"
proof -
  define y where "y = 100000 * 2 ^ 1074 + p"
  define k where "k = bit_length y - 53"
  define R :: nat where "R = 2 ^ k"
  define D :: nat where "D = 2 ^ (1041 - k)"
  define T :: nat where "T = 2 ^ 1041"
  have T: "0 < T" by (simp add: T_def)
  have p74: "(2::nat) ^ 1074 = 2 ^ 33 * T"
    and p94: "(2::nat) ^ 1094 = 2 ^ 53 * T"
    unfolding T_def by (simp_all only: power_add [symmetric]) simp_all
  from assms have pb: "p + T \<le> 900000 * (2 ^ 33 * T)"
    by (simp only: p74 T_def [symmetric])
  have yT: "y = 100000 * (2 ^ 33 * T) + p"
    by (simp only: y_def p74)
  have lo: "100000 * (2 ^ 33 * T) \<le> y"
    by (simp add: yT)
  from pb have hi: "y + T \<le> 1000000 * (2 ^ 33 * T)"
    by (simp add: yT)
  from hi T have "y < 2 ^ 53 * T" by simp
  then have "y < 2 ^ 1094" by (simp only: p94)
  then have "bit_length y \<le> 1094" by (simp only: bit_length_le_iff)
  then have "k \<le> 1041" by (simp add: k_def)
  then have "1041 = (1041 - k) + k" by simp
  then have "(2::nat) ^ 1041 = 2 ^ (1041 - k) * 2 ^ k" by (metis power_add)
  then have TDR: "T = D * R" by (simp add: T_def D_def R_def)
  have "js_plus (js_number 100000) p = to_double y 0"
    by (simp only: js_plus_def js_number_def y_def)
  then have S: "js_plus (js_number 100000) p = round_nearest_even y k * R"
    by (simp add: to_double_def Let_def k_def R_def)
  from lo have "(100000 * 2 ^ 33 * D) * 2 ^ k \<le> y"
    by (simp add: TDR R_def mult.assoc)
  then have "100000 * 2 ^ 33 * D \<le> round_nearest_even y k" by (rule rne_ge)
  then have "100000 * 2 ^ 33 * D * R \<le> round_nearest_even y k * R" by (rule mult_le_mono1)
  then have "100000 * (2 ^ 33 * T) \<le> round_nearest_even y k * R"
    by (simp add: TDR mult.assoc)
  then show "100000 * 2 ^ 1074 \<le> js_plus (js_number 100000) p"
    by (simp only: S p74)
  from hi have "y \<le> (1000000 * 2 ^ 33 - 1) * T"
    by (simp add: algebra_simps)
  then have "y \<le> ((1000000 * 2 ^ 33 - 1) * D) * 2 ^ k"
    by (simp add: TDR R_def mult.assoc)
  then have "round_nearest_even y k \<le> (1000000 * 2 ^ 33 - 1) * D" by (rule rne_le)
  then have "round_nearest_even y k * R \<le> (1000000 * 2 ^ 33 - 1) * D * R" by (rule mult_le_mono1)
  then have "round_nearest_even y k * R \<le> (1000000 * 2 ^ 33 - 1) * T"
    by (simp add: TDR mult.assoc)
  then have "round_nearest_even y k * R + T \<le> 1000000 * (2 ^ 33 * T)"
    by (simp add: algebra_simps)
  then show "js_plus (js_number 100000) p + 2 ^ 1041 \<le> 1000000 * 2 ^ 1074"
    by (simp only: S p74 T_def [symmetric])
qed

lemma floor_six_digits:
  assumes "100000 * 2 ^ 1074 \<le> s" "s + 2 ^ 1041 \<le> 1000000 * 2 ^ 1074"
  shows "100000 \<le> Math_floor s \<and> Math_floor s \<le> 999999"
proof -
  define U :: nat where "U = 2 ^ 1074"
  have U: "0 < U" by (simp add: U_def)
  from assms(1) have "100000 \<le> s div U"
    using U by (simp add: U_def less_eq_div_iff_mult_less_eq)
  moreover from assms(2) have "s < 1000000 * U"
    unfolding U_def [symmetric]
    by (metis add_lessD1 le_neq_implies_less less_add_same_cancel1 nat_less_le zero_less_numeral zero_less_power order_less_le_trans not_less)
  then have "s div U < 1000000"
    using U by (simp add: div_less_iff_less_mult)
  ultimately show ?thesis by (simp add: Math_floor_def U_def)
qed

section \<open>The code and its lifetime\<close>

lemma digit_char_digit: "i < 10 \<Longrightarrow> digit_char i \<in> set ''0123456789''"
  unfolding digit_char_def by (rule nth_mem) simp

lemma toString_digits: "set (toString n) \<subseteq> set ''0123456789''"
proof (induction n rule: toString.induct)
  case (1 n)
  show ?case
  proof (cases "n < 10")
    case True
    then show ?thesis
      using digit_char_digit [of n] by (simp add: toString.simps [of n])
  next
    case False
    with 1 have "set (toString (n div 10)) \<subseteq> set ''0123456789''" by simp
    moreover have "digit_char (n mod 10) \<in> set ''0123456789''"
      by (rule digit_char_digit) simp
    ultimately show ?thesis
      using False by (simp add: toString.simps [of n])
  qed
qed

lemma toString_length: "10 ^ k \<le> n \<Longrightarrow> n < 10 ^ Suc k \<Longrightarrow> length (toString n) = Suc k"
proof (induction k arbitrary: n)
  case 0
  then show ?case by (simp add: toString.simps [of n])
next
  case (Suc k)
  from Suc.prems have "10 \<le> n"
    by (meson le_trans one_le_numeral power_increasing self_le_power zero_less_Suc power_one_right le_refl)
  from Suc.prems have "10 ^ k \<le> n div 10" "n div 10 < 10 ^ Suc k"
    by (simp_all add: less_eq_div_iff_mult_less_eq div_less_iff_less_mult mult.commute)
  then have "length (toString (n div 10)) = Suc k" by (rule Suc.IH)
  with \<open>10 \<le> n\<close> show ?case by (simp add: toString.simps [of n])
qed

text \<open>The number \<^verbatim>\<open>Math.floor(100000 + Math.random() * 900000)\<close> for a double draw below 1.\<close>

lemma code_number_range:
  assumes "is_double r" "r < 2 ^ 1074"
  shows "100000 \<le> Math_floor (js_plus (js_number 100000) (js_times r (js_number 900000)))
       \<and> Math_floor (js_plus (js_number 100000) (js_times r (js_number 900000))) \<le> 999999"
proof -
  from assms have "r + 2 ^ 1021 \<le> 2 ^ 1074" by (rule double_below_one)
  then have "js_times r (js_number 900000) + 2 ^ 1041 \<le> 900000 * 2 ^ 1074"
    by (rule times_900000_bound)
  then have "100000 * 2 ^ 1074 \<le> js_plus (js_number 100000) (js_times r (js_number 900000))"
    and "js_plus (js_number 100000) (js_times r (js_number 900000)) + 2 ^ 1041 \<le> 1000000 * 2 ^ 1074"
    by (rule plus_100000_bound)+
  then show ?thesis by (rule floor_six_digits)
qed

text \<open>
  Claim C9. For every double that \<^verbatim>\<open>Math.random()\<close> can return (at least 0, below 1), the
  number \<^verbatim>\<open>Math.floor(100000 + Math.random() * 900000)\<close>, computed in double arithmetic, is a
  whole number from 100000 to 999999, and its string is six decimal digits. The row that
  \<^verbatim>\<open>sendEmailOTP\<close> or \<^verbatim>\<open>sendSMSOTP\<close> creates (it creates one unless the create call
  throws) holds that string as its code and expires exactly 600000 milliseconds, ten
  minutes, after the reading of the clock.
\<close>

theorem otp_code_six_digits_valid_ten_minutes:
  "is_double (math_random e) \<and> math_random e < 2 ^ 1074 \<longrightarrow>
     (let n = Math_floor (js_plus (js_number 100000) (js_times (math_random e) (js_number 900000)))
      in 100000 \<le> n \<and> n \<le> 999999
       \<and> length (toString n) = 6
       \<and> set (toString n) \<subseteq> set ''0123456789''
       \<and> otpVerifications (snd (sendEmailOTP e email d)) =
           (if faults e OTP_create then otpVerifications d
            else otpVerifications d @
              [\<lparr>otp_email = Some email, otp_phone = None, otp_code = toString n, otp_kind = EMAIL,
                otp_expiresAt = clock e 0 + 600000, otp_verified = False\<rparr>])
       \<and> otpVerifications (snd (sendSMSOTP e phone d)) =
           (if faults e OTP_create then otpVerifications d
            else otpVerifications d @
              [\<lparr>otp_email = None, otp_phone = Some phone, otp_code = toString n, otp_kind = SMS,
                otp_expiresAt = clock e 0 + 600000, otp_verified = False\<rparr>]))"
proof
  assume r: "is_double (math_random e) \<and> math_random e < 2 ^ 1074"
  define n where
    "n = Math_floor (js_plus (js_number 100000) (js_times (math_random e) (js_number 900000)))"
  from r have range: "100000 \<le> n \<and> n \<le> 999999"
    unfolding n_def by (intro code_number_range) simp_all
  then have "10 ^ 5 \<le> n" "n < 10 ^ Suc 5" by simp_all
  then have len: "length (toString n) = 6"
    using toString_length [of 5 n] by simp
  have email: "otpVerifications (snd (sendEmailOTP e email d)) =
           (if faults e OTP_create then otpVerifications d
            else otpVerifications d @
              [\<lparr>otp_email = Some email, otp_phone = None, otp_code = toString n, otp_kind = EMAIL,
                otp_expiresAt = clock e 0 + 600000, otp_verified = False\<rparr>])"
    by (simp add: sendEmailOTP_def oTPVerification_create_def Let_def n_def)
  have sms: "otpVerifications (snd (sendSMSOTP e phone d)) =
           (if faults e OTP_create then otpVerifications d
            else otpVerifications d @
              [\<lparr>otp_email = None, otp_phone = Some phone, otp_code = toString n, otp_kind = SMS,
                otp_expiresAt = clock e 0 + 600000, otp_verified = False\<rparr>])"
    by (simp add: sendSMSOTP_def oTPVerification_create_def twilioClient_messages_create_def
        Let_def n_def)
  from range len toString_digits [of n] email sms
  show "let n = Math_floor (js_plus (js_number 100000) (js_times (math_random e) (js_number 900000)))
      in 100000 \<le> n \<and> n \<le> 999999
       \<and> length (toString n) = 6
       \<and> set (toString n) \<subseteq> set ''0123456789''
       \<and> otpVerifications (snd (sendEmailOTP e email d)) =
           (if faults e OTP_create then otpVerifications d
            else otpVerifications d @
              [\<lparr>otp_email = Some email, otp_phone = None, otp_code = toString n, otp_kind = EMAIL,
                otp_expiresAt = clock e 0 + 600000, otp_verified = False\<rparr>])
       \<and> otpVerifications (snd (sendSMSOTP e phone d)) =
           (if faults e OTP_create then otpVerifications d
            else otpVerifications d @
              [\<lparr>otp_email = None, otp_phone = Some phone, otp_code = toString n, otp_kind = SMS,
                otp_expiresAt = clock e 0 + 600000, otp_verified = False\<rparr>])"
    unfolding Let_def n_def [symmetric] by blast
qed

text \<open>
  The draw $1/2$: the number is 550000, and both functions store the code \<open>550000\<close>,
  expiring ten minutes after \<open>issued\<close>.
\<close>

lemma code_number_half:
  "Math_floor (js_plus (js_number 100000) (js_times (2 ^ 1073) (js_number 900000))) = 550000"
proof -
  have "js_times (2 ^ 1073) (js_number 900000) = to_double ((900000 * 2 ^ 1073) * 2 ^ 1074) 1074"
    by (simp add: js_times_def js_number_def)
  also have "\<dots> = to_double (900000 * 2 ^ 1073) 0"
    by (rule to_double_shift)
  also have "\<dots> = 900000 * 2 ^ 1073"
    by (rule to_double_exact) simp
  finally have "js_plus (js_number 100000) (js_times (2 ^ 1073) (js_number 900000))
                  = to_double (1100000 * 2 ^ 1073) 0"
    by (simp add: js_plus_def js_number_def)
  also have "\<dots> = 1100000 * 2 ^ 1073"
    by (rule to_double_exact) simp
  finally show ?thesis
    by (simp add: Math_floor_def)
qed

theorem otp_code_six_digits_valid_ten_minutes_witness:
  "is_double (math_random env0) \<and> math_random env0 < 2 ^ 1074
   \<and> Math_floor (js_plus (js_number 100000) (js_times (math_random env0) (js_number 900000))) = 550000
   \<and> toString 550000 = ''550000''
   \<and> otpVerifications (snd (sendEmailOTP env0 ''guest@example.com'' empty_db)) =
       [email_otp ''guest@example.com'' ''550000'' (issued + 600000) False]
   \<and> otpVerifications (snd (sendSMSOTP env0 ''+15551234567'' empty_db)) =
       [sms_otp ''+15551234567'' ''550000'' (issued + 600000) False]"
proof -
  have r: "math_random env0 = 2 ^ 1073"
    by (simp only: env0_def env_at_def env.simps)
  have "is_double (1 * 2 ^ 1073)"
    by (rule is_double_exact) simp
  then have d: "is_double (math_random env0)"
    by (simp only: r mult_1)
  have l: "math_random env0 < 2 ^ 1074"
    unfolding r by simp
  have n: "Math_floor (js_plus (js_number 100000) (js_times (math_random env0) (js_number 900000)))
             = 550000"
    unfolding r by (rule code_number_half)
  have s: "toString 550000 = ''550000''"
    by (simp add: toString.simps digit_char_def)
  have f: "\<not> faults env0 OTP_create" "clock env0 0 = issued"
    "otpVerifications empty_db = []"
    by (simp_all add: env0_def env_at_def no_faults_def empty_db_def)
  note inst = otp_code_six_digits_valid_ten_minutes
    [of env0 "''guest@example.com''" empty_db "''+15551234567''"]
  from inst d l have e: "otpVerifications (snd (sendEmailOTP env0 ''guest@example.com'' empty_db)) =
       [email_otp ''guest@example.com'' ''550000'' (issued + 600000) False]"
    unfolding Let_def n s by (simp add: f email_otp_def)
  from inst d l have p: "otpVerifications (snd (sendSMSOTP env0 ''+15551234567'' empty_db)) =
       [sms_otp ''+15551234567'' ''550000'' (issued + 600000) False]"
    unfolding Let_def n s by (simp add: f sms_otp_def)
  show ?thesis
    using d l n s e p by (intro conjI)
qed

end
